theory Spec2Isabelle
  imports Complex_Main "HOL-Library.Word" "HOL-Library.Sublist"
begin

section \<open>Enumerations of utils/model3dUtils\<close>

text \<open>
  The string enums \<^verbatim>\<open>Model3DModel\<close>, \<^verbatim>\<open>Model3DVariant\<close> and \<^verbatim>\<open>Model3DFormat\<close>.
  Each constructor stands for the string the enum gives it; the functions
  \<open>model_string\<close>, \<open>variant_string\<close> and \<open>format_string\<close> return that string, so
  that the string tests of the source (\<^verbatim>\<open>variant.includes('multi')\<close>) are made on
  the same characters.
\<close>

datatype Model3DModel = TRELLIS | HUNYUAN3D | HUNYUAN_WORLD

datatype Model3DVariant = SINGLE | MULTI | SINGLE_TURBO | MULTI_TURBO

datatype Model3DFormat = GLB | GLTF

fun model_string :: "Model3DModel \<Rightarrow> string" where
  "model_string TRELLIS = ''trellis''"
| "model_string HUNYUAN3D = ''hunyuan3d''"
| "model_string HUNYUAN_WORLD = ''hunyuan-world''"

fun variant_string :: "Model3DVariant \<Rightarrow> string" where
  "variant_string SINGLE = ''single''"
| "variant_string MULTI = ''multi''"
| "variant_string SINGLE_TURBO = ''single-turbo''"
| "variant_string MULTI_TURBO = ''multi-turbo''"

fun format_string :: "Model3DFormat \<Rightarrow> string" where
  "format_string GLB = ''glb''"
| "format_string GLTF = ''gltf''"

text \<open>\<^verbatim>\<open>AVAILABLE_VARIANTS\<close>: the variants each model family defines.\<close>

fun AVAILABLE_VARIANTS :: "Model3DModel \<Rightarrow> Model3DVariant list" where
  "AVAILABLE_VARIANTS TRELLIS = [SINGLE, MULTI]"
| "AVAILABLE_VARIANTS HUNYUAN3D = [SINGLE, MULTI, SINGLE_TURBO, MULTI_TURBO]"
| "AVAILABLE_VARIANTS HUNYUAN_WORLD = [SINGLE]"

text \<open>\<^verbatim>\<open>String.prototype.includes\<close>: the second string occurs in the first.\<close>

fun str_includes :: "string \<Rightarrow> string \<Rightarrow> bool" where
  "str_includes [] sub = (sub = [])"
| "str_includes (c # cs) sub = (prefix sub (c # cs) \<or> str_includes cs sub)"

definition single_image :: "Model3DVariant \<Rightarrow> bool" where
  "single_image v = str_includes (variant_string v) ''single''"

definition multi_image :: "Model3DVariant \<Rightarrow> bool" where
  "multi_image v = str_includes (variant_string v) ''multi''"

definition turbo :: "Model3DVariant \<Rightarrow> bool" where
  "turbo v = str_includes (variant_string v) ''turbo''"

section \<open>providers/model3dHelpers: selectModelVariant\<close>

text \<open>
  \<^verbatim>\<open>selectModelVariant(model, inputImageCount, preferTurbo = false)\<close>. The parameter
  type of the source is \<^verbatim>\<open>'trellis' | 'hunyuan3d'\<close>; every value other than
  \<^verbatim>\<open>'trellis'\<close> takes the else branch, as it does here.
\<close>

definition selectModelVariant :: "Model3DModel \<Rightarrow> int \<Rightarrow> bool \<Rightarrow> Model3DVariant" where
  "selectModelVariant family inputImageCount preferTurbo =
     (if family = TRELLIS then
        (if inputImageCount \<le> 1 then SINGLE else MULTI)
      else if preferTurbo then
        (if inputImageCount \<le> 1 then SINGLE_TURBO else MULTI_TURBO)
      else
        (if inputImageCount \<le> 1 then SINGLE else MULTI))"

section \<open>utils/imageUtils: the transparency converter\<close>

text \<open>
  \<^verbatim>\<open>convertImagePixelsToTransparent\<close> works on the \<^verbatim>\<open>ImageData\<close> of a canvas: the
  width, the height and a \<^verbatim>\<open>Uint8ClampedArray\<close> holding four bytes (red, green, blue,
  alpha) for every pixel, row by row. Decoding the input buffer into that array
  (\<^verbatim>\<open>loadImage\<close>, \<^verbatim>\<open>drawImage\<close>, \<^verbatim>\<open>getImageData\<close>) and encoding it again
  (\<^verbatim>\<open>putImageData\<close>, \<^verbatim>\<open>toBuffer\<close>) are calls into the canvas library; the model starts
  from the decoded array and ends with the mutated one.

  A JavaScript number read from the array is an integer, or \<^verbatim>\<open>undefined\<close> when the
  index is out of range, which arithmetic turns into \<^verbatim>\<open>NaN\<close>: type \<open>num\<close>, where
  \<open>None\<close> stands for \<^verbatim>\<open>NaN\<close>. The channel differences, their squares and the sum of
  the squares are integers far below \<open>2^53\<close>, which a double holds exactly; the square
  root and the tolerance are doubles. A finite double is the real number it denotes,
  and finite doubles compare as these reals do. Every comparison with \<^verbatim>\<open>NaN\<close> is
  false.
\<close>

type_synonym u8 = "8 word"

type_synonym num = "int option"

datatype backgroundColor = White | Black | Auto

record ImageData =
  width :: nat
  height :: nat
  data :: "u8 list"

text \<open>\<^verbatim>\<open>data[idx]\<close>: the byte as a number, \<^verbatim>\<open>undefined\<close> outside the array.\<close>

definition data_at :: "u8 list \<Rightarrow> int \<Rightarrow> num" where
  "data_at d idx = (if 0 \<le> idx \<and> idx < int (length d) then Some (uint (d ! nat idx)) else None)"

text \<open>Addition, and \<^verbatim>\<open>Math.pow(a - b, 2)\<close>, on numbers that may be \<^verbatim>\<open>NaN\<close>.\<close>

definition num_add :: "num \<Rightarrow> num \<Rightarrow> num" where
  "num_add a b = (case a of None \<Rightarrow> None | Some x \<Rightarrow> (case b of None \<Rightarrow> None | Some y \<Rightarrow> Some (x + y)))"

definition pow2_diff :: "num \<Rightarrow> num \<Rightarrow> num" where
  "pow2_diff a b = (case a of None \<Rightarrow> None | Some x \<Rightarrow> (case b of None \<Rightarrow> None | Some y \<Rightarrow> Some ((x - y)\<^sup>2)))"

text \<open>\<^verbatim>\<open>Math.round\<close> rounds to the nearest integer, a tie towards plus infinity.\<close>

definition Math_round :: "real \<Rightarrow> int" where
  "Math_round x = \<lfloor>x + 1 / 2\<rfloor>"

text \<open>
  The four sampled corners as \<open>(x, y)\<close>: top-left, top-right, bottom-left,
  bottom-right, and the loop that adds up their channels.
\<close>

definition corners :: "nat \<Rightarrow> nat \<Rightarrow> (int \<times> int) list" where
  "corners w h = [(0, 0), (int w - 1, 0), (0, int h - 1), (int w - 1, int h - 1)]"

fun sum_corners :: "u8 list \<Rightarrow> nat \<Rightarrow> (int \<times> int) list \<Rightarrow> num \<times> num \<times> num \<Rightarrow> num \<times> num \<times> num" where
  "sum_corners d w [] totals = totals"
| "sum_corners d w ((x, y) # cs) (totalR, totalG, totalB) =
     (let idx = (y * int w + x) * 4 in
      sum_corners d w cs
        (num_add totalR (data_at d idx),
         num_add totalG (data_at d (idx + 1)),
         num_add totalB (data_at d (idx + 2))))"

text \<open>
  The target colour (lines 266 to 290): white unless the mode is \<^verbatim>\<open>'black'\<close> or
  \<^verbatim>\<open>'auto'\<close>.
\<close>

definition targetColor :: "backgroundColor \<Rightarrow> ImageData \<Rightarrow> num \<times> num \<times> num" where
  "targetColor backgroundColor img =
     (if backgroundColor = Black then (Some 0, Some 0, Some 0)
      else if backgroundColor = Auto then
        (case sum_corners (data img) (width img) (corners (width img) (height img)) (Some 0, Some 0, Some 0) of
           (totalR, totalG, totalB) \<Rightarrow>
             (map_option (\<lambda>t. Math_round (real_of_int t / 4)) totalR,
              map_option (\<lambda>t. Math_round (real_of_int t / 4)) totalG,
              map_option (\<lambda>t. Math_round (real_of_int t / 4)) totalB))
      else (Some 255, Some 255, Some 255))"

text \<open>
  A JavaScript number as the tolerance can be: \<^verbatim>\<open>NaN\<close>, an infinity, or finite.
\<close>

datatype number = NaN | MinusInfinity | Finite real | PlusInfinity

text \<open>
  \<^verbatim>\<open>Math.sqrt\<close> of an integer \<open>s\<close> below \<open>2^53\<close>: the double nearest to the square
  root, as the square root operation of IEEE 754 gives it. With
  \<open>2^e \<le> sqrt s < 2^(e+1)\<close> the doubles from \<open>2^e\<close> to \<open>2^(e+1)\<close> are the numbers
  \<open>m / 2^(52-e)\<close> for the integers \<open>m\<close> from \<open>2^52\<close> to \<open>2^53\<close>, and the nearest one has
  \<open>m\<close> the integer nearest to \<open>sqrt s * 2^(52-e) = sqrt (s * 4^(53-e)) / 2\<close> (the
  square root of an integer is never half way between two of them). \<open>floor_sqrt\<close> is
  the integer part of the square root and \<open>floor_log4\<close> that of the logarithm to
  base 4.
\<close>

fun floor_sqrt :: "nat \<Rightarrow> nat" where
  "floor_sqrt n =
     (if n < 4 then (if n = 0 then 0 else 1)
      else (let r = 2 * floor_sqrt (n div 4) in if (r + 1) * (r + 1) \<le> n then r + 1 else r))"

declare floor_sqrt.simps [simp del]

fun floor_log4 :: "nat \<Rightarrow> nat" where
  "floor_log4 n = (if n < 4 then 0 else Suc (floor_log4 (n div 4)))"

declare floor_log4.simps [simp del]

definition Math_sqrt :: "nat \<Rightarrow> real" where
  "Math_sqrt s =
     (if s = 0 then 0
      else (let e = floor_log4 s;
                m = (floor_sqrt (s * 4 ^ (53 - e)) + 1) div 2
            in real m / 2 ^ (52 - e)))"

text \<open>
  The colour distance of the loop body, and the test \<^verbatim>\<open>distance <= tolerance\<close>. The
  sum under the root is a sum of squares, so it is not negative.
\<close>

definition distance :: "num \<Rightarrow> num \<Rightarrow> num \<Rightarrow> num \<times> num \<times> num \<Rightarrow> real option" where
  "distance r g b target =
     (case target of (targetR, targetG, targetB) \<Rightarrow>
        map_option (\<lambda>s. Math_sqrt (nat s))
          (num_add (num_add (pow2_diff r targetR) (pow2_diff g targetG)) (pow2_diff b targetB)))"

definition within_tolerance :: "real option \<Rightarrow> number \<Rightarrow> bool" where
  "within_tolerance dst tolerance =
     (case dst of
        None \<Rightarrow> False
      | Some x \<Rightarrow>
          (case tolerance of
             NaN \<Rightarrow> False
           | MinusInfinity \<Rightarrow> False
           | Finite y \<Rightarrow> x \<le> y
           | PlusInfinity \<Rightarrow> True))"

text \<open>
  The loop \<^verbatim>\<open>for (let i = 0; i < data.length; i += 4)\<close>. A store beyond the end of a
  typed array is ignored, as \<open>list_update\<close> does.
\<close>

function convert_loop :: "nat \<Rightarrow> num \<times> num \<times> num \<Rightarrow> number \<Rightarrow> u8 list \<Rightarrow> u8 list" where
  "convert_loop i target tolerance d =
     (if i < length d then
        convert_loop (i + 4) target tolerance
          (if within_tolerance
                (distance (data_at d (int i)) (data_at d (int i + 1)) (data_at d (int i + 2)) target)
                tolerance
           then d[i + 3 := 0] else d)
      else d)"
  by pat_completeness auto
termination
  by (relation "measure (\<lambda>(i, target, tolerance, d). length d - i)") auto

declare convert_loop.simps [simp del]

definition convertImagePixelsToTransparent :: "ImageData \<Rightarrow> backgroundColor \<Rightarrow> number \<Rightarrow> ImageData" where
  "convertImagePixelsToTransparent img backgroundColor tolerance =
     img\<lparr>data := convert_loop 0 (targetColor backgroundColor img) tolerance (data img)\<rparr>"

subsection \<open>Pixels, for stating the properties\<close>

text \<open>
  Pixel \<open>p\<close> of an image occupies the bytes \<open>4 * p\<close> to \<open>4 * p + 3\<close>. The functions
  below name its channels, the pixel numbers of the four corners, the rounded average
  of a list of channel values, the Euclidean distance between two colours and the
  distance as the loop computes it.
\<close>

definition red :: "ImageData \<Rightarrow> nat \<Rightarrow> int" where
  "red img p = uint (data img ! (4 * p))"

definition green :: "ImageData \<Rightarrow> nat \<Rightarrow> int" where
  "green img p = uint (data img ! (4 * p + 1))"

definition blue :: "ImageData \<Rightarrow> nat \<Rightarrow> int" where
  "blue img p = uint (data img ! (4 * p + 2))"

definition alpha :: "ImageData \<Rightarrow> nat \<Rightarrow> u8" where
  "alpha img p = data img ! (4 * p + 3)"

definition rgb :: "ImageData \<Rightarrow> nat \<Rightarrow> int \<times> int \<times> int" where
  "rgb img p = (red img p, green img p, blue img p)"

definition corner_pixels :: "ImageData \<Rightarrow> nat list" where
  "corner_pixels img =
     [0, width img - 1, (height img - 1) * width img, (height img - 1) * width img + (width img - 1)]"

definition rounded_average :: "int list \<Rightarrow> int" where
  "rounded_average xs = round (real_of_int (sum_list xs) / real (length xs))"

text \<open>The target colour as a triple of integers, when none of its channels is \<^verbatim>\<open>NaN\<close>.\<close>

definition target_rgb :: "backgroundColor \<Rightarrow> ImageData \<Rightarrow> (int \<times> int \<times> int) option" where
  "target_rgb backgroundColor img =
     (case targetColor backgroundColor img of
        (Some r, Some g, Some b) \<Rightarrow> Some (r, g, b)
      | _ \<Rightarrow> None)"

definition squared_distance :: "int \<times> int \<times> int \<Rightarrow> int \<times> int \<times> int \<Rightarrow> int" where
  "squared_distance c t = (case c of (r, g, b) \<Rightarrow> case t of (tr, tg, tb) \<Rightarrow>
      (r - tr)\<^sup>2 + (g - tg)\<^sup>2 + (b - tb)\<^sup>2)"

definition rgb_distance :: "int \<times> int \<times> int \<Rightarrow> int \<times> int \<times> int \<Rightarrow> real" where
  "rgb_distance c t = sqrt (real_of_int (squared_distance c t))"

definition computed_distance :: "int \<times> int \<times> int \<Rightarrow> int \<times> int \<times> int \<Rightarrow> real" where
  "computed_distance c t = Math_sqrt (nat (squared_distance c t))"

text \<open>The test of the loop body at byte index \<open>i\<close>.\<close>

definition hit :: "u8 list \<Rightarrow> nat \<Rightarrow> num \<times> num \<times> num \<Rightarrow> number \<Rightarrow> bool" where
  "hit d i target tolerance =
     within_tolerance (distance (data_at d (int i)) (data_at d (int i + 1)) (data_at d (int i + 2)) target) tolerance"

text \<open>Small images on which the results are evaluated.\<close>

definition example_row :: ImageData where
  "example_row = \<lparr>width = 3, height = 1,
     data = [255, 255, 255, 255, 250, 240, 250, 90, 10, 20, 30, 200]\<rparr>"

definition example_dark :: ImageData where
  "example_dark = \<lparr>width = 1, height = 3,
     data = [0, 0, 0, 255, 1, 1, 1, 128, 3, 4, 0, 77]\<rparr>"

definition example_square :: ImageData where
  "example_square = \<lparr>width = 2, height = 2,
     data = [10, 20, 30, 255, 20, 40, 60, 255, 30, 60, 90, 255, 42, 81, 121, 255]\<rparr>"

definition example_pixel :: ImageData where
  "example_pixel = \<lparr>width = 1, height = 1, data = [7, 8, 9, 255]\<rparr>"

definition example_near :: ImageData where
  "example_near = \<lparr>width = 1, height = 1, data = [254, 254, 254, 255]\<rparr>"

section \<open>Options of the 3D helpers\<close>

text \<open>
  A thrown \<^verbatim>\<open>Error\<close> is a value carrying its message; a function that can throw
  returns \<open>error + 'a\<close>, with \<open>Inl\<close> for the throw.
\<close>

datatype error = Error string

datatype view = FRONT | BACK | TOP | LEFT | RIGHT

fun view_string :: "view \<Rightarrow> string" where
  "view_string FRONT = ''front''"
| "view_string BACK = ''back''"
| "view_string TOP = ''top''"
| "view_string LEFT = ''left''"
| "view_string RIGHT = ''right''"

datatype imageModel = OPENAI | GEMINI | FALAI

datatype quality = STANDARD | HIGH

text \<open>
  \<^verbatim>\<open>Model3DGenerationOptionsExtended\<close> as \<^verbatim>\<open>generate3DModel\<close> reads it: \<open>outputPath\<close>
  and \<open>model\<close>, and for every other property the value read, \<open>None\<close> when reading
  gives \<^verbatim>\<open>undefined\<close>. (The destructuring with defaults and the conditions of
  \<^verbatim>\<open>generate3DModel\<close> do the same for a missing property and for one that is present
  with the value \<^verbatim>\<open>undefined\<close>.)
\<close>

record Model3DGenerationOptionsExtended =
  prompt :: "string option"
  inputImagePaths :: "string list option"
  outputPath :: string
  model :: Model3DModel
  variant :: "Model3DVariant option"
  format :: "Model3DFormat option"
  quality :: "quality option"
  textured_mesh :: "bool option"
  autoGenerateReferences :: "bool option"
  referenceModel :: "imageModel option"
  referenceViews :: "view list option"
  cleanupReferences :: "bool option"

subsection \<open>Options objects\<close>

text \<open>
  An options object as the spread expressions, \<^verbatim>\<open>merge3DWithDefaults\<close> and
  \<^verbatim>\<open>validate3DModelOptions\<close> meet it at run time. A property is missing or present,
  and a present property holds a value or \<^verbatim>\<open>undefined\<close>: the object spread copies
  every present property, also one that holds \<^verbatim>\<open>undefined\<close>. Any property may be
  missing, as in \<^verbatim>\<open>Partial<Model3DGenerationOptionsExtended>\<close>. The properties
  \<open>model\<close>, \<open>variant\<close> and \<open>format\<close> hold the strings the caller passed, whatever
  they are; \<^verbatim>\<open>validate3DModelOptions\<close> is there to test them.
\<close>

datatype 'a slot = Missing | Present "'a option"

text \<open>Reading a property gives \<^verbatim>\<open>undefined\<close> when it is missing.\<close>

fun slot_value :: "'a slot \<Rightarrow> 'a option" where
  "slot_value Missing = None"
| "slot_value (Present v) = v"

record PartialOptions =
  p_prompt :: "string slot"
  p_inputImagePaths :: "string list slot"
  p_outputPath :: "string slot"
  p_model :: "string slot"
  p_variant :: "string slot"
  p_format :: "string slot"
  p_quality :: "quality slot"
  p_textured_mesh :: "bool slot"
  p_autoGenerateReferences :: "bool slot"
  p_referenceModel :: "imageModel slot"
  p_referenceViews :: "view list slot"
  p_cleanupReferences :: "bool slot"

text \<open>The empty object \<^verbatim>\<open>{}\<close>.\<close>

definition no_options :: PartialOptions where
  "no_options = \<lparr>p_prompt = Missing, p_inputImagePaths = Missing, p_outputPath = Missing,
     p_model = Missing, p_variant = Missing, p_format = Missing, p_quality = Missing,
     p_textured_mesh = Missing, p_autoGenerateReferences = Missing,
     p_referenceModel = Missing, p_referenceViews = Missing,
     p_cleanupReferences = Missing\<rparr>"

text \<open>
  One property under the object spread \<^verbatim>\<open>{...first, ...second}\<close>: that of the second
  object when it has the property, that of the first otherwise.
\<close>

definition spread :: "'a slot \<Rightarrow> 'a slot \<Rightarrow> 'a slot" where
  "spread first second = (case second of Present v \<Rightarrow> Present v | Missing \<Rightarrow> first)"

definition spread_options :: "PartialOptions \<Rightarrow> PartialOptions \<Rightarrow> PartialOptions" where
  "spread_options first second =
     \<lparr>p_prompt = spread (p_prompt first) (p_prompt second),
      p_inputImagePaths = spread (p_inputImagePaths first) (p_inputImagePaths second),
      p_outputPath = spread (p_outputPath first) (p_outputPath second),
      p_model = spread (p_model first) (p_model second),
      p_variant = spread (p_variant first) (p_variant second),
      p_format = spread (p_format first) (p_format second),
      p_quality = spread (p_quality first) (p_quality second),
      p_textured_mesh = spread (p_textured_mesh first) (p_textured_mesh second),
      p_autoGenerateReferences =
        spread (p_autoGenerateReferences first) (p_autoGenerateReferences second),
      p_referenceModel = spread (p_referenceModel first) (p_referenceModel second),
      p_referenceViews = spread (p_referenceViews first) (p_referenceViews second),
      p_cleanupReferences = spread (p_cleanupReferences first) (p_cleanupReferences second)\<rparr>"

text \<open>A string in a condition: \<^verbatim>\<open>undefined\<close> and the empty string are falsy.\<close>

definition truthy :: "string option \<Rightarrow> bool" where
  "truthy s = (case s of None \<Rightarrow> False | Some x \<Rightarrow> x \<noteq> [])"

text \<open>
  A string is a list of \<open>char\<close>, the code units from U+0000 to U+00FF.
  \<^verbatim>\<open>String.prototype.trim\<close> removes white space and line terminators from both ends;
  among these code units they are tab, line feed, vertical tab, form feed, carriage
  return, space and the no-break space U+00A0.
\<close>

definition white_space :: "char \<Rightarrow> bool" where
  "white_space c =
     (c \<in> set [CHR 0x09, CHR 0x0A, CHR 0x0B, CHR 0x0C, CHR 0x0D, CHR '' '', CHR 0xA0])"

definition trim :: "string \<Rightarrow> string" where
  "trim s = rev (dropWhile white_space (rev (dropWhile white_space s)))"

subsection \<open>validate3DModelOptions\<close>

text \<open>The checks in the order of the source; the first that fails throws.\<close>

definition validate3DModelOptions :: "PartialOptions \<Rightarrow> error + unit" where
  "validate3DModelOptions options =
     (if (case slot_value (p_outputPath options) of
            None \<Rightarrow> True
          | Some path \<Rightarrow> path = [] \<or> length (trim path) = 0) then
        Inl (Error ''Output path is required and cannot be empty'')
      else if (case slot_value (p_model options) of
                 None \<Rightarrow> True
               | Some m \<Rightarrow> m \<notin> set [''trellis'', ''hunyuan3d'']) then
        Inl (Error ''Model must be one of: trellis, hunyuan3d'')
      else if (case slot_value (p_variant options) of
                 None \<Rightarrow> False
               | Some v \<Rightarrow> v \<noteq> [] \<and> v \<notin> set [''single'', ''multi'', ''single-turbo'', ''multi-turbo'']) then
        Inl (Error ''Variant must be one of: single, multi, single-turbo, multi-turbo'')
      else if (case slot_value (p_format options) of
                 None \<Rightarrow> False
               | Some f \<Rightarrow> f \<noteq> [] \<and> f \<notin> set [''glb'', ''gltf'']) then
        Inl (Error ''Format must be one of: glb, gltf'')
      else if slot_value (p_model options) = Some ''trellis''
              \<and> (case slot_value (p_variant options) of
                    None \<Rightarrow> False
                  | Some v \<Rightarrow> str_includes v ''turbo'') then
        Inl (Error ''Trellis model does not support turbo variants'')
      else if (case slot_value (p_inputImagePaths options) of
                 None \<Rightarrow> True
               | Some ps \<Rightarrow> length ps = 0)
              \<and> \<not> truthy (slot_value (p_prompt options)) then
        Inl (Error ''Either input images or a prompt is required for 3D model generation'')
      else Inr ())"

subsection \<open>getDefault3DOptions and merge3DWithDefaults\<close>

definition baseDefaults :: PartialOptions where
  "baseDefaults = no_options\<lparr>p_format := Present (Some ''glb''),
     p_autoGenerateReferences := Present (Some True),
     p_referenceModel := Present (Some GEMINI),
     p_referenceViews := Present (Some [FRONT, BACK, TOP]),
     p_cleanupReferences := Present (Some True)\<rparr>"

text \<open>
  The argument is \<^verbatim>\<open>options.model\<close> as read, \<open>None\<close> for \<^verbatim>\<open>undefined\<close>, which the
  template string of the message prints as \<^verbatim>\<open>undefined\<close>.
\<close>

definition getDefault3DOptions :: "string option \<Rightarrow> error + PartialOptions" where
  "getDefault3DOptions m =
     (if m = Some ''trellis'' then
        Inr (baseDefaults\<lparr>p_model := Present (Some ''trellis''),
                          p_variant := Present (Some ''multi'')\<rparr>)
      else if m = Some ''hunyuan3d'' then
        Inr (baseDefaults\<lparr>p_model := Present (Some ''hunyuan3d''),
                          p_variant := Present (Some ''multi'')\<rparr>)
      else
        Inl (Error (''No default options available for model: ''
                    @ (case m of Some name \<Rightarrow> name | None \<Rightarrow> ''undefined''))))"

text \<open>\<^verbatim>\<open>{ ...defaults, ...options }\<close>.\<close>

definition merge3DWithDefaults :: "PartialOptions \<Rightarrow> error + PartialOptions" where
  "merge3DWithDefaults options =
     (case getDefault3DOptions (slot_value (p_model options)) of
        Inl e \<Rightarrow> Inl e
      | Inr defaults \<Rightarrow> Inr (spread_options defaults options))"

subsection \<open>Objects as properties\<close>

text \<open>
  An options object seen key by key: the names of the properties and, for each name,
  what the object has under it.
\<close>

datatype key = K_prompt | K_inputImagePaths | K_outputPath | K_model | K_variant | K_format
  | K_quality | K_textured_mesh | K_autoGenerateReferences | K_referenceModel
  | K_referenceViews | K_cleanupReferences

datatype val = V_string string | V_strings "string list" | V_quality quality | V_bool bool
  | V_imageModel imageModel | V_views "view list"

fun property :: "PartialOptions \<Rightarrow> key \<Rightarrow> val slot" where
  "property x K_prompt = map_slot V_string (p_prompt x)"
| "property x K_inputImagePaths = map_slot V_strings (p_inputImagePaths x)"
| "property x K_outputPath = map_slot V_string (p_outputPath x)"
| "property x K_model = map_slot V_string (p_model x)"
| "property x K_variant = map_slot V_string (p_variant x)"
| "property x K_format = map_slot V_string (p_format x)"
| "property x K_quality = map_slot V_quality (p_quality x)"
| "property x K_textured_mesh = map_slot V_bool (p_textured_mesh x)"
| "property x K_autoGenerateReferences = map_slot V_bool (p_autoGenerateReferences x)"
| "property x K_referenceModel = map_slot V_imageModel (p_referenceModel x)"
| "property x K_referenceViews = map_slot V_views (p_referenceViews x)"
| "property x K_cleanupReferences = map_slot V_bool (p_cleanupReferences x)"

text \<open>
  An options object on which merging is evaluated:
  \<^verbatim>\<open>{ prompt: 'test model', outputPath: 'model.glb', model: 'trellis', variant: 'single',
  format: undefined }\<close>.
\<close>

definition example_options :: PartialOptions where
  "example_options = no_options\<lparr>p_prompt := Present (Some ''test model''),
     p_outputPath := Present (Some ''model.glb''), p_model := Present (Some ''trellis''),
     p_variant := Present (Some ''single''), p_format := Present None\<rparr>"

subsection \<open>From an options object to what generate3DModel reads\<close>

text \<open>
  \<^verbatim>\<open>generate3DModelSmart\<close> hands the merged object to \<^verbatim>\<open>generate3DModel\<close> only after
  \<^verbatim>\<open>validate3DModelOptions\<close> has returned. Then the output path is a string, the
  model is \<^verbatim>\<open>'trellis'\<close> or \<^verbatim>\<open>'hunyuan3d'\<close>, the variant is one of the four names or
  falsy, and the format is \<^verbatim>\<open>'glb'\<close>, \<^verbatim>\<open>'gltf'\<close> or falsy. \<^verbatim>\<open>generate3DModel\<close> uses the
  variant only in \<^verbatim>\<open>variant && ...\<close> and \<^verbatim>\<open>variant || ...\<close>, and the generation
  functions use the format only as \<^verbatim>\<open>args.format || 'glb'\<close>, so an empty string is
  read as no value.
\<close>

definition model_of_string :: "string option \<Rightarrow> Model3DModel" where
  "model_of_string m =
     (if m = Some ''trellis'' then TRELLIS
      else if m = Some ''hunyuan3d'' then HUNYUAN3D
      else HUNYUAN_WORLD)"

definition variant_of_string :: "string option \<Rightarrow> Model3DVariant option" where
  "variant_of_string v =
     (if v = Some ''single'' then Some SINGLE
      else if v = Some ''multi'' then Some MULTI
      else if v = Some ''single-turbo'' then Some SINGLE_TURBO
      else if v = Some ''multi-turbo'' then Some MULTI_TURBO
      else None)"

definition format_of_string :: "string option \<Rightarrow> Model3DFormat option" where
  "format_of_string f =
     (if f = Some ''glb'' then Some GLB
      else if f = Some ''gltf'' then Some GLTF
      else None)"

definition read_options :: "PartialOptions \<Rightarrow> Model3DGenerationOptionsExtended" where
  "read_options options =
     \<lparr>prompt = slot_value (p_prompt options),
      inputImagePaths = slot_value (p_inputImagePaths options),
      outputPath = (case slot_value (p_outputPath options) of Some path \<Rightarrow> path | None \<Rightarrow> []),
      model = model_of_string (slot_value (p_model options)),
      variant = variant_of_string (slot_value (p_variant options)),
      format = format_of_string (slot_value (p_format options)),
      quality = slot_value (p_quality options),
      textured_mesh = slot_value (p_textured_mesh options),
      autoGenerateReferences = slot_value (p_autoGenerateReferences options),
      referenceModel = slot_value (p_referenceModel options),
      referenceViews = slot_value (p_referenceViews options),
      cleanupReferences = slot_value (p_cleanupReferences options)\<rparr>"

section \<open>The outside world\<close>

text \<open>
  The helpers call image generation, the HTTP endpoint of the provider, the file
  system and the console. Each such call is an event; a function that makes calls
  takes the events so far and returns them extended, in the order the calls are
  made. What a call returns is decided by the environment, which may take the whole
  history into account.
\<close>

text \<open>The argument object of \<^verbatim>\<open>generateImage\<close>.\<close>

record imageRequest =
  req_provider :: imageModel
  req_prompt :: string
  req_outputPath :: string
  req_size :: "string option"
  req_image_size :: "string option"

text \<open>
  Modelled from the spec: \<^verbatim>\<open>generateImage\<close> of providers/imageHelpers is not among the
  sources. It "returns a JSON-serialized result containing at least a list of saved
  file paths", or fails. \<open>Rejected\<close> is a rejected call; \<open>Unparsable\<close> is a result on
  which \<^verbatim>\<open>JSON.parse\<close> or the access to \<^verbatim>\<open>savedPaths\<close> throws; \<open>Parsed\<close> carries the
  \<^verbatim>\<open>savedPaths\<close> of the parsed result, \<open>None\<close> when it has none.
\<close>

datatype generated = Rejected string | Unparsable string | Parsed "string list option"

text \<open>A request body: property names with their values.\<close>

datatype jvalue = JString string | JStrings "string list" | JNumber rat | JBool bool

type_synonym body = "(string \<times> jvalue) list"

text \<open>
  What the generation functions read of a response: \<open>api_error\<close> is the message
  rendered from \<^verbatim>\<open>response.error\<close> or \<^verbatim>\<open>response.detail\<close> when one of them is truthy;
  the two URL fields are \<^verbatim>\<open>response.model_mesh.url\<close> and \<^verbatim>\<open>response.model_url\<close>.
\<close>

record response =
  api_error :: "string option"
  model_mesh_url :: "string option"
  model_url :: "string option"
  timings_inference :: "rat option"

datatype event =
    GenerateImage imageRequest generated
  | HTTPRequest string string "(string \<times> string) list" body "string + response"
  | Download string string "string option"
  | Unlink string "string option"
  | Console_log string
  | Console_warn string

text \<open>
  The environment: the API key, and for each kind of call its outcome after a given
  history. A failing call gives the message of the error it throws. \<open>ext_base64\<close> is
  \<^verbatim>\<open>Buffer.toString('base64')\<close>; \<open>ext_format_tag\<close> is the upper-case extension that
  \<^verbatim>\<open>getModel3DInfo\<close> derives from a path with \<^verbatim>\<open>path.extname\<close>.
\<close>

record env =
  FAL_AI_API_KEY :: "string option"
  ext_generateImage :: "event list \<Rightarrow> imageRequest \<Rightarrow> generated"
  ext_makeHTTPRequest ::
    "event list \<Rightarrow> string \<Rightarrow> string \<Rightarrow> (string \<times> string) list \<Rightarrow> body \<Rightarrow> string + response"
  ext_readFileSync :: "event list \<Rightarrow> string \<Rightarrow> string + string"
  ext_base64 :: "string \<Rightarrow> string"
  ext_download :: "event list \<Rightarrow> string \<Rightarrow> string \<Rightarrow> string option"
  ext_statSync :: "event list \<Rightarrow> string \<Rightarrow> string + nat"
  ext_format_tag :: "string \<Rightarrow> string"
  ext_unlinkSync :: "event list \<Rightarrow> string \<Rightarrow> string option"

subsection \<open>Calls that leave an event\<close>

definition generateImage :: "env \<Rightarrow> imageRequest \<Rightarrow> event list \<Rightarrow> generated \<times> event list" where
  "generateImage e request t =
     (let r = ext_generateImage e t request in (r, t @ [GenerateImage request r]))"

definition makeHTTPRequest ::
  "env \<Rightarrow> string \<Rightarrow> string \<Rightarrow> (string \<times> string) list \<Rightarrow> body \<Rightarrow> event list
    \<Rightarrow> (error + response) \<times> event list" where
  "makeHTTPRequest e url method headers b t =
     (let r = ext_makeHTTPRequest e t url method headers b in
      (case r of Inl msg \<Rightarrow> Inl (Error msg) | Inr resp \<Rightarrow> Inr resp,
       t @ [HTTPRequest url method headers b r]))"

definition downloadAndSave3DModel ::
  "env \<Rightarrow> string \<Rightarrow> string \<Rightarrow> event list \<Rightarrow> (error + string) \<times> event list" where
  "downloadAndSave3DModel e modelUrl outPath t =
     (let r = ext_download e t modelUrl outPath in
      (case r of
         None \<Rightarrow> Inr outPath
       | Some msg \<Rightarrow>
           Inl (Error (''Failed to download and save 3D model to '' @ outPath @ '': '' @ msg)),
       t @ [Download modelUrl outPath r]))"

subsection \<open>Credentials and files\<close>

definition getFalAIKey :: "env \<Rightarrow> error + string" where
  "getFalAIKey e =
     (if truthy (FAL_AI_API_KEY e) then
        (case FAL_AI_API_KEY e of Some k \<Rightarrow> Inr k
         | None \<Rightarrow> Inl (Error ''FAL_AI_API_KEY environment variable is required''))
      else Inl (Error ''FAL_AI_API_KEY environment variable is required''))"

definition encodeImageToBase64 :: "env \<Rightarrow> event list \<Rightarrow> string \<Rightarrow> error + string" where
  "encodeImageToBase64 e t imagePath =
     (case ext_readFileSync e t imagePath of
        Inr imageBuffer \<Rightarrow> Inr (ext_base64 e imageBuffer)
      | Inl msg \<Rightarrow> Inl (Error (''Failed to read image file '' @ imagePath @ '': '' @ msg)))"

record model_info =
  file_size :: nat
  info_format :: string

definition getModel3DInfo :: "env \<Rightarrow> event list \<Rightarrow> string \<Rightarrow> error + model_info" where
  "getModel3DInfo e t modelPath =
     (case ext_statSync e t modelPath of
        Inr fileSize \<Rightarrow> Inr \<lparr>file_size = fileSize, info_format = ext_format_tag e modelPath\<rparr>
      | Inl msg \<Rightarrow> Inl (Error (''Failed to get 3D model info for '' @ modelPath @ '': '' @ msg)))"

subsection \<open>Image references as data URIs\<close>

text \<open>\<^verbatim>\<open>convertPathsToBase64URIs\<close>: the loop with its accumulator \<open>uris\<close>.\<close>

fun convertPaths_loop :: "env \<Rightarrow> event list \<Rightarrow> string list \<Rightarrow> string list \<Rightarrow> error + string list" where
  "convertPaths_loop e t uris [] = Inr uris"
| "convertPaths_loop e t uris (imagePath # rest) =
     (case encodeImageToBase64 e t imagePath of
        Inr base64Data \<Rightarrow>
          convertPaths_loop e t (uris @ [''data:image/png;base64,'' @ base64Data]) rest
      | Inl (Error message) \<Rightarrow>
          Inl (Error (''Failed to convert image '' @ imagePath @ '' to base64 URI: '' @ message)))"

definition convertPathsToBase64URIs :: "env \<Rightarrow> event list \<Rightarrow> string list \<Rightarrow> error + string list" where
  "convertPathsToBase64URIs e t paths = convertPaths_loop e t [] paths"

text \<open>
  The conversion written out in the generation functions: a reference that starts
  with \<^verbatim>\<open>data:\<close> is kept, any other is read as a file. For a list this is
  \<^verbatim>\<open>Promise.all(imagePaths.map(async (path) => ...))\<close>, which rejects with the first
  failure in the order of the list.
\<close>

definition imageUri :: "env \<Rightarrow> event list \<Rightarrow> string \<Rightarrow> error + string" where
  "imageUri e t path =
     (if prefix ''data:'' path then Inr path
      else (case encodeImageToBase64 e t path of
              Inl err \<Rightarrow> Inl err
            | Inr base64Data \<Rightarrow> Inr (''data:image/png;base64,'' @ base64Data)))"

fun imageUris :: "env \<Rightarrow> event list \<Rightarrow> string list \<Rightarrow> error + string list" where
  "imageUris e t [] = Inr []"
| "imageUris e t (path # rest) =
     (case imageUri e t path of
        Inl err \<Rightarrow> Inl err
      | Inr uri \<Rightarrow> (case imageUris e t rest of Inl err \<Rightarrow> Inl err | Inr uris \<Rightarrow> Inr (uri # uris)))"

section \<open>utils/model3dUtils: the generation functions\<close>

record Model3DGenerationResult =
  provider :: string
  res_model :: string
  res_variant :: string
  savedPaths :: "string list"
  prompt_used :: "string option"
  input_images :: "string list"
  generation_time :: "rat option"
  res_model_info :: model_info
  parameters :: body
  auto_generated_references :: "string list option"
  reference_model_used :: "imageModel option"
  reference_views_generated :: "view list option"

text \<open>A natural number in a template string.\<close>

fun show_nat :: "nat \<Rightarrow> string" where
  "show_nat n =
     (if n < 10 then [''0123456789'' ! n]
      else show_nat (n div 10) @ [''0123456789'' ! (n mod 10)])"

declare show_nat.simps [simp del]

definition auth_headers :: "string \<Rightarrow> (string \<times> string) list" where
  "auth_headers apiKey =
     [(''Authorization'', ''Key '' @ apiKey), (''Content-Type'', ''application/json'')]"

text \<open>\<^verbatim>\<open>args.format || 'glb'\<close>.\<close>

definition format_or_glb :: "Model3DFormat option \<Rightarrow> string" where
  "format_or_glb f = (case f of Some x \<Rightarrow> format_string x | None \<Rightarrow> ''glb'')"

text \<open>\<^verbatim>\<open>args.texture_size || 1024\<close>.\<close>

definition texture_size_or_1024 :: "nat option \<Rightarrow> nat" where
  "texture_size_or_1024 s = (case s of Some n \<Rightarrow> if n = 0 then 1024 else n | None \<Rightarrow> 1024)"

text \<open>
  The result URL of a response: \<^verbatim>\<open>response.model_mesh && response.model_mesh.url\<close>
  for the Trellis functions and \<^verbatim>\<open>hunyuan3DGenerateSingle\<close>, \<^verbatim>\<open>response.model_url\<close>
  for the others; an empty string is falsy.
\<close>

definition mesh_url :: "response \<Rightarrow> string option" where
  "mesh_url r = (if truthy (model_mesh_url r) then model_mesh_url r else None)"

definition plain_url :: "response \<Rightarrow> string option" where
  "plain_url r = (if truthy (model_url r) then model_url r else None)"

text \<open>
  The part the six generation functions share, from the call of \<^verbatim>\<open>makeHTTPRequest\<close>
  to \<^verbatim>\<open>getModel3DInfo\<close>: \<open>label\<close> is the name in the API error message, \<open>url_of\<close>
  the field that holds the result URL, \<open>missing\<close> the message when it is absent. It
  returns the response, \<open>savedPaths\<close> and the model information.
\<close>

definition request_model ::
  "env \<Rightarrow> string \<Rightarrow> (response \<Rightarrow> string option) \<Rightarrow> string \<Rightarrow> string \<Rightarrow> string \<Rightarrow> body
    \<Rightarrow> string \<Rightarrow> event list
    \<Rightarrow> (error + response \<times> string list \<times> model_info) \<times> event list" where
  "request_model e label url_of missing endpoint apiKey b outPath t =
     (case makeHTTPRequest e endpoint ''POST'' (auth_headers apiKey) b t of
        (Inl err, t1) \<Rightarrow> (Inl err, t1)
      | (Inr resp, t1) \<Rightarrow>
          (case api_error resp of
             Some msg \<Rightarrow> (Inl (Error (label @ '' API error: '' @ msg)), t1)
           | None \<Rightarrow>
               (case url_of resp of
                  None \<Rightarrow> (Inl (Error missing), t1)
                | Some url \<Rightarrow>
                    (case downloadAndSave3DModel e url outPath t1 of
                       (Inl err, t2) \<Rightarrow> (Inl err, t2)
                     | (Inr modelPath, t2) \<Rightarrow>
                         (case getModel3DInfo e t2 outPath of
                            Inl err \<Rightarrow> (Inl err, t2)
                          | Inr modelInfo \<Rightarrow> (Inr (resp, [modelPath], modelInfo), t2))))))"

definition make_result ::
  "string \<Rightarrow> string \<Rightarrow> string option \<Rightarrow> string list \<Rightarrow> body
    \<Rightarrow> response \<times> string list \<times> model_info \<Rightarrow> Model3DGenerationResult" where
  "make_result model_name variant_name a_prompt images b r =
     (case r of (resp, saved, modelInfo) \<Rightarrow>
        \<lparr>provider = ''FAL.ai'', res_model = model_name, res_variant = variant_name,
         savedPaths = saved, prompt_used = a_prompt, input_images = images,
         generation_time = timings_inference resp, res_model_info = modelInfo,
         parameters = b, auto_generated_references = None, reference_model_used = None,
         reference_views_generated = None\<rparr>)"

definition finish ::
  "string \<Rightarrow> string \<Rightarrow> string option \<Rightarrow> string list \<Rightarrow> body
    \<Rightarrow> (error + response \<times> string list \<times> model_info) \<times> event list
    \<Rightarrow> (error + Model3DGenerationResult) \<times> event list" where
  "finish model_name variant_name a_prompt images b r =
     (case r of
        (Inl err, t') \<Rightarrow> (Inl err, t')
      | (Inr x, t') \<Rightarrow> (Inr (make_result model_name variant_name a_prompt images b x), t'))"

definition trellisGenerate3DSingle ::
  "env \<Rightarrow> string option \<Rightarrow> string \<Rightarrow> string \<Rightarrow> Model3DFormat option \<Rightarrow> nat option
    \<Rightarrow> event list \<Rightarrow> (error + Model3DGenerationResult) \<times> event list" where
  "trellisGenerate3DSingle e a_prompt a_imagePath a_outputPath a_format a_texture_size t =
     (case getFalAIKey e of
        Inl err \<Rightarrow> (Inl err, t)
      | Inr apiKey \<Rightarrow>
          (case imageUri e t a_imagePath of
             Inl err \<Rightarrow> (Inl err, t)
           | Inr uri \<Rightarrow>
               (let b = [(''image_url'', JString uri),
                         (''texture_size'', JNumber (of_nat (texture_size_or_1024 a_texture_size))),
                         (''ss_guidance_strength'', JNumber (15 / 2)),
                         (''ss_sampling_steps'', JNumber 12),
                         (''slat_guidance_strength'', JNumber 3),
                         (''slat_sampling_steps'', JNumber 12),
                         (''mesh_simplify'', JNumber (19 / 20))]
                in finish ''trellis'' ''single'' a_prompt [a_imagePath] b
                     (request_model e ''Trellis'' mesh_url ''No model mesh in Trellis response''
                        ''https://fal.run/fal-ai/trellis'' apiKey b a_outputPath t))))"

definition trellisGenerate3DMulti ::
  "env \<Rightarrow> string option \<Rightarrow> string list \<Rightarrow> string \<Rightarrow> Model3DFormat option \<Rightarrow> nat option
    \<Rightarrow> string option \<Rightarrow> event list \<Rightarrow> (error + Model3DGenerationResult) \<times> event list" where
  "trellisGenerate3DMulti e a_prompt a_imagePaths a_outputPath a_format a_texture_size
       a_multiimage_algo t =
     (case getFalAIKey e of
        Inl err \<Rightarrow> (Inl err, t)
      | Inr apiKey \<Rightarrow>
          (case imageUris e t a_imagePaths of
             Inl err \<Rightarrow> (Inl err, t)
           | Inr uris \<Rightarrow>
               (let b = [(''image_urls'', JStrings uris),
                         (''texture_size'', JNumber (of_nat (texture_size_or_1024 a_texture_size))),
                         (''ss_guidance_strength'', JNumber (15 / 2)),
                         (''ss_sampling_steps'', JNumber 12),
                         (''slat_guidance_strength'', JNumber 3),
                         (''slat_sampling_steps'', JNumber 12),
                         (''mesh_simplify'', JNumber (19 / 20)),
                         (''multiimage_algo'',
                            JString (if truthy a_multiimage_algo
                                     then (case a_multiimage_algo of Some a \<Rightarrow> a | None \<Rightarrow> ''stochastic'')
                                     else ''stochastic''))]
                in finish ''trellis'' ''multi'' a_prompt a_imagePaths b
                     (request_model e ''Trellis Multi'' mesh_url
                        ''No model mesh in Trellis Multi response''
                        ''https://fal.run/fal-ai/trellis/multi'' apiKey b a_outputPath t))))"

definition hunyuan3DGenerateSingle ::
  "env \<Rightarrow> string option \<Rightarrow> string \<Rightarrow> string \<Rightarrow> Model3DFormat option \<Rightarrow> bool option
    \<Rightarrow> event list \<Rightarrow> (error + Model3DGenerationResult) \<times> event list" where
  "hunyuan3DGenerateSingle e a_prompt a_imagePath a_outputPath a_format a_textured_mesh t =
     (case getFalAIKey e of
        Inl err \<Rightarrow> (Inl err, t)
      | Inr apiKey \<Rightarrow>
          (case imageUri e t a_imagePath of
             Inl err \<Rightarrow> (Inl err, t)
           | Inr uri \<Rightarrow>
               (let b = [(''input_image_url'', JString uri),
                         (''num_inference_steps'', JNumber 50),
                         (''guidance_scale'', JNumber (15 / 2)),
                         (''octree_resolution'', JNumber 256),
                         (''textured_mesh'',
                            JBool (case a_textured_mesh of Some x \<Rightarrow> x | None \<Rightarrow> True))]
                in finish ''hunyuan3d-2.0'' ''single'' a_prompt [a_imagePath] b
                     (request_model e ''Hunyuan3D'' mesh_url ''No model mesh in Hunyuan3D response''
                        ''https://fal.run/fal-ai/hunyuan3d/v2'' apiKey b a_outputPath t))))"

text \<open>The request body of the two multi-view functions.\<close>

definition multi_view_body :: "string list \<Rightarrow> Model3DFormat option \<Rightarrow> body" where
  "multi_view_body uris a_format =
     [(''front_image_url'', JString (uris ! 0)),
      (''back_image_url'', JString (uris ! 1)),
      (''left_image_url'', JString (uris ! 2)),
      (''format'', JString (format_or_glb a_format))]"

definition hunyuan3DGenerateMulti ::
  "env \<Rightarrow> string option \<Rightarrow> string list \<Rightarrow> string \<Rightarrow> Model3DFormat option
    \<Rightarrow> event list \<Rightarrow> (error + Model3DGenerationResult) \<times> event list" where
  "hunyuan3DGenerateMulti e a_prompt a_imagePaths a_outputPath a_format t =
     (case getFalAIKey e of
        Inl err \<Rightarrow> (Inl err, t)
      | Inr apiKey \<Rightarrow>
          if length a_imagePaths < 3 then
            (Inl (Error (''Hunyuan3D Multi requires at least 3 images (front, back, left views). Only ''
                         @ show_nat (length a_imagePaths) @ '' images provided.'')), t)
          else
            (case imageUris e t a_imagePaths of
               Inl err \<Rightarrow> (Inl err, t)
             | Inr uris \<Rightarrow>
                 (let b = multi_view_body uris a_format
                  in finish ''hunyuan3d-2.0'' ''multi'' a_prompt a_imagePaths b
                       (request_model e ''Hunyuan3D Multi'' plain_url
                          ''No model URL in Hunyuan3D Multi response''
                          ''https://fal.run/fal-ai/hunyuan3d/v2/multi-view'' apiKey b
                          a_outputPath t))))"

definition hunyuan3DGenerateSingleTurbo ::
  "env \<Rightarrow> string option \<Rightarrow> string \<Rightarrow> string \<Rightarrow> Model3DFormat option
    \<Rightarrow> event list \<Rightarrow> (error + Model3DGenerationResult) \<times> event list" where
  "hunyuan3DGenerateSingleTurbo e a_prompt a_imagePath a_outputPath a_format t =
     (case getFalAIKey e of
        Inl err \<Rightarrow> (Inl err, t)
      | Inr apiKey \<Rightarrow>
          (case imageUri e t a_imagePath of
             Inl err \<Rightarrow> (Inl err, t)
           | Inr uri \<Rightarrow>
               (let b = [(''image_url'', JString uri),
                         (''format'', JString (format_or_glb a_format))]
                in finish ''hunyuan3d-2.0'' ''single-turbo'' a_prompt [a_imagePath] b
                     (request_model e ''Hunyuan3D Turbo'' plain_url
                        ''No model URL in Hunyuan3D Turbo response''
                        ''https://fal.run/fal-ai/hunyuan3d/v2/turbo'' apiKey b a_outputPath t))))"

definition hunyuan3DGenerateMultiTurbo ::
  "env \<Rightarrow> string option \<Rightarrow> string list \<Rightarrow> string \<Rightarrow> Model3DFormat option
    \<Rightarrow> event list \<Rightarrow> (error + Model3DGenerationResult) \<times> event list" where
  "hunyuan3DGenerateMultiTurbo e a_prompt a_imagePaths a_outputPath a_format t =
     (case getFalAIKey e of
        Inl err \<Rightarrow> (Inl err, t)
      | Inr apiKey \<Rightarrow>
          if length a_imagePaths < 3 then
            (Inl (Error (''Hunyuan3D Multi Turbo requires at least 3 images (front, back, left views). Only ''
                         @ show_nat (length a_imagePaths) @ '' images provided.'')), t)
          else
            (case imageUris e t a_imagePaths of
               Inl err \<Rightarrow> (Inl err, t)
             | Inr uris \<Rightarrow>
                 (let b = multi_view_body uris a_format
                  in finish ''hunyuan3d-2.0'' ''multi-turbo'' a_prompt a_imagePaths b
                       (request_model e ''Hunyuan3D Multi Turbo'' plain_url
                          ''No model URL in Hunyuan3D Multi Turbo response''
                          ''https://fal.run/fal-ai/hunyuan3d/v2/multi-view/turbo'' apiKey b
                          a_outputPath t))))"

section \<open>providers/model3dHelpers: reference images and generate3DModel\<close>

text \<open>
  \<^verbatim>\<open>s.replace(/\.[^.]+$/, r)\<close>: when \<open>s\<close> has a dot followed by at least one
  character and no further dot, everything from that dot on is replaced by \<open>r\<close>;
  otherwise \<open>s\<close> is returned as it is.
\<close>

definition replace_extension :: "string \<Rightarrow> string \<Rightarrow> string" where
  "replace_extension s r =
     (let ext = takeWhile (\<lambda>c. c \<noteq> CHR ''.'') (rev s) in
      if ext \<noteq> [] \<and> length ext < length s
      then take (length s - length ext - 1) s @ r else s)"

subsection \<open>generateReferenceImages\<close>

fun view_clause :: "view \<Rightarrow> string" where
  "view_clause FRONT = '', front-facing view showing main features and proportions''"
| "view_clause BACK = '', rear view showing back details and construction''"
| "view_clause TOP = '', overhead view showing top layout and proportions''"
| "view_clause LEFT = '', left side profile showing side details and proportions''"
| "view_clause RIGHT = '', right side profile showing opposite side details''"

definition viewPrompt :: "string \<Rightarrow> view \<Rightarrow> string" where
  "viewPrompt a_prompt v =
     a_prompt @ '', '' @ view_string v @ '' view, ''
     @ ''technical reference image, clean white background, ''
     @ ''professional 3D modeling reference, consistent lighting, ''
     @ ''detailed but clear, suitable for 3D reconstruction''
     @ view_clause v"

text \<open>The argument of \<^verbatim>\<open>generateImage\<close> for one view.\<close>

definition reference_request :: "string \<Rightarrow> string \<Rightarrow> imageModel \<Rightarrow> view \<Rightarrow> imageRequest" where
  "reference_request a_prompt outputBasePath m v =
     \<lparr>req_provider = m,
      req_prompt = viewPrompt a_prompt v,
      req_outputPath = replace_extension outputBasePath (''_ref_'' @ view_string v @ ''.png''),
      req_size = (if m = OPENAI then Some ''1024x1024'' else None),
      req_image_size = (if m = FALAI then Some ''square_hd'' else None)\<rparr>"

text \<open>
  The body of the \<^verbatim>\<open>try\<close> block for one view: it throws, or returns
  \<open>referencePaths\<close> with the saved paths pushed when there are any.
\<close>

definition view_attempt ::
  "env \<Rightarrow> string \<Rightarrow> string \<Rightarrow> imageModel \<Rightarrow> view \<Rightarrow> string list \<Rightarrow> event list
    \<Rightarrow> (error + string list) \<times> event list" where
  "view_attempt e a_prompt outputBasePath m v referencePaths t =
     (case generateImage e (reference_request a_prompt outputBasePath m v) t of
        (Rejected msg, t1) \<Rightarrow> (Inl (Error msg), t1)
      | (Unparsable msg, t1) \<Rightarrow> (Inl (Error msg), t1)
      | (Parsed None, t1) \<Rightarrow> (Inr referencePaths, t1)
      | (Parsed (Some paths), t1) \<Rightarrow>
          (Inr (if length paths > 0 then referencePaths @ paths else referencePaths), t1))"

text \<open>The loop over the views; the \<^verbatim>\<open>catch\<close> warns and goes on.\<close>

fun reference_loop ::
  "env \<Rightarrow> string \<Rightarrow> string \<Rightarrow> imageModel \<Rightarrow> view list \<Rightarrow> string list \<Rightarrow> event list
    \<Rightarrow> string list \<times> event list" where
  "reference_loop e a_prompt outputBasePath m [] referencePaths t = (referencePaths, t)"
| "reference_loop e a_prompt outputBasePath m (v # views) referencePaths t =
     (case view_attempt e a_prompt outputBasePath m v referencePaths t of
        (Inl err, t1) \<Rightarrow>
          reference_loop e a_prompt outputBasePath m views referencePaths
            (t1 @ [Console_warn (''Failed to generate '' @ view_string v @ '' reference image:'')])
      | (Inr referencePaths', t1) \<Rightarrow>
          reference_loop e a_prompt outputBasePath m views referencePaths' t1)"

text \<open>
  \<^verbatim>\<open>generateReferenceImages(prompt, outputBasePath, views = ['front', 'back', 'top'],
  model = 'gemini')\<close>; an argument left out is \<open>None\<close>.
\<close>

definition generateReferenceImages ::
  "env \<Rightarrow> string \<Rightarrow> string \<Rightarrow> view list option \<Rightarrow> imageModel option \<Rightarrow> event list
    \<Rightarrow> (error + string list) \<times> event list" where
  "generateReferenceImages e a_prompt outputBasePath a_views a_model t =
     (let views = (case a_views of Some vs \<Rightarrow> vs | None \<Rightarrow> [FRONT, BACK, TOP]);
          m = (case a_model of Some x \<Rightarrow> x | None \<Rightarrow> GEMINI)
      in case reference_loop e a_prompt outputBasePath m views [] t of
           (referencePaths, t') \<Rightarrow> (Inr referencePaths, t'))"

subsection \<open>generate3DModel\<close>

text \<open>The \<^verbatim>\<open>switch (model)\<close> with the calls of the generation functions.\<close>

definition call_model ::
  "env \<Rightarrow> Model3DGenerationOptionsExtended \<Rightarrow> Model3DVariant \<Rightarrow> string \<Rightarrow> string list
    \<Rightarrow> event list \<Rightarrow> (error + Model3DGenerationResult) \<times> event list" where
  "call_model e options actualVariant first finalInputPaths t =
     (let fmt = Some (case format options of Some f \<Rightarrow> f | None \<Rightarrow> GLB) in
      case model options of
        TRELLIS \<Rightarrow>
          if actualVariant = SINGLE then
            trellisGenerate3DSingle e (prompt options) first (outputPath options) fmt None t
          else
            trellisGenerate3DMulti e (prompt options) finalInputPaths (outputPath options) fmt
              None None t
      | HUNYUAN3D \<Rightarrow>
          (case actualVariant of
             SINGLE \<Rightarrow>
               hunyuan3DGenerateSingle e (prompt options) first (outputPath options) fmt None t
           | MULTI \<Rightarrow>
               hunyuan3DGenerateMulti e (prompt options) finalInputPaths (outputPath options) fmt t
           | SINGLE_TURBO \<Rightarrow>
               hunyuan3DGenerateSingleTurbo e (prompt options) first (outputPath options) fmt t
           | MULTI_TURBO \<Rightarrow>
               hunyuan3DGenerateMultiTurbo e (prompt options) finalInputPaths
                 (outputPath options) fmt t)
      | HUNYUAN_WORLD \<Rightarrow>
          (Inl (Error (''Unsupported 3D model: '' @ model_string (model options))), t))"

text \<open>
  The \<^verbatim>\<open>try\<close> block from the check that there are input images to its \<^verbatim>\<open>return\<close>.
  The second component of the result is \<open>generatedReferences\<close>, which the \<^verbatim>\<open>finally\<close>
  block reads.
\<close>

definition dispatch ::
  "env \<Rightarrow> Model3DGenerationOptionsExtended \<Rightarrow> string list \<Rightarrow> string list \<Rightarrow> event list
    \<Rightarrow> ((error + Model3DGenerationResult) \<times> string list) \<times> event list" where
  "dispatch e options finalInputPaths generatedReferences t =
     (case finalInputPaths of
        [] \<Rightarrow>
          ((Inl (Error ''At least one input image is required for 3D model generation''),
            generatedReferences), t)
      | first # _ \<Rightarrow>
          (let actualVariant =
                 (case variant options of
                    Some v \<Rightarrow> v
                  | None \<Rightarrow>
                      selectModelVariant (model options) (int (length finalInputPaths)) False)
           in case call_model e options actualVariant first finalInputPaths t of
                (Inl err, t') \<Rightarrow> ((Inl err, generatedReferences), t')
              | (Inr result, t') \<Rightarrow>
                  ((Inr (if length generatedReferences > 0 then
                           result\<lparr>auto_generated_references := Some generatedReferences,
                                  reference_model_used :=
                                    Some (case referenceModel options of
                                            Some m \<Rightarrow> m | None \<Rightarrow> GEMINI),
                                  reference_views_generated :=
                                    Some (case referenceViews options of
                                            Some vs \<Rightarrow> vs | None \<Rightarrow> [FRONT, BACK, TOP])\<rparr>
                         else result),
                    generatedReferences), t')))"

text \<open>The views handed to \<^verbatim>\<open>generateReferenceImages\<close>.\<close>

definition synthesis_views :: "Model3DGenerationOptionsExtended \<Rightarrow> view list" where
  "synthesis_views options =
     (if (case variant options of None \<Rightarrow> False
          | Some v \<Rightarrow> str_includes (variant_string v) ''multi'')
      then (case referenceViews options of Some vs \<Rightarrow> vs | None \<Rightarrow> [FRONT, BACK, TOP])
      else [FRONT])"

definition generate3DModel_try ::
  "env \<Rightarrow> Model3DGenerationOptionsExtended \<Rightarrow> event list
    \<Rightarrow> ((error + Model3DGenerationResult) \<times> string list) \<times> event list" where
  "generate3DModel_try e options t =
     (let finalInputPaths = (case inputImagePaths options of Some ps \<Rightarrow> ps | None \<Rightarrow> []);
          autoGenerate = (case autoGenerateReferences options of Some b \<Rightarrow> b | None \<Rightarrow> True);
          referenceModel' = (case referenceModel options of Some m \<Rightarrow> m | None \<Rightarrow> GEMINI)
      in case prompt options of
           None \<Rightarrow> dispatch e options finalInputPaths [] t
         | Some a_prompt \<Rightarrow>
             if length finalInputPaths = 0 \<and> a_prompt \<noteq> [] \<and> autoGenerate then
               (case generateReferenceImages e a_prompt
                       (replace_extension (outputPath options) [])
                       (Some (synthesis_views options)) (Some referenceModel')
                       (t @ [Console_log
                               ''No input images provided, generating reference images automatically...''])
                of
                  (Inl err, t1) \<Rightarrow> ((Inl err, []), t1)
                | (Inr generatedReferences, t1) \<Rightarrow>
                    if length generatedReferences = 0 then
                      ((Inl (Error ''Failed to generate reference images automatically''),
                        generatedReferences), t1)
                    else dispatch e options generatedReferences generatedReferences t1)
             else dispatch e options finalInputPaths [] t)"

text \<open>The loop of the \<^verbatim>\<open>finally\<close> block: a failing \<^verbatim>\<open>unlinkSync\<close> is caught and warned.\<close>

fun cleanup_loop :: "env \<Rightarrow> string list \<Rightarrow> event list \<Rightarrow> event list" where
  "cleanup_loop e [] t = t"
| "cleanup_loop e (refPath # rest) t =
     (case ext_unlinkSync e t refPath of
        None \<Rightarrow> cleanup_loop e rest (t @ [Unlink refPath None])
      | Some msg \<Rightarrow>
          cleanup_loop e rest
            (t @ [Unlink refPath (Some msg),
                  Console_warn (''Failed to cleanup reference image '' @ refPath @ '':'')]))"

definition generate3DModel ::
  "env \<Rightarrow> Model3DGenerationOptionsExtended \<Rightarrow> event list
    \<Rightarrow> (error + Model3DGenerationResult) \<times> event list" where
  "generate3DModel e options t =
     (case generate3DModel_try e options t of
        ((outcome, generatedReferences), t1) \<Rightarrow>
          (outcome,
           if (case cleanupReferences options of Some b \<Rightarrow> b | None \<Rightarrow> True)
              \<and> length generatedReferences > 0
           then cleanup_loop e generatedReferences t1 else t1))"

subsection \<open>generate3DModelSmart\<close>

text \<open>
  \<^verbatim>\<open>generate3DModelSmart(prompt, outputPath, model = 'hunyuan3d', options = {})\<close>.
  \<open>smart_options\<close> is the object
  \<^verbatim>\<open>{ prompt, outputPath, model, variant: 'multi', ...options }\<close>.
\<close>

definition smart_options ::
  "string \<Rightarrow> string \<Rightarrow> string option \<Rightarrow> PartialOptions \<Rightarrow> PartialOptions" where
  "smart_options a_prompt a_outputPath a_model options =
     spread_options
       (no_options\<lparr>p_prompt := Present (Some a_prompt),
          p_outputPath := Present (Some a_outputPath),
          p_model := Present (Some (case a_model of Some m \<Rightarrow> m | None \<Rightarrow> ''hunyuan3d'')),
          p_variant := Present (Some ''multi'')\<rparr>)
       options"

definition generate3DModelSmart ::
  "env \<Rightarrow> string \<Rightarrow> string \<Rightarrow> string option \<Rightarrow> PartialOptions \<Rightarrow> event list
    \<Rightarrow> (error + Model3DGenerationResult) \<times> event list" where
  "generate3DModelSmart e a_prompt a_outputPath a_model options t =
     (case merge3DWithDefaults (smart_options a_prompt a_outputPath a_model options) of
        Inl err \<Rightarrow> (Inl err, t)
      | Inr fullOptions \<Rightarrow>
          (case validate3DModelOptions fullOptions of
             Inl err \<Rightarrow> (Inl err, t)
           | Inr _ \<Rightarrow> generate3DModel e (read_options fullOptions) t))"

section \<open>Reading the events\<close>

text \<open>
  What the properties say about a list of events: the calls of \<^verbatim>\<open>generateImage\<close> with
  their outcomes, the paths those calls saved, the paths handed to \<^verbatim>\<open>unlinkSync\<close>, the
  bodies sent with \<^verbatim>\<open>makeHTTPRequest\<close>, and the calls that reach the network.
\<close>

fun image_call :: "event \<Rightarrow> (imageRequest \<times> generated) list" where
  "image_call (GenerateImage request r) = [(request, r)]"
| "image_call _ = []"

definition image_calls :: "event list \<Rightarrow> (imageRequest \<times> generated) list" where
  "image_calls t = concat (map image_call t)"

fun saved_by :: "generated \<Rightarrow> string list" where
  "saved_by (Parsed (Some paths)) = paths"
| "saved_by _ = []"

fun failed :: "generated \<Rightarrow> bool" where
  "failed (Rejected msg) = True"
| "failed (Unparsable msg) = True"
| "failed (Parsed paths) = False"

definition synthesized :: "event list \<Rightarrow> string list" where
  "synthesized t = concat (map (\<lambda>c. saved_by (snd c)) (image_calls t))"

fun unlink_path :: "event \<Rightarrow> string list" where
  "unlink_path (Unlink path r) = [path]"
| "unlink_path _ = []"

definition unlinked :: "event list \<Rightarrow> string list" where
  "unlinked t = concat (map unlink_path t)"

fun http_body :: "event \<Rightarrow> body list" where
  "http_body (HTTPRequest url method headers b r) = [b]"
| "http_body _ = []"

definition http_bodies :: "event list \<Rightarrow> body list" where
  "http_bodies t = concat (map http_body t)"

fun network_call :: "event \<Rightarrow> bool" where
  "network_call (HTTPRequest url method headers b r) = True"
| "network_call (Download url path r) = True"
| "network_call _ = False"

fun warning :: "event \<Rightarrow> bool" where
  "warning (Console_warn msg) = True"
| "warning _ = False"

text \<open>Every failed \<^verbatim>\<open>unlinkSync\<close> is followed at once by the warning that names its path.\<close>

fun failures_warned :: "event list \<Rightarrow> bool" where
  "failures_warned [] = True"
| "failures_warned (Unlink path (Some msg) # Console_warn w # rest) =
     (w = ''Failed to cleanup reference image '' @ path @ '':'' \<and> failures_warned rest)"
| "failures_warned (Unlink path (Some msg) # rest) = False"
| "failures_warned (ev # rest) = failures_warned rest"

text \<open>The bytes of a file, empty when it cannot be read.\<close>

definition file_contents :: "env \<Rightarrow> event list \<Rightarrow> string \<Rightarrow> string" where
  "file_contents e t path = (case ext_readFileSync e t path of Inr c \<Rightarrow> c | Inl msg \<Rightarrow> [])"

definition readable :: "env \<Rightarrow> event list \<Rightarrow> string \<Rightarrow> bool" where
  "readable e t path = (case ext_readFileSync e t path of Inr c \<Rightarrow> True | Inl msg \<Rightarrow> False)"

subsection \<open>When references are synthesized\<close>

text \<open>
  The condition of \<^verbatim>\<open>generate3DModel\<close> for generating reference images: no input
  image, a prompt that is not empty, and automatic generation not switched off.
\<close>

definition synthesis_wanted :: "Model3DGenerationOptionsExtended \<Rightarrow> bool" where
  "synthesis_wanted options =
     ((inputImagePaths options = None \<or> inputImagePaths options = Some [])
      \<and> truthy (prompt options) \<and> autoGenerateReferences options \<noteq> Some False)"

text \<open>Options on which \<^verbatim>\<open>generate3DModel\<close> is evaluated.\<close>

definition sword_options :: Model3DGenerationOptionsExtended where
  "sword_options = \<lparr>prompt = Some ''fantasy sword'', inputImagePaths = None,
     outputPath = ''sword.glb'', model = TRELLIS, variant = Some MULTI, format = None,
     quality = None, textured_mesh = None, autoGenerateReferences = None,
     referenceModel = None, referenceViews = None, cleanupReferences = None\<rparr>"

subsection \<open>The shape of the two multi-view functions\<close>

text \<open>
  \<^verbatim>\<open>hunyuan3DGenerateMulti\<close> and \<^verbatim>\<open>hunyuan3DGenerateMultiTurbo\<close> are the same text up
  to the label of their messages, the variant name, the message for a missing URL and
  the endpoint; \<open>multi_view_call\<close> is that text with the four as parameters.
\<close>

definition multi_view_call ::
  "string \<Rightarrow> string \<Rightarrow> string \<Rightarrow> string \<Rightarrow> env \<Rightarrow> string option \<Rightarrow> string list \<Rightarrow> string
    \<Rightarrow> Model3DFormat option \<Rightarrow> event list \<Rightarrow> (error + Model3DGenerationResult) \<times> event list" where
  "multi_view_call label variant_name missing endpoint e a_prompt a_imagePaths a_outputPath
       a_format t =
     (case getFalAIKey e of
        Inl err \<Rightarrow> (Inl err, t)
      | Inr apiKey \<Rightarrow>
          if length a_imagePaths < 3 then
            (Inl (Error (label @ '' requires at least 3 images (front, back, left views). Only ''
                         @ show_nat (length a_imagePaths) @ '' images provided.'')), t)
          else
            (case imageUris e t a_imagePaths of
               Inl err \<Rightarrow> (Inl err, t)
             | Inr uris \<Rightarrow>
                 finish ''hunyuan3d-2.0'' variant_name a_prompt a_imagePaths
                   (multi_view_body uris a_format)
                   (request_model e label plain_url missing endpoint apiKey
                      (multi_view_body uris a_format) a_outputPath t)))"

subsection \<open>Environments on which the results are evaluated\<close>

text \<open>
  \<open>offline\<close> has no API key and no files, and every call fails. \<open>studio\<close> has a key;
  image generation saves one file at the requested path except for the back view of
  \<^verbatim>\<open>test_object.png\<close>; every file reads as \<^verbatim>\<open>PNG\<close>; the endpoint answers with a model
  URL; the file \<^verbatim>\<open>locked_ref_front.png\<close> cannot be deleted.
\<close>

definition offline :: env where
  "offline = \<lparr>FAL_AI_API_KEY = None,
     ext_generateImage = (\<lambda>h request. Rejected ''offline''),
     ext_makeHTTPRequest = (\<lambda>h url method headers b. Inl ''HTTP request failed: offline''),
     ext_readFileSync = (\<lambda>h path. Inl ''ENOENT: no such file or directory''),
     ext_base64 = (\<lambda>bytes. bytes),
     ext_download = (\<lambda>h url path. Some ''offline''),
     ext_statSync = (\<lambda>h path. Inl ''ENOENT: no such file or directory''),
     ext_format_tag = (\<lambda>path. ''GLB''),
     ext_unlinkSync = (\<lambda>h path. Some ''ENOENT: no such file or directory'')\<rparr>"

definition studio :: env where
  "studio = \<lparr>FAL_AI_API_KEY = Some ''secret'',
     ext_generateImage = (\<lambda>h request.
        if req_outputPath request = ''test_object_ref_back.png''
        then Rejected ''Generation failed''
        else Parsed (Some [req_outputPath request])),
     ext_makeHTTPRequest = (\<lambda>h url method headers b.
        Inr \<lparr>api_error = None, model_mesh_url = Some ''https://cdn/mesh.glb'',
             model_url = Some ''https://cdn/model.glb'', timings_inference = None\<rparr>),
     ext_readFileSync = (\<lambda>h path. Inr ''PNG''),
     ext_base64 = (\<lambda>bytes. bytes),
     ext_download = (\<lambda>h url path. None),
     ext_statSync = (\<lambda>h path. Inr 1024),
     ext_format_tag = (\<lambda>path. ''GLB''),
     ext_unlinkSync = (\<lambda>h path. if path = ''locked_ref_front.png'' then Some ''EPERM'' else None)\<rparr>"

section \<open>Facts about the enumerations\<close>

lemma single_image_simps:
  "single_image SINGLE" "\<not> single_image MULTI"
  "single_image SINGLE_TURBO" "\<not> single_image MULTI_TURBO"
  by (simp_all add: single_image_def)

lemma multi_image_simps:
  "\<not> multi_image SINGLE" "multi_image MULTI"
  "\<not> multi_image SINGLE_TURBO" "multi_image MULTI_TURBO"
  by (simp_all add: multi_image_def)

lemma turbo_simps:
  "\<not> turbo SINGLE" "\<not> turbo MULTI" "turbo SINGLE_TURBO" "turbo MULTI_TURBO"
  by (simp_all add: turbo_def)

section \<open>Variant selection\<close>

text \<open>
  Claim C2. For every model family and every input-image count \<open>n\<close>,
  \<open>selectModelVariant\<close> returns a single-image variant exactly when \<open>n \<le> 1\<close> and a
  multi-image variant exactly when \<open>1 < n\<close>. For hunyuan3d with \<open>preferTurbo\<close> set it
  returns the turbo variant of that arity, and without it the plain one. For trellis
  the result is never a turbo variant, whatever \<open>preferTurbo\<close> is, and it is one of
  the variants trellis defines, none of which is a turbo variant.
\<close>

theorem selectModelVariant_arity_turbo:
  "(single_image (selectModelVariant family n preferTurbo) \<longleftrightarrow> n \<le> 1) \<and>
   (multi_image (selectModelVariant family n preferTurbo) \<longleftrightarrow> 1 < n) \<and>
   selectModelVariant HUNYUAN3D n True = (if n \<le> 1 then SINGLE_TURBO else MULTI_TURBO) \<and>
   selectModelVariant HUNYUAN3D n False = (if n \<le> 1 then SINGLE else MULTI) \<and>
   selectModelVariant TRELLIS n preferTurbo = (if n \<le> 1 then SINGLE else MULTI) \<and>
   \<not> turbo (selectModelVariant TRELLIS n preferTurbo) \<and>
   selectModelVariant TRELLIS n preferTurbo \<in> set (AVAILABLE_VARIANTS TRELLIS) \<and>
   list_all (\<lambda>v. \<not> turbo v) (AVAILABLE_VARIANTS TRELLIS)"
  by (simp add: selectModelVariant_def single_image_simps multi_image_simps turbo_simps)

section \<open>The transparency converter\<close>

subsection \<open>The loop changes alpha bytes only\<close>

lemma data_at_update: "idx \<noteq> int m \<Longrightarrow> data_at (d[m := v]) idx = data_at d idx"
  by (auto simp: data_at_def)

lemma hit_update: "m \<noteq> i \<Longrightarrow> m \<noteq> i + 1 \<Longrightarrow> m \<noteq> i + 2 \<Longrightarrow> hit (d[m := v]) i t tol = hit d i t tol"
  by (simp add: hit_def data_at_update)

lemma convert_loop_length: "length (convert_loop i t tol d) = length d"
proof (induction i t tol d rule: convert_loop.induct)
  case (1 i t tol d)
  show ?case
    using "1.IH" by (subst convert_loop.simps) auto
qed

lemma convert_loop_nth:
  "i mod 4 = 0 \<Longrightarrow> j < length d \<Longrightarrow>
   convert_loop i t tol d ! j = (if i \<le> j \<and> j mod 4 = 3 \<and> hit d (j - 3) t tol then 0 else d ! j)"
proof (induction i t tol d rule: convert_loop.induct)
  case (1 i t tol d)
  let ?d' = "if hit d i t tol then d[i + 3 := 0] else d"
  show ?case
  proof (cases "i < length d")
    case False
    with "1.prems" show ?thesis by (subst convert_loop.simps) simp
  next
    case True
    have step: "convert_loop i t tol d = convert_loop (i + 4) t tol ?d'"
      using True by (subst convert_loop.simps) (simp add: hit_def)
    have len: "j < length ?d'" using "1.prems" by simp
    have i4: "(i + 4) mod 4 = 0" using "1.prems" by presburger
    have IH: "convert_loop (i + 4) t tol ?d' ! j =
        (if i + 4 \<le> j \<and> j mod 4 = 3 \<and> hit ?d' (j - 3) t tol then 0 else ?d' ! j)"
      using "1.IH" [OF True i4 len [unfolded hit_def]] unfolding hit_def .
    have same: "j mod 4 = 3 \<Longrightarrow> hit ?d' (j - 3) t tol = hit d (j - 3) t tol"
    proof -
      assume j3: "j mod 4 = 3"
      have "i + 3 \<noteq> j - 3" "i + 3 \<noteq> j - 3 + 1" "i + 3 \<noteq> j - 3 + 2"
        using j3 "1.prems"(1) by presburger+
      then show ?thesis by (simp add: hit_update)
    qed
    have jeq: "i \<le> j \<Longrightarrow> j mod 4 = 3 \<Longrightarrow> \<not> i + 4 \<le> j \<Longrightarrow> j = i + 3"
      using "1.prems"(1) by presburger
    have jm: "j = i + 3 \<Longrightarrow> j mod 4 = 3" using "1.prems"(1) by presburger
    have other: "j \<noteq> i + 3 \<Longrightarrow> ?d' ! j = d ! j"
      by simp
    have here: "j = i + 3 \<Longrightarrow> ?d' ! j = (if hit d i t tol then 0 else d ! j)"
      using "1.prems"(2) by simp
    show ?thesis
    proof (cases "j mod 4 = 3")
      case False
      then have "j \<noteq> i + 3" using jm by blast
      with False show ?thesis unfolding step IH by (simp only: other if_False simp_thms)
    next
      case j3: True
      note H = same [OF j3]
      consider (far) "i + 4 \<le> j" | (at) "j = i + 3" | (before) "j < i"
        using jeq [OF _ j3] by linarith
      then show ?thesis
      proof cases
        case far
        then have "j \<noteq> i + 3" "i \<le> j" by simp_all
        with far j3 show ?thesis unfolding step IH H by (simp only: other simp_thms)
      next
        case at
        then have "\<not> i + 4 \<le> j" "i \<le> j" "j - 3 = i" by simp_all
        with j3 show ?thesis unfolding step IH H by (simp only: here [OF at] simp_thms if_False if_True)
      next
        case before
        then have "j \<noteq> i + 3" "\<not> i \<le> j" "\<not> i + 4 \<le> j" by simp_all
        then show ?thesis unfolding step IH H by (simp only: other simp_thms if_False)
      qed
    qed
  qed
qed


subsection \<open>The target colour\<close>

lemma data_at_nat: "k < length d \<Longrightarrow> data_at d (int k) = Some (uint (d ! k))"
  by (simp add: data_at_def)

lemma Math_round_div4: "Math_round (real_of_int t / 4) = (t + 2) div 4"
proof -
  have "real_of_int t / 4 + 1 / 2 = real_of_int (t + 2) / real_of_int 4"
    by (simp add: field_simps)
  then show ?thesis
    unfolding Math_round_def by (simp only: floor_divide_of_int_eq)
qed

lemma rounded_average4: "rounded_average [a, b, c, d] = (a + b + c + d + 2) div 4"
proof -
  have "real_of_int (a + b + c + d) / 4 + 1 / 2 = real_of_int (a + b + c + d + 2) / real_of_int 4"
    by (simp add: field_simps)
  then have "\<lfloor>real_of_int (a + b + c + d) / 4 + 1 / 2\<rfloor> = (a + b + c + d + 2) div 4"
    by (simp only: floor_divide_of_int_eq)
  then show ?thesis
    by (simp add: rounded_average_def round_def add.assoc)
qed

lemma targetColor_Auto:
  assumes len: "length (data img) = 4 * (width img * height img)"
    and w: "0 < width img" and h: "0 < height img"
  shows "targetColor Auto img =
    (Some (rounded_average (map (red img) (corner_pixels img))),
     Some (rounded_average (map (green img) (corner_pixels img))),
     Some (rounded_average (map (blue img) (corner_pixels img))))"
proof -
  obtain w' h' where W: "width img = Suc w'" and H: "height img = Suc h'"
    using w h by (metis Suc_pred)
  let ?d = "data img"
  define tr where "tr = w'"
  define bl where "bl = h' * Suc w'"
  define br where "br = h' * Suc w' + w'"
  have L: "length ?d = 4 * br + 4" using len W H by (simp add: br_def)
  have i1: "(0 * int (Suc w') + 0) * 4 = int (4 * 0)" by simp
  have i2: "(0 * int (Suc w') + (int (Suc w') - 1)) * 4 = int (4 * tr)" by (simp add: tr_def)
  have i3: "((int (Suc h') - 1) * int (Suc w') + 0) * 4 = int (4 * bl)"
    by (simp add: bl_def algebra_simps)
  have i4: "((int (Suc h') - 1) * int (Suc w') + (int (Suc w') - 1)) * 4 = int (4 * br)"
    by (simp add: br_def algebra_simps)
  have b: "0 \<le> br" "tr \<le> br" "bl \<le> br" "br \<le> br" by (simp_all add: tr_def bl_def br_def)
  have rd: "data_at ?d (int (4 * p) + int k) = Some (uint (?d ! (4 * p + k)))"
    if "p \<le> br" "k < 4" for p k
  proof -
    have "4 * p + k < length ?d" using that L by linarith
    then show ?thesis using data_at_nat [of "4 * p + k" ?d] by simp
  qed
  have rd0: "data_at ?d (int (4 * p)) = Some (uint (?d ! (4 * p)))" if "p \<le> br" for p
    using rd [OF that, of 0] by simp
  have rd1: "data_at ?d (int (4 * p) + 1) = Some (uint (?d ! (4 * p + 1)))" if "p \<le> br" for p
    using rd [OF that, of 1] by simp
  have rd2: "data_at ?d (int (4 * p) + 2) = Some (uint (?d ! (4 * p + 2)))" if "p \<le> br" for p
    using rd [OF that, of 2] by simp
  have sum: "sum_corners ?d (Suc w') (corners (Suc w') (Suc h')) (Some 0, Some 0, Some 0) =
      (Some (red img 0 + red img tr + red img bl + red img br),
       Some (green img 0 + green img tr + green img bl + green img br),
       Some (blue img 0 + blue img tr + blue img bl + blue img br))"
    unfolding corners_def sum_corners.simps Let_def i1 i2 i3 i4
    by (simp only: rd0 rd1 rd2 b num_add_def option.case red_def green_def blue_def add_0)
  show ?thesis
    unfolding targetColor_def W H sum
    by (simp add: Math_round_div4 rounded_average4 corner_pixels_def W H tr_def bl_def br_def)
qed


lemma target_rgb_fixed:
  "target_rgb White img = Some (255, 255, 255)" "target_rgb Black img = Some (0, 0, 0)"
  by (simp_all add: target_rgb_def targetColor_def)

lemma target_rgb_defined:
  assumes "length (data img) = 4 * (width img * height img)" and "0 < width img * height img"
  shows "\<exists>t. target_rgb bg img = Some t"
proof (cases bg)
  case Auto
  have "0 < width img" "0 < height img" using assms(2) by simp_all
  from targetColor_Auto [OF assms(1) this] show ?thesis
    unfolding Auto by (simp add: target_rgb_def)
qed (simp_all add: target_rgb_fixed)

lemma target_rgb_Some:
  "target_rgb bg img = Some (tr, tg, tb) \<Longrightarrow> targetColor bg img = (Some tr, Some tg, Some tb)"
  by (auto simp: target_rgb_def split: prod.splits option.splits)

subsection \<open>The square root\<close>

text \<open>
  \<open>floor_sqrt\<close> and \<open>floor_log4\<close> are the integer parts they are named after;
  \<open>Math_sqrt s\<close> is a double with exponent \<open>e\<close> or \<open>e + 1\<close> at most half a unit in
  the last place from the square root (\<open>Math_sqrt_nearest\<close>); compared with an
  integer, it behaves as the square root does (\<open>Math_sqrt_le_int_iff\<close>), though it may
  lie below it (\<open>Math_sqrt_3_less\<close>).
\<close>

lemma floor_sqrt_bounds: "(floor_sqrt n)\<^sup>2 \<le> n \<and> n < (floor_sqrt n + 1)\<^sup>2"
proof (induction n rule: floor_sqrt.induct)
  case (1 n)
  show ?case
  proof (cases "n < 4")
    case True
    then have small: "floor_sqrt n = (if n = 0 then 0 else 1)"
      by (simp add: floor_sqrt.simps [of n])
    show ?thesis
      unfolding small using True by (cases "n = 0") (simp_all add: power2_eq_square)
  next
    case False
    define q where "q = floor_sqrt (n div 4)"
    from "1.IH" [OF False] have IH: "q\<^sup>2 \<le> n div 4" "n div 4 < (q + 1)\<^sup>2"
      by (simp_all add: q_def)
    have lo: "4 * q\<^sup>2 \<le> n" using IH(1) by linarith
    have "n div 4 + 1 \<le> (q + 1)\<^sup>2" using IH(2) by simp
    then have "4 * (n div 4) + 4 \<le> 4 * (q + 1)\<^sup>2" by simp
    then have hi: "n < 4 * (q + 1)\<^sup>2" by linarith
    have eq: "floor_sqrt n = (if (2 * q + 1) * (2 * q + 1) \<le> n then 2 * q + 1 else 2 * q)"
      using False by (simp add: floor_sqrt.simps [of n] q_def Let_def)
    show ?thesis
    proof (cases "(2 * q + 1) * (2 * q + 1) \<le> n")
      case True
      have "(2 * q + 1 + 1)\<^sup>2 = 4 * (q + 1)\<^sup>2" by (simp add: power2_eq_square algebra_simps)
      with True hi show ?thesis by (simp add: eq power2_eq_square)
    next
      case False
      have "(2 * q)\<^sup>2 = 4 * q\<^sup>2" by (simp add: power2_eq_square)
      with False lo show ?thesis by (simp add: eq power2_eq_square)
    qed
  qed
qed

lemma floor_sqrt_unique:
  assumes "y\<^sup>2 \<le> n" "n < (y + 1)\<^sup>2"
  shows "floor_sqrt n = y"
proof -
  let ?z = "floor_sqrt n"
  have z: "?z\<^sup>2 \<le> n" "n < (?z + 1)\<^sup>2" using floor_sqrt_bounds [of n] by simp_all
  have "y\<^sup>2 < (?z + 1)\<^sup>2" using assms(1) z(2) by linarith
  then have "y < ?z + 1" by (rule power2_less_imp_less) simp
  moreover have "?z\<^sup>2 < (y + 1)\<^sup>2" using assms(2) z(1) by linarith
  then have "?z < y + 1" by (rule power2_less_imp_less) simp
  ultimately show ?thesis by linarith
qed

lemma floor_sqrt_less_iff: "floor_sqrt n < a \<longleftrightarrow> n < a\<^sup>2"
proof
  assume "floor_sqrt n < a"
  then have "floor_sqrt n + 1 \<le> a" by simp
  then have "(floor_sqrt n + 1)\<^sup>2 \<le> a\<^sup>2" by (rule power_mono) simp
  with floor_sqrt_bounds [of n] show "n < a\<^sup>2" by linarith
next
  assume "n < a\<^sup>2"
  with floor_sqrt_bounds [of n] have "(floor_sqrt n)\<^sup>2 < a\<^sup>2" by linarith
  then show "floor_sqrt n < a" by (rule power2_less_imp_less) simp
qed

lemma floor_log4_bounds: "0 < n \<Longrightarrow> 4 ^ floor_log4 n \<le> n \<and> n < 4 ^ (floor_log4 n + 1)"
proof (induction n rule: floor_log4.induct)
  case (1 n)
  show ?case
  proof (cases "n < 4")
    case True
    with "1.prems" show ?thesis by (simp add: floor_log4.simps [of n])
  next
    case False
    then have "0 < n div 4" by simp
    from "1.IH" [OF False this] have IH: "4 ^ floor_log4 (n div 4) \<le> n div 4"
      "n div 4 < 4 ^ (floor_log4 (n div 4) + 1)" by simp_all
    have eq: "floor_log4 n = Suc (floor_log4 (n div 4))"
      using False by (simp add: floor_log4.simps [of n])
    have "4 * 4 ^ floor_log4 (n div 4) \<le> n" using IH(1) by linarith
    moreover have "n div 4 + 1 \<le> 4 ^ (floor_log4 (n div 4) + 1)" using IH(2) by simp
    then have "n < 4 * 4 ^ (floor_log4 (n div 4) + 1)" by linarith
    ultimately show ?thesis by (simp add: eq)
  qed
qed

lemma four_power: "(4::nat) ^ n = (2 ^ n)\<^sup>2"
  by (metis num_double numeral_times_numeral power2_eq_square power_mult_distrib)

lemma floor_log4_less:
  assumes "0 < s" "s < 4 ^ b"
  shows "floor_log4 s < b"
proof -
  have "(4::nat) ^ floor_log4 s < 4 ^ b"
    using floor_log4_bounds [OF assms(1)] assms(2) by linarith
  then show ?thesis by (rule power_less_imp_less_exp [rotated]) simp
qed

lemma Math_sqrt_unfold:
  assumes "0 < s" "s < 4 ^ 53"
  defines "K \<equiv> (2::nat) ^ (52 - floor_log4 s)"
  shows "Math_sqrt s = real ((floor_sqrt (4 * s * K\<^sup>2) + 1) div 2) / real K"
proof -
  have e: "floor_log4 s < 53" using floor_log4_less [OF assms(1,2)] .
  then have "53 - floor_log4 s = Suc (52 - floor_log4 s)" by simp
  then have "(4::nat) ^ (53 - floor_log4 s) = 4 * K\<^sup>2"
    by (simp add: K_def four_power)
  then have eq: "s * 4 ^ (53 - floor_log4 s) = 4 * s * K\<^sup>2" by simp
  show ?thesis
    unfolding Math_sqrt_def Let_def eq using assms(1) by (simp add: K_def)
qed

lemma quarter_le_iff: "4 * a < 4 * b + 1 \<longleftrightarrow> a \<le> b" for a b :: nat
  by presburger

lemma half_le_iff: "(y + 1) div 2 \<le> a \<longleftrightarrow> y < 2 * a + 1" for y a :: nat
  by presburger

lemma Math_sqrt_le_iff:
  assumes "s < 2 ^ 52"
  shows "Math_sqrt s \<le> real T \<longleftrightarrow> s \<le> T\<^sup>2"
proof (cases "s = 0")
  case True
  then show ?thesis by (simp add: Math_sqrt_def)
next
  case False
  then have pos: "0 < s" by simp
  define e where "e = floor_log4 s"
  define K where "K = (2::nat) ^ (52 - e)"
  have s26: "s < 4 ^ 26" using assms by simp
  have e: "e < 26" unfolding e_def by (rule floor_log4_less [OF pos s26])
  have s53: "s < 4 ^ 53"
  proof -
    have "(4::nat) ^ 26 \<le> 4 ^ 53" by (rule power_increasing) simp_all
    with s26 show ?thesis by linarith
  qed
  have K: "0 < K" by (simp add: K_def)
  have val: "Math_sqrt s = real ((floor_sqrt (4 * s * K\<^sup>2) + 1) div 2) / real K"
    using Math_sqrt_unfold [OF pos s53] by (simp add: K_def e_def)
  have "Math_sqrt s \<le> real T \<longleftrightarrow> real ((floor_sqrt (4 * s * K\<^sup>2) + 1) div 2) \<le> real T * real K"
    unfolding val using K by (simp add: divide_le_eq)
  also have "\<dots> \<longleftrightarrow> (floor_sqrt (4 * s * K\<^sup>2) + 1) div 2 \<le> T * K"
    by (metis of_nat_le_iff of_nat_mult)
  also have "\<dots> \<longleftrightarrow> floor_sqrt (4 * s * K\<^sup>2) < 2 * (T * K) + 1"
    by (rule half_le_iff)
  also have "\<dots> \<longleftrightarrow> 4 * s * K\<^sup>2 < (2 * (T * K) + 1)\<^sup>2"
    by (rule floor_sqrt_less_iff)
  also have "\<dots> \<longleftrightarrow> 4 * (s * K * K) < 4 * (T\<^sup>2 * K * K + T * K) + 1"
    by (simp add: power2_eq_square algebra_simps)
  also have "\<dots> \<longleftrightarrow> s * K * K \<le> T\<^sup>2 * K * K + T * K"
    by (rule quarter_le_iff)
  also have "\<dots> \<longleftrightarrow> (s * K) * K \<le> (T\<^sup>2 * K + T) * K"
    by (simp add: algebra_simps)
  also have "\<dots> \<longleftrightarrow> s * K \<le> T\<^sup>2 * K + T"
    using K by simp
  also have "\<dots> \<longleftrightarrow> s \<le> T\<^sup>2"
  proof
    assume "s \<le> T\<^sup>2"
    then have "s * K \<le> T\<^sup>2 * K" by (rule mult_le_mono1)
    then show "s * K \<le> T\<^sup>2 * K + T" by (rule trans_le_add1)
  next
    assume le: "s * K \<le> T\<^sup>2 * K + T"
    show "s \<le> T\<^sup>2"
    proof (rule ccontr)
      assume "\<not> s \<le> T\<^sup>2"
      then have gt: "T\<^sup>2 + 1 \<le> s" by simp
      have "s < 4 ^ (e + 1)" using floor_log4_bounds [OF pos] by (simp add: e_def)
      with gt have "T\<^sup>2 < (2 ^ (e + 1))\<^sup>2" by (simp only: four_power)
      then have "T < 2 ^ (e + 1)" by (rule power2_less_imp_less) simp
      moreover have "(2::nat) ^ (e + 1) \<le> 2 ^ (52 - e)"
        by (rule power_increasing) (use e in simp_all)
      ultimately have TK: "T < K" by (simp add: K_def)
      have "(T\<^sup>2 + 1) * K \<le> s * K" using gt by (rule mult_le_mono1)
      then have "T\<^sup>2 * K + K \<le> s * K" by (simp add: algebra_simps)
      with le TK show False by linarith
    qed
  qed
  finally show ?thesis .
qed

lemma Math_sqrt_nonneg: "0 \<le> Math_sqrt s"
  by (simp add: Math_sqrt_def Let_def)

lemma Math_sqrt_nearest:
  assumes "0 < s" "s < 2 ^ 53"
  defines "e \<equiv> floor_log4 s"
  shows "\<exists>m. 2 ^ 52 \<le> m \<and> m \<le> 2 ^ 53 \<and> Math_sqrt s = real m / 2 ^ (52 - e) \<and>
     \<bar>sqrt (real s) * 2 ^ (52 - e) - real m\<bar> \<le> 1 / 2"
proof -
  define K where "K = (2::nat) ^ (52 - e)"
  define N where "N = 4 * s * K\<^sup>2"
  define y where "y = floor_sqrt N"
  define m where "m = (y + 1) div 2"
  have s53: "s < 4 ^ 53"
  proof -
    have "(2::nat) ^ 53 \<le> 4 ^ 53" by (rule power_mono) simp_all
    with assms(2) show ?thesis by linarith
  qed
  have s27: "s < 4 ^ 27"
  proof -
    have "(2::nat) ^ 53 \<le> 4 ^ 27" by simp
    with assms(2) show ?thesis by linarith
  qed
  have e: "e < 27" unfolding e_def by (rule floor_log4_less [OF assms(1) s27])
  have K: "0 < K" by (simp add: K_def)
  have val: "Math_sqrt s = real m / real K"
    using Math_sqrt_unfold [OF assms(1) s53] by (simp add: K_def e_def m_def y_def N_def)
  have y: "y\<^sup>2 \<le> N" "N < (y + 1)\<^sup>2"
    using floor_sqrt_bounds [of N] by (simp_all add: y_def)
  have b: "4 ^ e \<le> s" "s < 4 ^ (e + 1)"
    using floor_log4_bounds [OF assms(1)] by (simp_all add: e_def)
  have KK: "2 ^ e * K = (2::nat) ^ 52"
    unfolding K_def using e by (simp add: power_add [symmetric])
  have lo: "(2 ^ 53)\<^sup>2 \<le> N"
  proof -
    have "(2 ^ 53)\<^sup>2 = 4 * ((2::nat) ^ e)\<^sup>2 * K\<^sup>2"
      using KK by (metis (no_types) mult.assoc power_Suc power_mult_distrib numeral_Bit0 power2_eq_square mult_2 semiring_norm(2) numeral_plus_numeral eval_nat_numeral(3))
    also have "\<dots> \<le> 4 * s * K\<^sup>2" using b(1) by (simp add: four_power)
    finally show ?thesis by (simp add: N_def)
  qed
  have hi: "N < (2 ^ 54)\<^sup>2"
  proof -
    have "s + 1 \<le> 4 ^ (e + 1)" using b(2) by simp
    then have "(s + 1) * (4 * K\<^sup>2) \<le> 4 ^ (e + 1) * (4 * K\<^sup>2)" by (rule mult_le_mono1)
    moreover have "4 ^ (e + 1) * (4 * K\<^sup>2) = (2 ^ 54)\<^sup>2"
    proof -
      have "4 ^ (e + 1) * (4 * K\<^sup>2) = 16 * (2 ^ e * K)\<^sup>2"
        by (simp add: four_power power_mult_distrib)
      also have "\<dots> = (2 ^ 54)\<^sup>2" unfolding KK by simp
      finally show ?thesis .
    qed
    moreover have "N < (s + 1) * (4 * K\<^sup>2)" using K by (simp add: N_def)
    ultimately show ?thesis by linarith
  qed
  have "(2 ^ 53)\<^sup>2 < (y + 1)\<^sup>2" using lo y(2) by linarith
  then have y_lo: "2 ^ 53 < y + 1" by (rule power2_less_imp_less) simp
  have "y\<^sup>2 < (2 ^ 54)\<^sup>2" using hi y(1) by linarith
  then have y_hi: "y < 2 ^ 54" by (rule power2_less_imp_less) simp
  have m_bounds: "2 ^ 52 \<le> m" "m \<le> 2 ^ 53"
    using y_lo y_hi unfolding m_def by simp_all
  have my: "2 * m \<le> y + 1" "y \<le> 2 * m" unfolding m_def by presburger+
  have root: "sqrt (real N) = 2 * (sqrt (real s) * real K)"
    by (simp add: N_def real_sqrt_mult)
  have "real y \<le> sqrt (real N)"
    by (rule real_le_rsqrt) (metis y(1) of_nat_le_iff of_nat_power)
  moreover have "sqrt (real N) < real (y + 1)"
  proof (rule real_less_lsqrt)
    show "0 \<le> real (y + 1)" by simp
    show "real N < (real (y + 1))\<^sup>2" by (metis y(2) of_nat_less_iff of_nat_power)
  qed
  ultimately have "2 * real m - 1 \<le> 2 * (sqrt (real s) * real K)"
    "2 * (sqrt (real s) * real K) \<le> 2 * real m + 1"
    using my unfolding root by linarith+
  then have "\<bar>sqrt (real s) * real K - real m\<bar> \<le> 1 / 2" by linarith
  with m_bounds val show ?thesis
    by (intro exI [of _ m]) (simp add: K_def)
qed

lemma Math_sqrt_le_int_iff:
  assumes "s < 2 ^ 52"
  shows "Math_sqrt s \<le> real_of_int T \<longleftrightarrow> 0 \<le> T \<and> int s \<le> T\<^sup>2"
proof (cases "0 \<le> T")
  case True
  then obtain n where T: "T = int n" by (metis nonneg_int_cases)
  have "int s \<le> (int n)\<^sup>2 \<longleftrightarrow> s \<le> n\<^sup>2"
    by (metis of_nat_le_iff of_nat_power)
  then show ?thesis
    using Math_sqrt_le_iff [OF assms, of n] by (simp add: T)
next
  case False
  then have "real_of_int T < 0" by simp
  with Math_sqrt_nonneg [of s] False show ?thesis by linarith
qed

lemma Math_sqrt_3: "Math_sqrt 3 = 3900231685776981 / 2251799813685248"
proof -
  have e: "floor_log4 3 = 0" by (simp add: floor_log4.simps [of 3])
  have "floor_sqrt (3 * 4 ^ 53) = 15600926743107924"
    by (rule floor_sqrt_unique) simp_all
  then show ?thesis by (simp add: Math_sqrt_def e)
qed

lemma Math_sqrt_3_less: "Math_sqrt 3 < sqrt 3"
  unfolding Math_sqrt_3 by (rule real_less_rsqrt) (simp add: power2_eq_square)

subsection \<open>Pixels of the result\<close>

lemma hit_pixel:
  assumes "4 * p + 3 < length (data img)"
  shows "hit (data img) (4 * p) (Some tr, Some tg, Some tb) tol
         = within_tolerance (Some (computed_distance (rgb img p) (tr, tg, tb))) tol"
proof -
  have i: "int (4 * p) + 1 = int (4 * p + 1)" "int (4 * p) + 2 = int (4 * p + 2)"
    by simp_all
  have lt: "4 * p < length (data img)" "4 * p + 1 < length (data img)"
    "4 * p + 2 < length (data img)"
    using assms by simp_all
  have "data_at (data img) (int (4 * p)) = Some (red img p)"
    "data_at (data img) (int (4 * p) + 1) = Some (green img p)"
    "data_at (data img) (int (4 * p) + 2) = Some (blue img p)"
    unfolding i red_def green_def blue_def by (rule data_at_nat, rule lt)+
  then show ?thesis
    by (simp add: hit_def distance_def pow2_diff_def num_add_def
        computed_distance_def squared_distance_def rgb_def)
qed

lemma converted_pixel:
  assumes len: "4 * p + 3 < length (data img)"
    and tgt: "target_rgb bg img = Some t"
  shows "rgb (convertImagePixelsToTransparent img bg tol) p = rgb img p"
    and "alpha (convertImagePixelsToTransparent img bg tol) p
         = (if within_tolerance (Some (computed_distance (rgb img p) t)) tol then 0
            else alpha img p)"
proof -
  obtain tr tg tb where t: "t = (tr, tg, tb)" by (cases t) auto
  let ?T = "targetColor bg img"
  have T: "?T = (Some tr, Some tg, Some tb)" using tgt t target_rgb_Some by simp
  let ?out = "convert_loop 0 ?T tol (data img)"
  have m: "(4 * p) mod 4 \<noteq> 3" "(4 * p + 1) mod 4 \<noteq> 3" "(4 * p + 2) mod 4 \<noteq> 3"
    "(4 * p + 3) mod 4 = 3"
    by presburger+
  have n0: "?out ! (4 * p) = data img ! (4 * p)"
    using convert_loop_nth [of 0 "4 * p" "data img" ?T tol] len m(1) by simp
  have n1: "?out ! (4 * p + 1) = data img ! (4 * p + 1)"
    using convert_loop_nth [of 0 "4 * p + 1" "data img" ?T tol] len m(2) by simp
  have n2: "?out ! (4 * p + 2) = data img ! (4 * p + 2)"
    using convert_loop_nth [of 0 "4 * p + 2" "data img" ?T tol] len m(3) by simp
  have n3: "?out ! (4 * p + 3) =
      (if hit (data img) (4 * p) ?T tol then 0 else data img ! (4 * p + 3))"
    using convert_loop_nth [of 0 "4 * p + 3" "data img" ?T tol] len m(4) by simp
  have D: "data (convertImagePixelsToTransparent img bg tol) = ?out"
    by (simp add: convertImagePixelsToTransparent_def)
  show "rgb (convertImagePixelsToTransparent img bg tol) p = rgb img p"
    unfolding rgb_def red_def green_def blue_def D n0 n1 n2 ..
  show "alpha (convertImagePixelsToTransparent img bg tol) p
         = (if within_tolerance (Some (computed_distance (rgb img p) t)) tol then 0
            else alpha img p)"
    unfolding alpha_def D n3 unfolding T t hit_pixel [OF len] ..
qed

subsection \<open>Integral tolerances\<close>

lemma channel_range:
  "0 \<le> red img p \<and> red img p \<le> 255" "0 \<le> green img p \<and> green img p \<le> 255"
  "0 \<le> blue img p \<and> blue img p \<le> 255"
proof -
  have "0 \<le> uint w \<and> uint w \<le> 255" for w :: u8
    using uint_lt2p [of w] by simp
  then show "0 \<le> red img p \<and> red img p \<le> 255" "0 \<le> green img p \<and> green img p \<le> 255"
    "0 \<le> blue img p \<and> blue img p \<le> 255"
    by (simp_all add: red_def green_def blue_def)
qed

lemma rounded_average_range:
  assumes "0 \<le> a \<and> a \<le> 255" "0 \<le> b \<and> b \<le> 255" "0 \<le> c \<and> c \<le> 255" "0 \<le> d \<and> d \<le> 255"
  shows "0 \<le> rounded_average [a, b, c, d] \<and> rounded_average [a, b, c, d] \<le> 255"
  unfolding rounded_average4 using assms by linarith

lemma target_rgb_range:
  assumes wf: "length (data img) = 4 * (width img * height img)"
    and pos: "0 < width img * height img"
    and t: "target_rgb bg img = Some (tr, tg, tb)"
  shows "0 \<le> tr \<and> tr \<le> 255" "0 \<le> tg \<and> tg \<le> 255" "0 \<le> tb \<and> tb \<le> 255"
proof -
  have all: "(0 \<le> tr \<and> tr \<le> 255) \<and> (0 \<le> tg \<and> tg \<le> 255) \<and> (0 \<le> tb \<and> tb \<le> 255)"
  proof (cases bg)
    case White
    with t show ?thesis by (simp add: target_rgb_fixed)
  next
    case Black
    with t show ?thesis by (simp add: target_rgb_fixed)
  next
    case Auto
    have "0 < width img" "0 < height img" using pos by simp_all
    from targetColor_Auto [OF wf this] t have
      "tr = rounded_average (map (red img) (corner_pixels img))"
      "tg = rounded_average (map (green img) (corner_pixels img))"
      "tb = rounded_average (map (blue img) (corner_pixels img))"
      unfolding Auto by (simp_all add: target_rgb_def)
    then show ?thesis
      unfolding corner_pixels_def list.map
      using rounded_average_range channel_range by presburger
  qed
  then show "0 \<le> tr \<and> tr \<le> 255" "0 \<le> tg \<and> tg \<le> 255" "0 \<le> tb \<and> tb \<le> 255"
    by simp_all
qed

lemma square_range: "- 255 \<le> x \<Longrightarrow> x \<le> 255 \<Longrightarrow> 0 \<le> x\<^sup>2 \<and> x\<^sup>2 \<le> 65025" for x :: int
proof -
  assume "- 255 \<le> x" "x \<le> 255"
  then have "\<bar>x\<bar> \<le> \<bar>255\<bar>" by simp
  then have "x\<^sup>2 \<le> 255\<^sup>2" by (simp only: abs_le_square_iff)
  then show ?thesis by simp
qed

lemma squared_distance_range:
  assumes wf: "length (data img) = 4 * (width img * height img)"
    and pos: "0 < width img * height img"
    and t: "target_rgb bg img = Some t"
  shows "0 \<le> squared_distance (rgb img p) t \<and> squared_distance (rgb img p) t \<le> 195075"
proof -
  obtain tr tg tb where t': "t = (tr, tg, tb)" by (cases t) auto
  note T = target_rgb_range [OF wf pos t [unfolded t']]
  note C = channel_range [of img p]
  have "0 \<le> (red img p - tr)\<^sup>2 \<and> (red img p - tr)\<^sup>2 \<le> 65025"
    "0 \<le> (green img p - tg)\<^sup>2 \<and> (green img p - tg)\<^sup>2 \<le> 65025"
    "0 \<le> (blue img p - tb)\<^sup>2 \<and> (blue img p - tb)\<^sup>2 \<le> 65025"
    using T C by (intro square_range; linarith)+
  then show ?thesis
    unfolding t' squared_distance_def rgb_def prod.case by linarith
qed

lemma rgb_distance_le_int_iff:
  assumes "0 \<le> squared_distance c t"
  shows "rgb_distance c t \<le> real_of_int T \<longleftrightarrow> 0 \<le> T \<and> squared_distance c t \<le> T\<^sup>2"
proof (cases "0 \<le> T")
  case True
  have "sqrt (real_of_int (squared_distance c t)) \<le> real_of_int T
      \<longleftrightarrow> real_of_int (squared_distance c t) \<le> (real_of_int T)\<^sup>2"
    using True by (metis real_sqrt_le_iff real_sqrt_abs abs_of_nonneg of_int_0_le_iff)
  also have "\<dots> \<longleftrightarrow> squared_distance c t \<le> T\<^sup>2"
    by (metis of_int_le_iff of_int_power)
  finally show ?thesis using True by (simp add: rgb_distance_def)
next
  case False
  then have "real_of_int T < 0" by simp
  moreover have "0 \<le> rgb_distance c t" by (simp add: rgb_distance_def assms)
  ultimately show ?thesis using False by linarith
qed

lemma computed_distance_le_int_iff:
  assumes "0 \<le> squared_distance c t" "squared_distance c t \<le> 195075"
  shows "computed_distance c t \<le> real_of_int T \<longleftrightarrow> rgb_distance c t \<le> real_of_int T"
proof -
  have "nat (squared_distance c t) < 2 ^ 52" using assms by simp
  from Math_sqrt_le_int_iff [OF this, of T] show ?thesis
    unfolding rgb_distance_le_int_iff [OF assms(1)] computed_distance_def
    using assms(1) by simp
qed

lemma squared_distance_eq_0_iff: "squared_distance c t = 0 \<longleftrightarrow> c = t"
proof -
  obtain r g b tr tg tb where c: "c = (r, g, b)" and t: "t = (tr, tg, tb)"
    by (cases c, cases t) auto
  have "(r - tr)\<^sup>2 + (g - tg)\<^sup>2 + (b - tb)\<^sup>2 = 0 \<longleftrightarrow> r = tr \<and> g = tg \<and> b = tb"
    by (simp add: add_nonneg_eq_0_iff)
  then show ?thesis unfolding c t squared_distance_def prod.case by simp
qed

text \<open>
  Claim C1, as amended. For an image whose array holds four bytes for each of its
  \<open>width * height\<close> pixels, every background mode and every tolerance, the converter
  keeps the width, the height and the length of the array; for every pixel the
  target colour is defined, the red, green and blue channels are unchanged, and the
  alpha of the result is 0 when the distance the loop computes, which is the double
  nearest to the Euclidean distance in RGB space from the pixel to the target colour,
  is at most the tolerance, and the input alpha otherwise. When the tolerance is an
  integer this is the test on the Euclidean distance itself; then, when every pixel
  is within the tolerance the result has alpha 0 everywhere, and with tolerance 0 and
  no pixel equal to the target colour every alpha is the input alpha.
\<close>

theorem convertImagePixelsToTransparent_alpha:
  assumes wf: "length (data img) = 4 * (width img * height img)"
    and out: "out = convertImagePixelsToTransparent img bg tol"
    and n: "n = width img * height img"
  shows "width out = width img \<and> height out = height img \<and>
     length (data out) = length (data img) \<and>
     (\<forall>p<n. \<exists>t. target_rgb bg img = Some t \<and> rgb out p = rgb img p \<and>
        alpha out p = (if within_tolerance (Some (computed_distance (rgb img p) t)) tol
                       then 0 else alpha img p)) \<and>
     (\<forall>T. tol = Finite (real_of_int T) \<longrightarrow>
        (\<forall>p<n. \<exists>t. target_rgb bg img = Some t \<and>
           alpha out p = (if rgb_distance (rgb img p) t \<le> real_of_int T then 0
                          else alpha img p)) \<and>
        (\<forall>t. target_rgb bg img = Some t \<and> (\<forall>p<n. rgb_distance (rgb img p) t \<le> real_of_int T)
           \<longrightarrow> (\<forall>p<n. alpha out p = 0)) \<and>
        (\<forall>t. target_rgb bg img = Some t \<and> T = 0 \<and> (\<forall>p<n. rgb img p \<noteq> t)
           \<longrightarrow> (\<forall>p<n. alpha out p = alpha img p)))"
proof -
  have dims: "width out = width img" "height out = height img"
    "length (data out) = length (data img)"
    by (simp_all add: out convertImagePixelsToTransparent_def convert_loop_length)
  have inb: "4 * p + 3 < length (data img)" if "p < n" for p
    using that wf n by simp
  have px: "rgb out p = rgb img p \<and>
      alpha out p = (if within_tolerance (Some (computed_distance (rgb img p) t)) tol
                     then 0 else alpha img p)"
    if "p < n" "target_rgb bg img = Some t" for p t
    using converted_pixel [OF inb [OF that(1)] that(2), of tol] by (simp add: out)
  have pos: "0 < width img * height img" if "p < n" for p
  proof -
    from that have "0 < n" by simp
    then show ?thesis unfolding n .
  qed
  have tgt: "\<exists>t. target_rgb bg img = Some t" if "p < n" for p
    using target_rgb_defined [OF wf pos [OF that]] .
  have main: "\<forall>p<n. \<exists>t. target_rgb bg img = Some t \<and> rgb out p = rgb img p \<and>
        alpha out p = (if within_tolerance (Some (computed_distance (rgb img p) t)) tol
                       then 0 else alpha img p)"
  proof (intro allI impI)
    fix p assume p: "p < n"
    from tgt [OF p] obtain t where t: "target_rgb bg img = Some t" ..
    with px [OF p t] show "\<exists>t. target_rgb bg img = Some t \<and> rgb out p = rgb img p \<and>
        alpha out p = (if within_tolerance (Some (computed_distance (rgb img p) t)) tol
                       then 0 else alpha img p)"
      by blast
  qed
  have euclid: "alpha out p = (if rgb_distance (rgb img p) t \<le> real_of_int T then 0
                               else alpha img p)"
    if "tol = Finite (real_of_int T)" "p < n" "target_rgb bg img = Some t" for T p t
  proof -
    note r = squared_distance_range [OF wf pos [OF that(2)] that(3), of p]
    from r have "computed_distance (rgb img p) t \<le> real_of_int T
        \<longleftrightarrow> rgb_distance (rgb img p) t \<le> real_of_int T"
      by (intro computed_distance_le_int_iff) simp_all
    with px [OF that(2,3)] show ?thesis
      by (simp add: that(1) within_tolerance_def)
  qed
  have integral: "(\<forall>p<n. \<exists>t. target_rgb bg img = Some t \<and>
           alpha out p = (if rgb_distance (rgb img p) t \<le> real_of_int T then 0
                          else alpha img p)) \<and>
        (\<forall>t. target_rgb bg img = Some t \<and> (\<forall>p<n. rgb_distance (rgb img p) t \<le> real_of_int T)
           \<longrightarrow> (\<forall>p<n. alpha out p = 0)) \<and>
        (\<forall>t. target_rgb bg img = Some t \<and> T = 0 \<and> (\<forall>p<n. rgb img p \<noteq> t)
           \<longrightarrow> (\<forall>p<n. alpha out p = alpha img p))"
    if T: "tol = Finite (real_of_int T)" for T
  proof (intro conjI allI impI)
    fix p assume p: "p < n"
    from tgt [OF p] obtain t where t: "target_rgb bg img = Some t" ..
    with euclid [OF T p t] show "\<exists>t. target_rgb bg img = Some t \<and>
           alpha out p = (if rgb_distance (rgb img p) t \<le> real_of_int T then 0
                          else alpha img p)"
      by blast
  next
    fix t p
    assume "target_rgb bg img = Some t \<and> (\<forall>p<n. rgb_distance (rgb img p) t \<le> real_of_int T)"
      and "p < n"
    with euclid [OF T] show "alpha out p = 0" by simp
  next
    fix t p
    assume a: "target_rgb bg img = Some t \<and> T = 0 \<and> (\<forall>p<n. rgb img p \<noteq> t)" and p: "p < n"
    from a have t: "target_rgb bg img = Some t" by simp
    note r = squared_distance_range [OF wf pos [OF p] t, of p]
    from a p have "squared_distance (rgb img p) t \<noteq> 0"
      by (simp add: squared_distance_eq_0_iff)
    with r have "\<not> rgb_distance (rgb img p) t \<le> real_of_int 0"
      unfolding rgb_distance_le_int_iff [of "rgb img p" t 0, OF conjunct1 [OF r]] by simp
    with euclid [OF T p t] a show "alpha out p = alpha img p" by simp
  qed
  from dims main integral show ?thesis by blast
qed

theorem convertImagePixelsToTransparent_alpha_witness:
  "alpha (convertImagePixelsToTransparent example_row White (Finite 30)) 0 = 0 \<and>
   alpha (convertImagePixelsToTransparent example_row White (Finite 30)) 2 = 200 \<and>
   rgb (convertImagePixelsToTransparent example_row White (Finite 30)) 2 = (10, 20, 30) \<and>
   alpha (convertImagePixelsToTransparent example_dark Black (Finite 5)) 0 = 0 \<and>
   alpha (convertImagePixelsToTransparent example_dark Black (Finite 5)) 2 = 0 \<and>
   alpha (convertImagePixelsToTransparent example_row Black (Finite 0)) 0 = 255 \<and>
   alpha (convertImagePixelsToTransparent example_row Black (Finite 0)) 2 = 200"
proof -
  let ?a = example_row and ?b = example_dark
  have wa: "length (data ?a) = 4 * (width ?a * height ?a)" by (simp add: example_row_def)
  have wb: "length (data ?b) = 4 * (width ?b * height ?b)" by (simp add: example_dark_def)
  have na: "width ?a * height ?a = 3" by (simp add: example_row_def)
  have nb: "width ?b * height ?b = 3" by (simp add: example_dark_def)
  have rgb_a: "rgb ?a 0 = (255, 255, 255)" "rgb ?a (Suc 0) = (250, 240, 250)" "rgb ?a 2 = (10, 20, 30)"
    and al: "alpha ?a 0 = 255" "alpha ?a 2 = 200"
    by (simp_all add: rgb_def red_def green_def blue_def alpha_def example_row_def)
  have rgb_b: "rgb ?b 0 = (0, 0, 0)" "rgb ?b (Suc 0) = (1, 1, 1)" "rgb ?b 2 = (3, 4, 0)"
    by (simp_all add: rgb_def red_def green_def blue_def example_dark_def)
  have t30: "Finite 30 = Finite (real_of_int 30)" and t5: "Finite 5 = Finite (real_of_int 5)"
    and t0: "Finite 0 = Finite (real_of_int 0)"
    by simp_all
  have sq: "0 \<le> squared_distance (r, g, b) (tr, tg, tb)" for r g b tr tg tb
    by (simp add: squared_distance_def)
  have le: "rgb_distance (r, g, b) (tr, tg, tb) \<le> 30
      \<longleftrightarrow> squared_distance (r, g, b) (tr, tg, tb) \<le> 900"
    "rgb_distance (r, g, b) (tr, tg, tb) \<le> 5
      \<longleftrightarrow> squared_distance (r, g, b) (tr, tg, tb) \<le> 25" for r g b tr tg tb
    using rgb_distance_le_int_iff [OF sq, of r g b tr tg tb 30]
      rgb_distance_le_int_iff [OF sq, of r g b tr tg tb 5] by simp_all
  note A = convertImagePixelsToTransparent_alpha [OF wa refl refl, of White "Finite 30", unfolded na]
  note B = convertImagePixelsToTransparent_alpha [OF wb refl refl, of Black "Finite 5", unfolded nb]
  note C = convertImagePixelsToTransparent_alpha [OF wa refl refl, of Black "Finite 0", unfolded na]
  have three: "(\<forall>p<3::nat. P p) \<longleftrightarrow> P 0 \<and> P (Suc 0) \<and> P 2" for P
  proof -
    have "p < 3 \<longleftrightarrow> p = 0 \<or> p = Suc 0 \<or> p = 2" for p :: nat by linarith
    then show ?thesis by metis
  qed
  from A have "\<forall>p<3. rgb (convertImagePixelsToTransparent ?a White (Finite 30)) p = rgb ?a p"
    by (simp add: target_rgb_fixed)
  then have a1: "rgb (convertImagePixelsToTransparent ?a White (Finite 30)) 2 = (10, 20, 30)"
    unfolding three by (simp add: rgb_a)
  from A t30 have "\<forall>p<3. \<exists>t. target_rgb White ?a = Some t \<and>
      alpha (convertImagePixelsToTransparent ?a White (Finite 30)) p =
        (if rgb_distance (rgb ?a p) t \<le> real_of_int 30 then 0 else alpha ?a p)"
    by blast
  then have "\<forall>p<3. alpha (convertImagePixelsToTransparent ?a White (Finite 30)) p =
        (if rgb_distance (rgb ?a p) (255, 255, 255) \<le> real_of_int 30 then 0 else alpha ?a p)"
    by (simp add: target_rgb_fixed)
  then have a2: "alpha (convertImagePixelsToTransparent ?a White (Finite 30)) 0 = 0"
      "alpha (convertImagePixelsToTransparent ?a White (Finite 30)) 2 = 200"
    unfolding three by (simp_all add: rgb_a al le squared_distance_def)
  have "\<forall>p<3. rgb_distance (rgb ?b p) (0, 0, 0) \<le> real_of_int 5"
    unfolding three by (simp add: rgb_b le squared_distance_def)
  with B t5 target_rgb_fixed(2) [of ?b]
  have "\<forall>p<3. alpha (convertImagePixelsToTransparent ?b Black (Finite 5)) p = 0"
    by blast
  then have b: "alpha (convertImagePixelsToTransparent ?b Black (Finite 5)) 0 = 0"
      "alpha (convertImagePixelsToTransparent ?b Black (Finite 5)) 2 = 0"
    unfolding three by simp_all
  have "\<forall>p<3. rgb ?a p \<noteq> (0, 0, 0)"
    unfolding three by (simp add: rgb_a)
  with C t0 target_rgb_fixed(2) [of ?a]
  have "\<forall>p<3. alpha (convertImagePixelsToTransparent ?a Black (Finite 0)) p = alpha ?a p"
    by blast
  then have c: "alpha (convertImagePixelsToTransparent ?a Black (Finite 0)) 0 = 255"
      "alpha (convertImagePixelsToTransparent ?a Black (Finite 0)) 2 = 200"
    unfolding three by (simp_all add: al)
  from a1 a2 b c show ?thesis by blast
qed

text \<open>
  Claim C1 as stated fails for a tolerance that is not an integer. The tolerance
  \<^verbatim>\<open>Math.sqrt(3)\<close> is the double \<open>3900231685776981 / 2^51\<close>, between 0 and 255 and below
  the square root of 3. The pixel \<open>(254, 254, 254)\<close> is at Euclidean distance
  \<open>sqrt 3\<close> from white, which is more than this tolerance, and yet the converter sets
  its alpha to 0: the distance it compares is \<^verbatim>\<open>Math.sqrt(3)\<close> too.
\<close>

theorem convertImagePixelsToTransparent_rounded_root:
  "Math_sqrt 3 = 3900231685776981 / 2 ^ 51 \<and>
   0 \<le> Math_sqrt 3 \<and> Math_sqrt 3 \<le> 255 \<and>
   target_rgb White example_near = Some (255, 255, 255) \<and>
   alpha example_near 0 = 255 \<and>
   \<not> rgb_distance (rgb example_near 0) (255, 255, 255) \<le> Math_sqrt 3 \<and>
   alpha (convertImagePixelsToTransparent example_near White (Finite (Math_sqrt 3))) 0 = 0"
proof -
  have v: "Math_sqrt 3 = 3900231685776981 / 2 ^ 51"
    by (simp add: Math_sqrt_3)
  have range: "0 \<le> Math_sqrt 3" "Math_sqrt 3 \<le> 255"
    by (simp_all add: Math_sqrt_3)
  have px: "rgb example_near 0 = (254, 254, 254)" "alpha example_near 0 = 255"
    by (simp_all add: rgb_def red_def green_def blue_def alpha_def example_near_def)
  have sq: "squared_distance (254, 254, 254) (255, 255, 255) = 3"
    by (simp add: squared_distance_def)
  have far: "\<not> rgb_distance (rgb example_near 0) (255, 255, 255) \<le> Math_sqrt 3"
    using Math_sqrt_3_less by (simp add: px rgb_distance_def sq)
  have len: "4 * 0 + 3 < length (data example_near)"
    by (simp add: example_near_def)
  have "alpha (convertImagePixelsToTransparent example_near White (Finite (Math_sqrt 3))) 0 = 0"
    unfolding converted_pixel(2) [OF len target_rgb_fixed(1)]
    by (simp add: px computed_distance_def sq within_tolerance_def)
  with v range px far show ?thesis
    by (simp add: target_rgb_fixed)
qed

text \<open>
  Claim C7. The target colour is \<open>(255, 255, 255)\<close> for mode white and \<open>(0, 0, 0)\<close>
  for mode black. For mode auto, on an image with at least one pixel whose array
  holds four bytes for each pixel, each channel of the target is the rounded average
  of that channel over the four corner pixels (top-left, top-right, bottom-left,
  bottom-right); on a 1 by 1 image the four corners are the one pixel and the target
  is its colour.
\<close>

theorem targetColor_modes:
  "targetColor White img = (Some 255, Some 255, Some 255) \<and>
   targetColor Black img = (Some 0, Some 0, Some 0) \<and>
   (length (data img) = 4 * (width img * height img) \<and> 0 < width img \<and> 0 < height img \<longrightarrow>
      targetColor Auto img =
        (Some (rounded_average (map (red img) (corner_pixels img))),
         Some (rounded_average (map (green img) (corner_pixels img))),
         Some (rounded_average (map (blue img) (corner_pixels img))))) \<and>
   (length (data img) = 4 \<and> width img = 1 \<and> height img = 1 \<longrightarrow>
      corner_pixels img = [0, 0, 0, 0] \<and>
      targetColor Auto img = (Some (red img 0), Some (green img 0), Some (blue img 0)))"
proof -
  have one: "targetColor Auto img = (Some (red img 0), Some (green img 0), Some (blue img 0))"
    and cp: "corner_pixels img = [0, 0, 0, 0]"
    if "length (data img) = 4" "width img = 1" "height img = 1"
  proof -
    show cp: "corner_pixels img = [0, 0, 0, 0]"
      using that by (simp add: corner_pixels_def)
    have "targetColor Auto img =
        (Some (rounded_average (map (red img) (corner_pixels img))),
         Some (rounded_average (map (green img) (corner_pixels img))),
         Some (rounded_average (map (blue img) (corner_pixels img))))"
      using targetColor_Auto [of img] that by simp
    then show "targetColor Auto img = (Some (red img 0), Some (green img 0), Some (blue img 0))"
      by (simp add: cp rounded_average4)
  qed
  show ?thesis
    using targetColor_Auto [of img] one cp by (simp add: targetColor_def)
qed


theorem targetColor_modes_witness:
  "targetColor Auto example_square = (Some 26, Some 50, Some 75) \<and>
   targetColor Auto example_pixel = (Some 7, Some 8, Some 9)"
proof -
  let ?a = example_square and ?b = example_pixel
  have ha: "length (data ?a) = 4 * (width ?a * height ?a) \<and> 0 < width ?a \<and> 0 < height ?a"
    by (simp add: example_square_def)
  have hb: "length (data ?b) = 4 \<and> width ?b = 1 \<and> height ?b = 1"
    by (simp add: example_pixel_def)
  from targetColor_modes [of ?a] ha have "targetColor Auto ?a =
        (Some (rounded_average (map (red ?a) (corner_pixels ?a))),
         Some (rounded_average (map (green ?a) (corner_pixels ?a))),
         Some (rounded_average (map (blue ?a) (corner_pixels ?a))))"
    by blast
  moreover have "corner_pixels ?a = [0, 1, 2, 3]"
    by (simp add: corner_pixels_def example_square_def)
  moreover have "map (red ?a) [0, 1, 2, 3] = [10, 20, 30, 42]"
    "map (green ?a) [0, 1, 2, 3] = [20, 40, 60, 81]"
    "map (blue ?a) [0, 1, 2, 3] = [30, 60, 90, 121]"
    by (simp_all add: red_def green_def blue_def example_square_def)
  ultimately have a: "targetColor Auto ?a = (Some 26, Some 50, Some 75)"
    by (simp add: rounded_average4)
  from targetColor_modes [of ?b] hb
  have "targetColor Auto ?b = (Some (red ?b 0), Some (green ?b 0), Some (blue ?b 0))"
    by blast
  then have b: "targetColor Auto ?b = (Some 7, Some 8, Some 9)"
    by (simp add: red_def green_def blue_def example_pixel_def)
  from a b show ?thesis by blast
qed

section \<open>Merging options with defaults\<close>

lemma spread_simps:
  "spread Missing s = s" "spread f (Present v) = Present v" "spread f Missing = f"
  by (simp_all add: spread_def split: slot.splits)

lemma property_spread_options:
  "property (spread_options first second) k = spread (property first k) (property second k)"
  by (cases k) (simp_all add: spread_options_def spread_def split: slot.splits)

text \<open>
  Claim C6. When the model of the options is \<^verbatim>\<open>'trellis'\<close> or \<^verbatim>\<open>'hunyuan3d'\<close>,
  \<open>merge3DWithDefaults\<close> returns an object in which every property the user's options
  have is as the user has it (also when the user has it as \<^verbatim>\<open>undefined\<close>), every
  property the user's options lack and the defaults of that model have is as in the
  defaults, and a property that neither has is missing. For any other model there
  are no defaults, and the call throws what \<open>getDefault3DOptions\<close> throws.
\<close>

theorem merge3DWithDefaults_properties:
  "(if slot_value (p_model options) = Some ''trellis''
       \<or> slot_value (p_model options) = Some ''hunyuan3d''
    then \<exists>defaults merged.
       getDefault3DOptions (slot_value (p_model options)) = Inr defaults \<and>
       merge3DWithDefaults options = Inr merged \<and>
       (\<forall>k v. property options k = Present v \<longrightarrow> property merged k = Present v) \<and>
       (\<forall>k d. property options k = Missing \<and> property defaults k = Present d
          \<longrightarrow> property merged k = Present d) \<and>
       (\<forall>k. property options k = Missing \<and> property defaults k = Missing
          \<longrightarrow> property merged k = Missing)
    else \<exists>err. getDefault3DOptions (slot_value (p_model options)) = Inl err \<and>
       merge3DWithDefaults options = Inl err)"
proof (cases "slot_value (p_model options) = Some ''trellis''
       \<or> slot_value (p_model options) = Some ''hunyuan3d''")
  case True
  then obtain defaults where
    d: "getDefault3DOptions (slot_value (p_model options)) = Inr defaults"
    by (auto simp: getDefault3DOptions_def)
  then have m: "merge3DWithDefaults options = Inr (spread_options defaults options)"
    by (simp add: merge3DWithDefaults_def)
  have "(\<forall>k v. property options k = Present v
            \<longrightarrow> property (spread_options defaults options) k = Present v) \<and>
       (\<forall>k d. property options k = Missing \<and> property defaults k = Present d
          \<longrightarrow> property (spread_options defaults options) k = Present d) \<and>
       (\<forall>k. property options k = Missing \<and> property defaults k = Missing
          \<longrightarrow> property (spread_options defaults options) k = Missing)"
    by (simp add: property_spread_options spread_def)
  with True d m show ?thesis by simp
next
  case False
  then obtain err where
    d: "getDefault3DOptions (slot_value (p_model options)) = Inl err"
    by (auto simp: getDefault3DOptions_def)
  then have "merge3DWithDefaults options = Inl err"
    by (simp add: merge3DWithDefaults_def)
  with False d show ?thesis by simp
qed

theorem merge3DWithDefaults_properties_witness:
  "\<exists>merged. merge3DWithDefaults example_options = Inr merged \<and>
     property merged K_variant = Present (Some (V_string ''single'')) \<and>
     property merged K_prompt = Present (Some (V_string ''test model'')) \<and>
     property merged K_format = Present None \<and>
     property merged K_referenceViews = Present (Some (V_views [FRONT, BACK, TOP])) \<and>
     property merged K_quality = Missing"
proof -
  have h: "slot_value (p_model example_options) = Some ''trellis''"
    by (simp add: example_options_def)
  from merge3DWithDefaults_properties [of example_options] obtain defaults merged where
    d: "getDefault3DOptions (slot_value (p_model example_options)) = Inr defaults" and
    m: "merge3DWithDefaults example_options = Inr merged" and
    u: "\<And>k v. property example_options k = Present v \<Longrightarrow> property merged k = Present v" and
    f: "\<And>k d. property example_options k = Missing \<and> property defaults k = Present d
        \<Longrightarrow> property merged k = Present d" and
    n: "\<And>k. property example_options k = Missing \<and> property defaults k = Missing
        \<Longrightarrow> property merged k = Missing"
    unfolding h by (simp only: simp_thms if_True) blast
  have defaults: "defaults = baseDefaults\<lparr>p_model := Present (Some ''trellis''),
      p_variant := Present (Some ''multi'')\<rparr>"
    using d by (simp add: h getDefault3DOptions_def)
  have "property merged K_variant = Present (Some (V_string ''single''))"
    "property merged K_prompt = Present (Some (V_string ''test model''))"
    "property merged K_format = Present None"
    by (rule u, simp add: example_options_def no_options_def)+
  moreover have "property merged K_referenceViews = Present (Some (V_views [FRONT, BACK, TOP]))"
    by (rule f, simp add: example_options_def defaults baseDefaults_def no_options_def)
  moreover have "property merged K_quality = Missing"
    by (rule n, simp add: example_options_def defaults baseDefaults_def no_options_def)
  ultimately show ?thesis using m by blast
qed

section \<open>Image references as data URIs\<close>

lemma encodeImageToBase64_readable:
  "readable e t path \<Longrightarrow>
     encodeImageToBase64 e t path = Inr (ext_base64 e (file_contents e t path))"
  by (simp add: encodeImageToBase64_def readable_def file_contents_def split: sum.splits)

lemma encodeImageToBase64_unreadable:
  "\<not> readable e t path \<Longrightarrow> \<exists>msg. encodeImageToBase64 e t path = Inl (Error msg)"
  by (simp add: encodeImageToBase64_def readable_def split: sum.splits)

lemma imageUri_Inr_iff:
  "imageUri e t path = Inr uri \<longleftrightarrow>
     (prefix ''data:'' path \<or> readable e t path) \<and>
     uri = (if prefix ''data:'' path then path
            else ''data:image/png;base64,'' @ ext_base64 e (file_contents e t path))"
proof (cases "prefix ''data:'' path")
  case True
  then show ?thesis by (auto simp: imageUri_def)
next
  case False
  show ?thesis
  proof (cases "readable e t path")
    case True
    with False show ?thesis
      by (auto simp: imageUri_def encodeImageToBase64_readable)
  next
    case unreadable: False
    from encodeImageToBase64_unreadable [OF this] obtain msg
      where "encodeImageToBase64 e t path = Inl (Error msg)" ..
    with False unreadable show ?thesis by (simp add: imageUri_def)
  qed
qed

lemma imageUris_Inr_iff:
  "imageUris e t paths = Inr uris \<longleftrightarrow>
     list_all (\<lambda>p. prefix ''data:'' p \<or> readable e t p) paths \<and>
     uris = map (\<lambda>p. if prefix ''data:'' p then p
                     else ''data:image/png;base64,'' @ ext_base64 e (file_contents e t p)) paths"
proof -
  define ok where "ok = (\<lambda>p. prefix ''data:'' p \<or> readable e t p)"
  define g where "g = (\<lambda>p. if prefix ''data:'' p then p
                     else ''data:image/png;base64,'' @ ext_base64 e (file_contents e t p))"
  have head: "imageUri e t p = Inr u \<longleftrightarrow> ok p \<and> u = g p" for p u
    unfolding ok_def g_def by (rule imageUri_Inr_iff)
  have "imageUris e t paths = Inr uris \<longleftrightarrow> list_all ok paths \<and> uris = map g paths"
  proof (induction paths arbitrary: uris)
    case Nil
    show ?case by auto
  next
    case (Cons p ps)
    show ?case
    proof (cases "imageUri e t p")
      case (Inl err)
      then have "\<not> ok p" using head [of p "g p"] by simp
      with Inl show ?thesis by simp
    next
      case (Inr u)
      then have okp: "ok p" and hd: "imageUri e t p = Inr (g p)"
        using head [of p u] by auto
      show ?thesis
      proof (cases "imageUris e t ps")
        case (Inl err)
        then have bad: "\<not> list_all ok ps" using Cons.IH [of "map g ps"] by simp
        show ?thesis by (simp add: hd Inl bad)
      next
        case rest: (Inr us)
        then have oks: "list_all ok ps" and tl: "imageUris e t ps = Inr (map g ps)"
          using Cons.IH [of us] by auto
        show ?thesis by (auto simp add: hd tl okp oks)
      qed
    qed
  qed
  then show ?thesis unfolding ok_def g_def .
qed

lemma convertPaths_loop_Inr_iff:
  "convertPaths_loop e t acc paths = Inr uris \<longleftrightarrow>
     list_all (readable e t) paths \<and>
     uris = acc @ map (\<lambda>p. ''data:image/png;base64,'' @ ext_base64 e (file_contents e t p)) paths"
proof -
  define g where "g = (\<lambda>p. ''data:image/png;base64,'' @ ext_base64 e (file_contents e t p))"
  have step: "convertPaths_loop e t acc (p # ps) = convertPaths_loop e t (acc @ [g p]) ps"
    if "readable e t p" for acc p ps
    using that by (simp add: encodeImageToBase64_readable g_def)
  have stop: "convertPaths_loop e t acc (p # ps) \<noteq> Inr uris"
    if "\<not> readable e t p" for acc p ps uris
  proof -
    from encodeImageToBase64_unreadable [OF that] obtain msg
      where "encodeImageToBase64 e t p = Inl (Error msg)" ..
    then show ?thesis by simp
  qed
  have "convertPaths_loop e t acc paths = Inr uris \<longleftrightarrow>
     list_all (readable e t) paths \<and> uris = acc @ map g paths"
  proof (induction paths arbitrary: acc)
    case Nil
    show ?case by auto
  next
    case (Cons p ps)
    show ?case
    proof (cases "readable e t p")
      case True
      show ?thesis unfolding step [OF True] Cons.IH using True by simp
    next
      case False
      with stop [OF False] show ?thesis by simp
    qed
  qed
  then show ?thesis unfolding g_def .
qed

text \<open>
  Claim C10, as amended. The conversion written out in the generation functions
  (\<open>imageUris\<close>, as in \<^verbatim>\<open>hunyuan3DGenerateMulti\<close>) succeeds exactly when every reference
  starts with \<^verbatim>\<open>data:\<close> or is a readable file; its result has the length and the order
  of the input, keeps every reference that starts with \<^verbatim>\<open>data:\<close>, and turns every
  other into \<^verbatim>\<open>data:image/png;base64,\<close> followed by the base64 of the file, whatever the
  name or the contents of the file. \<^verbatim>\<open>convertPathsToBase64URIs\<close> keeps length and order
  and uses the same fixed \<^verbatim>\<open>image/png\<close> label, but it reads every entry as a file: it
  succeeds exactly when every entry is a readable file and keeps no entry as it is.
\<close>

theorem image_references_to_data_uris:
  "(imageUris e t paths = Inr uris \<longleftrightarrow>
      list_all (\<lambda>p. prefix ''data:'' p \<or> readable e t p) paths \<and>
      length uris = length paths \<and>
      (\<forall>i<length paths.
         uris ! i = (if prefix ''data:'' (paths ! i) then paths ! i
                     else ''data:image/png;base64,''
                          @ ext_base64 e (file_contents e t (paths ! i))))) \<and>
   (convertPathsToBase64URIs e t paths = Inr uris \<longleftrightarrow>
      list_all (readable e t) paths \<and>
      length uris = length paths \<and>
      (\<forall>i<length paths.
         uris ! i = ''data:image/png;base64,'' @ ext_base64 e (file_contents e t (paths ! i))))"
proof -
  have eq: "xs = map g ys \<longleftrightarrow> length xs = length ys \<and> (\<forall>i<length ys. xs ! i = g (ys ! i))"
    for xs :: "string list" and ys :: "string list" and g
    by (auto simp: list_eq_iff_nth_eq)
  show ?thesis
    unfolding imageUris_Inr_iff convertPathsToBase64URIs_def convertPaths_loop_Inr_iff
      append_Nil eq
    by blast
qed

theorem image_references_to_data_uris_witness:
  "imageUris studio [] [''data:image/png;base64,AAAA'', ''photo.jpg'']
     = Inr [''data:image/png;base64,AAAA'', ''data:image/png;base64,PNG''] \<and>
   convertPathsToBase64URIs studio [] [''photo.jpg'', ''sketch.webp'']
     = Inr [''data:image/png;base64,PNG'', ''data:image/png;base64,PNG'']"
proof -
  have r: "readable studio [] p" "file_contents studio [] p = ''PNG''" "ext_base64 studio x = x"
    for p x
    by (simp_all add: readable_def file_contents_def studio_def)
  have "imageUris studio [] [''data:image/png;base64,AAAA'', ''photo.jpg'']
     = Inr [''data:image/png;base64,AAAA'', ''data:image/png;base64,PNG'']"
    unfolding image_references_to_data_uris [THEN conjunct1]
    by (simp add: r nth_Cons')
  moreover have "convertPathsToBase64URIs studio [] [''photo.jpg'', ''sketch.webp'']
     = Inr [''data:image/png;base64,PNG'', ''data:image/png;base64,PNG'']"
    unfolding image_references_to_data_uris [THEN conjunct2]
    by (simp add: r nth_Cons')
  ultimately show ?thesis by blast
qed

text \<open>
  Claim C10 as stated fails for \<^verbatim>\<open>convertPathsToBase64URIs\<close>: a reference that is
  already a data URI is not passed through. Where no file has that name the call
  throws.
\<close>

theorem convertPathsToBase64URIs_no_pass_through:
  "convertPathsToBase64URIs offline [] [''data:image/png;base64,AAAA'']
     = Inl (Error (''Failed to convert image data:image/png;base64,AAAA to base64 URI: ''
          @ ''Failed to read image file data:image/png;base64,AAAA: ''
          @ ''ENOENT: no such file or directory'')) \<and>
   convertPathsToBase64URIs offline [] [''data:image/png;base64,AAAA'']
     \<noteq> Inr [''data:image/png;base64,AAAA'']"
  by (simp add: convertPathsToBase64URIs_def encodeImageToBase64_def offline_def)

section \<open>Events of the generation functions\<close>

lemma image_calls_append [simp]: "image_calls (a @ b) = image_calls a @ image_calls b"
  by (simp add: image_calls_def)

lemma unlinked_append [simp]: "unlinked (a @ b) = unlinked a @ unlinked b"
  by (simp add: unlinked_def)

lemma http_bodies_append [simp]: "http_bodies (a @ b) = http_bodies a @ http_bodies b"
  by (simp add: http_bodies_def)

lemma synthesized_append [simp]: "synthesized (a @ b) = synthesized a @ synthesized b"
  by (simp add: synthesized_def)

lemma projections_Nil [simp]:
  "image_calls [] = []" "unlinked [] = []" "http_bodies [] = []" "synthesized [] = []"
  by (simp_all add: image_calls_def unlinked_def http_bodies_def synthesized_def)

lemma projections_Cons [simp]:
  "image_calls (ev # t) = image_call ev @ image_calls t"
  "unlinked (ev # t) = unlink_path ev @ unlinked t"
  "http_bodies (ev # t) = http_body ev @ http_bodies t"
  by (simp_all add: image_calls_def unlinked_def http_bodies_def)

lemma getFalAIKey_set: "truthy (FAL_AI_API_KEY e) \<Longrightarrow> \<exists>k. getFalAIKey e = Inr k"
  by (auto simp: getFalAIKey_def truthy_def split: option.splits)

lemma getFalAIKey_unset:
  "\<not> truthy (FAL_AI_API_KEY e) \<Longrightarrow>
     getFalAIKey e = Inl (Error ''FAL_AI_API_KEY environment variable is required'')"
  by (simp add: getFalAIKey_def)

text \<open>
  The shared part makes one HTTP request, with the body it is given, and at most one
  download after it; it generates no image and deletes nothing.
\<close>

lemma request_model_events:
  "\<exists>evs. snd (request_model e label url_of missing endpoint apiKey b out t) = t @ evs \<and>
     http_bodies evs = [b] \<and> image_calls evs = [] \<and> unlinked evs = [] \<and>
     list_all network_call evs"
  by (auto simp: request_model_def makeHTTPRequest_def downloadAndSave3DModel_def Let_def
      split: sum.splits option.splits prod.splits)

lemma finish_events: "snd (finish m v p imgs b r) = snd r"
  by (cases r) (auto simp: finish_def split: sum.splits)

lemma imageUris_nth:
  assumes "imageUris e t paths = Inr uris"
  shows "length uris = length paths" and "i < length paths \<Longrightarrow> imageUri e t (paths ! i) = Inr (uris ! i)"
proof -
  from assms have ok: "list_all (\<lambda>p. prefix ''data:'' p \<or> readable e t p) paths"
    and u: "uris = map (\<lambda>p. if prefix ''data:'' p then p
                     else ''data:image/png;base64,'' @ ext_base64 e (file_contents e t p)) paths"
    unfolding imageUris_Inr_iff by simp_all
  show "length uris = length paths" using u by simp
  assume i: "i < length paths"
  then have "prefix ''data:'' (paths ! i) \<or> readable e t (paths ! i)"
    using ok by (simp add: list_all_length)
  then show "imageUri e t (paths ! i) = Inr (uris ! i)"
    unfolding imageUri_Inr_iff using u i by simp
qed

lemma multi_view_body_fields:
  "map_of (multi_view_body uris fmt) ''front_image_url'' = Some (JString (uris ! 0))"
  "map_of (multi_view_body uris fmt) ''back_image_url'' = Some (JString (uris ! 1))"
  "map_of (multi_view_body uris fmt) ''left_image_url'' = Some (JString (uris ! 2))"
  by (simp_all add: multi_view_body_def)

lemma hunyuan3DGenerateMulti_shape:
  "hunyuan3DGenerateMulti = multi_view_call ''Hunyuan3D Multi'' ''multi''
     ''No model URL in Hunyuan3D Multi response''
     ''https://fal.run/fal-ai/hunyuan3d/v2/multi-view''"
  by (intro ext)
    (auto simp: hunyuan3DGenerateMulti_def multi_view_call_def Let_def split: sum.splits)

lemma hunyuan3DGenerateMultiTurbo_shape:
  "hunyuan3DGenerateMultiTurbo = multi_view_call ''Hunyuan3D Multi Turbo'' ''multi-turbo''
     ''No model URL in Hunyuan3D Multi Turbo response''
     ''https://fal.run/fal-ai/hunyuan3d/v2/multi-view/turbo''"
  by (intro ext)
    (auto simp: hunyuan3DGenerateMultiTurbo_def multi_view_call_def Let_def split: sum.splits)

lemma multi_view_shape:
  assumes "(f, label) \<in> {(hunyuan3DGenerateMulti, ''Hunyuan3D Multi''),
                         (hunyuan3DGenerateMultiTurbo, ''Hunyuan3D Multi Turbo'')}"
  shows "\<exists>variant_name missing endpoint. f = multi_view_call label variant_name missing endpoint"
proof -
  from assms consider
    "f = hunyuan3DGenerateMulti" "label = ''Hunyuan3D Multi''"
    | "f = hunyuan3DGenerateMultiTurbo" "label = ''Hunyuan3D Multi Turbo''"
    by auto
  then show ?thesis
  proof cases
    case 1
    show ?thesis unfolding 1 hunyuan3DGenerateMulti_shape by (intro exI) (rule refl)
  next
    case 2
    show ?thesis unfolding 2 hunyuan3DGenerateMultiTurbo_shape by (intro exI) (rule refl)
  qed
qed

section \<open>The multi-view functions of Hunyuan3D\<close>

text \<open>
  Claim C3, as amended. Let \<open>f\<close> be \<^verbatim>\<open>hunyuan3DGenerateMulti\<close> or
  \<^verbatim>\<open>hunyuan3DGenerateMultiTurbo\<close>. With fewer than three images the call adds no event
  (no HTTP request, no download) and throws: the error that names the number of images
  and says that at least 3 are required when \<^verbatim>\<open>FAL_AI_API_KEY\<close> is set, and the error
  of the missing key otherwise. With three or more images, every HTTP request the
  call makes carries the data URIs of the first, second and third image under
  \<^verbatim>\<open>front_image_url\<close>, \<^verbatim>\<open>back_image_url\<close> and \<^verbatim>\<open>left_image_url\<close>; it makes exactly one
  request when the key is set and every image is a data URI or a readable file, and
  adds no event otherwise.
\<close>

theorem hunyuan3D_multi_views:
  assumes "(f, label) \<in> {(hunyuan3DGenerateMulti, ''Hunyuan3D Multi''),
                         (hunyuan3DGenerateMultiTurbo, ''Hunyuan3D Multi Turbo'')}"
  shows "(length paths < 3 \<longrightarrow>
            f e a_prompt paths out fmt t =
              (Inl (Error (if truthy (FAL_AI_API_KEY e)
                           then label @ '' requires at least 3 images (front, back, left views). Only ''
                                @ show_nat (length paths) @ '' images provided.''
                           else ''FAL_AI_API_KEY environment variable is required'')), t)) \<and>
         (3 \<le> length paths \<longrightarrow>
            (\<exists>evs. snd (f e a_prompt paths out fmt t) = t @ evs \<and>
               (\<forall>b \<in> set (http_bodies evs). \<exists>front back left.
                   imageUri e t (paths ! 0) = Inr front \<and>
                   imageUri e t (paths ! 1) = Inr back \<and>
                   imageUri e t (paths ! 2) = Inr left \<and>
                   map_of b ''front_image_url'' = Some (JString front) \<and>
                   map_of b ''back_image_url'' = Some (JString back) \<and>
                   map_of b ''left_image_url'' = Some (JString left)) \<and>
               (if truthy (FAL_AI_API_KEY e)
                   \<and> list_all (\<lambda>p. prefix ''data:'' p \<or> readable e t p) paths
                then length (http_bodies evs) = 1 else evs = [])))"
    (is "(?few \<longrightarrow> ?A) \<and> (?many \<longrightarrow> (\<exists>evs. ?R evs \<and> ?S evs \<and> ?N evs))")
proof -
  from multi_view_shape [OF assms] obtain variant_name missing endpoint where
    "f = multi_view_call label variant_name missing endpoint"
    by (elim exE) (rule that)
  note f = this multi_view_call_def
  have few: ?A if ?few
  proof (cases "truthy (FAL_AI_API_KEY e)")
    case True
    from getFalAIKey_set [OF this] obtain k where "getFalAIKey e = Inr k" ..
    with True that show ?thesis unfolding f by simp
  next
    case False
    with getFalAIKey_unset [OF False] show ?thesis unfolding f by simp
  qed
  have silent: "?R [] \<and> ?S [] \<and> ?N []"
    if "snd (f e a_prompt paths out fmt t) = t"
      "\<not> (truthy (FAL_AI_API_KEY e)
          \<and> list_all (\<lambda>p. prefix ''data:'' p \<or> readable e t p) paths)"
    using that by simp
  have many: "\<exists>evs. ?R evs \<and> ?S evs \<and> ?N evs" if three: ?many
  proof (cases "truthy (FAL_AI_API_KEY e)")
    case False
    have "snd (f e a_prompt paths out fmt t) = t"
      unfolding f getFalAIKey_unset [OF False] by simp
    from silent [OF this] False show ?thesis by (intro exI [of _ "[]"]) simp
  next
    case True
    from getFalAIKey_set [OF this] obtain k where k: "getFalAIKey e = Inr k" ..
    have not_few: "\<not> length paths < 3" using three by simp
    show ?thesis
    proof (cases "imageUris e t paths")
      case (Inl err)
      have "\<not> list_all (\<lambda>p. prefix ''data:'' p \<or> readable e t p) paths"
      proof
        assume "list_all (\<lambda>p. prefix ''data:'' p \<or> readable e t p) paths"
        then have "\<exists>uris. imageUris e t paths = Inr uris"
          unfolding imageUris_Inr_iff by simp
        with Inl show False by simp
      qed
      moreover have "snd (f e a_prompt paths out fmt t) = t"
        unfolding f k Inl using not_few by simp
      ultimately show ?thesis using silent by (intro exI [of _ "[]"]) simp
    next
      case (Inr uris)
      then have ok: "list_all (\<lambda>p. prefix ''data:'' p \<or> readable e t p) paths"
        unfolding imageUris_Inr_iff by simp
      define b where "b = multi_view_body uris fmt"
      from request_model_events [of e label plain_url missing endpoint k b out t]
      obtain evs where
        evs: "snd (request_model e label plain_url missing endpoint k b out t) = t @ evs"
        and bodies: "http_bodies evs = [b]"
        by (elim exE conjE) (rule that)
      have run: "?R evs"
        unfolding f k Inr using not_few evs by (simp add: finish_events b_def)
      have lt: "0 < length paths" "1 < length paths" "2 < length paths"
        using three by linarith+
      have uri: "imageUri e t (paths ! 0) = Inr (uris ! 0)"
        "imageUri e t (paths ! 1) = Inr (uris ! 1)"
        "imageUri e t (paths ! 2) = Inr (uris ! 2)"
        by (rule imageUris_nth(2) [OF Inr], rule lt)+
      have slots: "?S evs"
        unfolding bodies using uri by (simp add: b_def multi_view_body_fields)
      have once: "?N evs"
        unfolding bodies using True ok by simp
      from run slots once show ?thesis by (intro exI [of _ evs] conjI)
    qed
  qed
  show ?thesis by (intro conjI impI few many)
qed

theorem hunyuan3D_multi_views_witness:
  "hunyuan3DGenerateMultiTurbo studio None [''a.png'', ''b.png''] ''out.glb'' None []
     = (Inl (Error ''Hunyuan3D Multi Turbo requires at least 3 images (front, back, left views). Only 2 images provided.''), []) \<and>
   (\<exists>b. http_bodies (snd (hunyuan3DGenerateMulti studio None
            [''data:image/png;base64,AAAA'', ''b.png'', ''c.png'', ''d.png''] ''out.glb'' None []))
          = [b] \<and>
        map_of b ''front_image_url'' = Some (JString ''data:image/png;base64,AAAA'') \<and>
        map_of b ''back_image_url'' = Some (JString ''data:image/png;base64,PNG'') \<and>
        map_of b ''left_image_url'' = Some (JString ''data:image/png;base64,PNG''))"
proof -
  let ?paths = "[''data:image/png;base64,AAAA'', ''b.png'', ''c.png'', ''d.png'']"
  have key: "truthy (FAL_AI_API_KEY studio)" by (simp add: studio_def truthy_def)
  have two: "show_nat (Suc (Suc 0)) = ''2''"
    by (simp add: show_nat.simps [of "Suc (Suc 0)"])
  have turbo: "(hunyuan3DGenerateMultiTurbo, ''Hunyuan3D Multi Turbo'')
      \<in> {(hunyuan3DGenerateMulti, ''Hunyuan3D Multi''),
         (hunyuan3DGenerateMultiTurbo, ''Hunyuan3D Multi Turbo'')}"
    and plain: "(hunyuan3DGenerateMulti, ''Hunyuan3D Multi'')
      \<in> {(hunyuan3DGenerateMulti, ''Hunyuan3D Multi''),
         (hunyuan3DGenerateMultiTurbo, ''Hunyuan3D Multi Turbo'')}"
    by simp_all
  have short: "length [''a.png'', ''b.png''] < 3" and long: "3 \<le> length ?paths"
    by simp_all
  note few = hunyuan3D_multi_views [OF turbo, of "[''a.png'', ''b.png'']" studio None
      "''out.glb''" None "[]", THEN conjunct1, THEN mp, OF short]
  have first: "hunyuan3DGenerateMultiTurbo studio None [''a.png'', ''b.png''] ''out.glb'' None []
     = (Inl (Error ''Hunyuan3D Multi Turbo requires at least 3 images (front, back, left views). Only 2 images provided.''), [])"
    unfolding few using key by (simp add: two)
  note many = hunyuan3D_multi_views [OF plain, of ?paths studio None "''out.glb''" None "[]",
      THEN conjunct2, THEN mp, OF long]
  have ok: "list_all (\<lambda>p. prefix ''data:'' p \<or> readable studio [] p) ?paths"
    by (simp add: readable_def studio_def)
  from many obtain evs where
    run: "snd (hunyuan3DGenerateMulti studio None ?paths ''out.glb'' None []) = [] @ evs" and
    slots: "\<forall>b \<in> set (http_bodies evs). \<exists>front back left.
                   imageUri studio [] (?paths ! 0) = Inr front \<and>
                   imageUri studio [] (?paths ! 1) = Inr back \<and>
                   imageUri studio [] (?paths ! 2) = Inr left \<and>
                   map_of b ''front_image_url'' = Some (JString front) \<and>
                   map_of b ''back_image_url'' = Some (JString back) \<and>
                   map_of b ''left_image_url'' = Some (JString left)" and
    count: "if truthy (FAL_AI_API_KEY studio)
               \<and> list_all (\<lambda>p. prefix ''data:'' p \<or> readable studio [] p) ?paths
            then length (http_bodies evs) = 1 else evs = []"
    by (elim exE conjE) (rule that)
  from count key ok have "length (http_bodies evs) = 1" by simp
  then obtain b where b: "http_bodies evs = [b]"
    by (cases "http_bodies evs") simp_all
  have uri: "imageUri studio [] (?paths ! 0) = Inr u \<longleftrightarrow> u = ''data:image/png;base64,AAAA''"
    "imageUri studio [] (?paths ! 1) = Inr u \<longleftrightarrow> u = ''data:image/png;base64,PNG''"
    "imageUri studio [] (?paths ! 2) = Inr u \<longleftrightarrow> u = ''data:image/png;base64,PNG''" for u
    unfolding imageUri_Inr_iff by (simp_all add: readable_def file_contents_def studio_def)
  from slots have "map_of b ''front_image_url'' = Some (JString ''data:image/png;base64,AAAA'') \<and>
        map_of b ''back_image_url'' = Some (JString ''data:image/png;base64,PNG'') \<and>
        map_of b ''left_image_url'' = Some (JString ''data:image/png;base64,PNG'')"
    unfolding b uri by simp
  moreover have "http_bodies (snd (hunyuan3DGenerateMulti studio None ?paths ''out.glb'' None []))
      = [b]"
    unfolding run using b by simp
  ultimately have second: "\<exists>b. http_bodies (snd (hunyuan3DGenerateMulti studio None ?paths
            ''out.glb'' None [])) = [b] \<and>
        map_of b ''front_image_url'' = Some (JString ''data:image/png;base64,AAAA'') \<and>
        map_of b ''back_image_url'' = Some (JString ''data:image/png;base64,PNG'') \<and>
        map_of b ''left_image_url'' = Some (JString ''data:image/png;base64,PNG'')"
    by (intro exI [of _ b] conjI) simp_all
  from first second show ?thesis by (rule conjI)
qed

text \<open>
  Claim C3 as stated fails where \<^verbatim>\<open>FAL_AI_API_KEY\<close> is not set: the key is read before
  the images are counted, and the error is that of the missing key.
\<close>

theorem hunyuan3DGenerateMulti_missing_key:
  "hunyuan3DGenerateMulti offline None [] ''model.glb'' None []
     = (Inl (Error ''FAL_AI_API_KEY environment variable is required''), []) \<and>
   \<not> str_includes ''FAL_AI_API_KEY environment variable is required''
        ''requires at least 3 images''"
  by (simp add: hunyuan3DGenerateMulti_def getFalAIKey_def truthy_def offline_def)

section \<open>Reference images\<close>

lemma view_attempt_failed:
  assumes "failed (ext_generateImage e t (reference_request a_prompt base m v))"
  shows "\<exists>msg. view_attempt e a_prompt base m v acc t
            = (Inl (Error msg),
               t @ [GenerateImage (reference_request a_prompt base m v)
                      (ext_generateImage e t (reference_request a_prompt base m v))])"
  using assms unfolding view_attempt_def generateImage_def Let_def
  by (cases "ext_generateImage e t (reference_request a_prompt base m v)") simp_all

lemma view_attempt_succeeded:
  assumes "\<not> failed (ext_generateImage e t (reference_request a_prompt base m v))"
  shows "view_attempt e a_prompt base m v acc t
            = (Inr (acc @ saved_by (ext_generateImage e t (reference_request a_prompt base m v))),
               t @ [GenerateImage (reference_request a_prompt base m v)
                      (ext_generateImage e t (reference_request a_prompt base m v))])"
  using assms unfolding view_attempt_def generateImage_def Let_def
  by (cases "ext_generateImage e t (reference_request a_prompt base m v)")
    (auto split: option.splits)

lemma failed_saves_nothing: "failed r \<Longrightarrow> saved_by r = []"
  by (cases r) simp_all

text \<open>One round of the loop: the call is recorded, a failure adds a warning.\<close>

lemma reference_loop_step:
  "reference_loop e a_prompt base m (v # views) acc t =
     reference_loop e a_prompt base m views
       (acc @ saved_by (ext_generateImage e t (reference_request a_prompt base m v)))
       (t @ GenerateImage (reference_request a_prompt base m v)
              (ext_generateImage e t (reference_request a_prompt base m v))
          # (if failed (ext_generateImage e t (reference_request a_prompt base m v))
             then [Console_warn (''Failed to generate '' @ view_string v @ '' reference image:'')]
             else []))"
proof (cases "failed (ext_generateImage e t (reference_request a_prompt base m v))")
  case True
  from view_attempt_failed [OF True, of acc] obtain msg where
    "view_attempt e a_prompt base m v acc t
       = (Inl (Error msg),
          t @ [GenerateImage (reference_request a_prompt base m v)
                 (ext_generateImage e t (reference_request a_prompt base m v))])"
    by (elim exE) (rule that)
  with True show ?thesis by (simp add: failed_saves_nothing reference_loop.simps(2))
next
  case False
  with view_attempt_succeeded [OF False, of acc] show ?thesis
    by (simp add: reference_loop.simps(2))
qed

declare reference_loop.simps(2) [simp del]

lemma reference_loop_events:
  "\<exists>evs. reference_loop e a_prompt base m views acc t = (acc @ synthesized evs, t @ evs) \<and>
     map fst (image_calls evs) = map (reference_request a_prompt base m) views \<and>
     length (filter warning evs) = length (filter (\<lambda>c. failed (snd c)) (image_calls evs)) \<and>
     unlinked evs = [] \<and> http_bodies evs = [] \<and> list_all (\<lambda>ev. \<not> network_call ev) evs"
proof (induction views arbitrary: acc t)
  case Nil
  show ?case by (intro exI [of _ "[]"]) simp
next
  case (Cons v views)
  define r where "r = ext_generateImage e t (reference_request a_prompt base m v)"
  define w where "w = (if failed r
             then [Console_warn (''Failed to generate '' @ view_string v @ '' reference image:'')]
             else [])"
  define first where "first = GenerateImage (reference_request a_prompt base m v) r # w"
  have step: "reference_loop e a_prompt base m (v # views) acc t =
     reference_loop e a_prompt base m views (acc @ saved_by r) (t @ first)"
    unfolding first_def w_def r_def by (rule reference_loop_step)
  from Cons.IH [of "acc @ saved_by r" "t @ first"] obtain evs where
    run: "reference_loop e a_prompt base m views (acc @ saved_by r) (t @ first)
            = ((acc @ saved_by r) @ synthesized evs, (t @ first) @ evs)" and
    calls: "map fst (image_calls evs) = map (reference_request a_prompt base m) views" and
    warned: "length (filter warning evs)
            = length (filter (\<lambda>c. failed (snd c)) (image_calls evs))" and
    quiet: "unlinked evs = []" "http_bodies evs = []"
      "list_all (\<lambda>ev. \<not> network_call ev) evs"
    by (elim exE conjE) (rule that)
  have first_calls: "image_calls first = [(reference_request a_prompt base m v, r)]"
    and first_quiet: "unlinked first = []" "http_bodies first = []"
      "list_all (\<lambda>ev. \<not> network_call ev) first"
    and first_warned: "length (filter warning first) = (if failed r then 1 else 0)"
    and first_saved: "synthesized first = saved_by r"
    by (simp_all add: first_def w_def synthesized_def)
  show ?case
    unfolding step run
    using calls warned quiet first_calls first_quiet first_warned first_saved
    by (intro exI [of _ "first @ evs"]) simp
qed

text \<open>
  Claim C4. \<^verbatim>\<open>generateReferenceImages\<close> returns and never throws. It calls
  \<^verbatim>\<open>generateImage\<close> once for every view, in the order of the views; it returns the
  paths saved by the calls that succeeded, in that order; every failed call is
  followed by a warning and the next view. When the call for the back view fails
  and the calls for front and top each save one path, the result for the views
  front, back, top is the front path followed by the top path. Arguments left out
  stand for the views front, back, top and the model gemini.
\<close>

theorem generateReferenceImages_partial_results:
  "(\<exists>evs. generateReferenceImages e a_prompt base (Some views) (Some m) t
            = (Inr (synthesized evs), t @ evs) \<and>
          map fst (image_calls evs) = map (reference_request a_prompt base m) views \<and>
          length (filter warning evs)
            = length (filter (\<lambda>c. failed (snd c)) (image_calls evs))) \<and>
   ((\<forall>h. ext_generateImage e h (reference_request a_prompt base m FRONT)
            = Parsed (Some [front_path])) \<and>
    (\<forall>h. failed (ext_generateImage e h (reference_request a_prompt base m BACK))) \<and>
    (\<forall>h. ext_generateImage e h (reference_request a_prompt base m TOP)
            = Parsed (Some [top_path]))
    \<longrightarrow> fst (generateReferenceImages e a_prompt base (Some [FRONT, BACK, TOP]) (Some m) t)
          = Inr [front_path, top_path]) \<and>
   generateReferenceImages e a_prompt base None None t
     = generateReferenceImages e a_prompt base (Some [FRONT, BACK, TOP]) (Some GEMINI) t"
proof (intro conjI impI)
  from reference_loop_events [of e a_prompt base m views "[]" t] obtain evs where
    "reference_loop e a_prompt base m views [] t = ([] @ synthesized evs, t @ evs)"
    "map fst (image_calls evs) = map (reference_request a_prompt base m) views"
    "length (filter warning evs) = length (filter (\<lambda>c. failed (snd c)) (image_calls evs))"
    by (elim exE conjE) (rule that)
  then show "\<exists>evs. generateReferenceImages e a_prompt base (Some views) (Some m) t
            = (Inr (synthesized evs), t @ evs) \<and>
          map fst (image_calls evs) = map (reference_request a_prompt base m) views \<and>
          length (filter warning evs)
            = length (filter (\<lambda>c. failed (snd c)) (image_calls evs))"
    by (intro exI [of _ evs]) (simp add: generateReferenceImages_def)
next
  assume env: "(\<forall>h. ext_generateImage e h (reference_request a_prompt base m FRONT)
            = Parsed (Some [front_path])) \<and>
    (\<forall>h. failed (ext_generateImage e h (reference_request a_prompt base m BACK))) \<and>
    (\<forall>h. ext_generateImage e h (reference_request a_prompt base m TOP)
            = Parsed (Some [top_path]))"
  then have view1: "ext_generateImage e h (reference_request a_prompt base m FRONT)
            = Parsed (Some [front_path])"
    and view2: "failed (ext_generateImage e h (reference_request a_prompt base m BACK))"
    and view3: "ext_generateImage e h (reference_request a_prompt base m TOP)
            = Parsed (Some [top_path])" for h
    by simp_all
  have "fst (reference_loop e a_prompt base m [FRONT, BACK, TOP] [] t) = [front_path, top_path]"
    by (simp add: reference_loop_step view1 view2 view3 failed_saves_nothing)
  then show "fst (generateReferenceImages e a_prompt base (Some [FRONT, BACK, TOP]) (Some m) t)
          = Inr [front_path, top_path]"
    by (cases "reference_loop e a_prompt base m [FRONT, BACK, TOP] [] t")
      (simp add: generateReferenceImages_def)
next
  show "generateReferenceImages e a_prompt base None None t
     = generateReferenceImages e a_prompt base (Some [FRONT, BACK, TOP]) (Some GEMINI) t"
    by (simp add: generateReferenceImages_def)
qed

theorem generateReferenceImages_partial_results_witness:
  "fst (generateReferenceImages studio ''test object'' ''test_object.png''
          (Some [FRONT, BACK, TOP]) (Some GEMINI) [])
     = Inr [''test_object_ref_front.png'', ''test_object_ref_top.png'']"
proof -
  have out: "req_outputPath (reference_request ''test object'' ''test_object.png'' GEMINI v)
      = ''test_object_ref_'' @ view_string v @ ''.png''" for v
    by (simp add: reference_request_def replace_extension_def Let_def)
  have env: "(\<forall>h. ext_generateImage studio h
                 (reference_request ''test object'' ''test_object.png'' GEMINI FRONT)
            = Parsed (Some [''test_object_ref_front.png''])) \<and>
    (\<forall>h. failed (ext_generateImage studio h
                 (reference_request ''test object'' ''test_object.png'' GEMINI BACK))) \<and>
    (\<forall>h. ext_generateImage studio h
                 (reference_request ''test object'' ''test_object.png'' GEMINI TOP)
            = Parsed (Some [''test_object_ref_top.png'']))"
    by (simp add: studio_def out)
  from generateReferenceImages_partial_results [of studio "''test object''"
      "''test_object.png''" "[]" GEMINI "[]" "''test_object_ref_front.png''"
      "''test_object_ref_top.png''", THEN conjunct2, THEN conjunct1, THEN mp, OF env]
  show ?thesis .
qed

section \<open>Events of generate3DModel\<close>

lemma network_only:
  assumes "list_all network_call evs"
  shows "image_calls evs = []" "unlinked evs = []" "synthesized evs = []"
proof -
  have "image_calls evs = [] \<and> unlinked evs = []"
    using assms
  proof (induction evs)
    case Nil
    show ?case by simp
  next
    case (Cons ev evs)
    then show ?case by (cases ev) simp_all
  qed
  then show "image_calls evs = []" "unlinked evs = []" "synthesized evs = []"
    by (simp_all add: synthesized_def)
qed

lemma synthesized_Cons [simp]:
  "synthesized (ev # evs) = concat (map (\<lambda>c. saved_by (snd c)) (image_call ev)) @ synthesized evs"
  by (simp add: synthesized_def)

lemma silent_call: "snd r = t \<Longrightarrow> \<exists>evs. snd r = t @ evs \<and> list_all network_call evs"
  by (intro exI [of _ "[]"]) simp

lemma finish_request_events:
  "\<exists>evs. snd (finish mn vn p imgs b (request_model e l u ms ep k b' out t)) = t @ evs \<and>
     list_all network_call evs"
  using request_model_events [of e l u ms ep k b' out t] unfolding finish_events by blast

lemma trellisGenerate3DSingle_events:
  "\<exists>evs. snd (trellisGenerate3DSingle e p img out fmt ts t) = t @ evs \<and>
     list_all network_call evs"
proof (cases "getFalAIKey e")
  case (Inl err)
  then show ?thesis by (intro silent_call) (simp add: trellisGenerate3DSingle_def)
next
  case key: (Inr k)
  show ?thesis
  proof (cases "imageUri e t img")
    case (Inl err)
    with key show ?thesis by (intro silent_call) (simp add: trellisGenerate3DSingle_def)
  next
    case (Inr uri)
    with key show ?thesis
      by (simp add: trellisGenerate3DSingle_def Let_def finish_request_events)
  qed
qed

lemma hunyuan3DGenerateSingle_events:
  "\<exists>evs. snd (hunyuan3DGenerateSingle e p img out fmt tm t) = t @ evs \<and>
     list_all network_call evs"
proof (cases "getFalAIKey e")
  case (Inl err)
  then show ?thesis by (intro silent_call) (simp add: hunyuan3DGenerateSingle_def)
next
  case key: (Inr k)
  show ?thesis
  proof (cases "imageUri e t img")
    case (Inl err)
    with key show ?thesis by (intro silent_call) (simp add: hunyuan3DGenerateSingle_def)
  next
    case (Inr uri)
    with key show ?thesis
      by (simp add: hunyuan3DGenerateSingle_def Let_def finish_request_events)
  qed
qed

lemma hunyuan3DGenerateSingleTurbo_events:
  "\<exists>evs. snd (hunyuan3DGenerateSingleTurbo e p img out fmt t) = t @ evs \<and>
     list_all network_call evs"
proof (cases "getFalAIKey e")
  case (Inl err)
  then show ?thesis by (intro silent_call) (simp add: hunyuan3DGenerateSingleTurbo_def)
next
  case key: (Inr k)
  show ?thesis
  proof (cases "imageUri e t img")
    case (Inl err)
    with key show ?thesis by (intro silent_call) (simp add: hunyuan3DGenerateSingleTurbo_def)
  next
    case (Inr uri)
    with key show ?thesis
      by (simp add: hunyuan3DGenerateSingleTurbo_def Let_def finish_request_events)
  qed
qed

lemma trellisGenerate3DMulti_events:
  "\<exists>evs. snd (trellisGenerate3DMulti e p imgs out fmt ts algo t) = t @ evs \<and>
     list_all network_call evs"
proof (cases "getFalAIKey e")
  case (Inl err)
  then show ?thesis by (intro silent_call) (simp add: trellisGenerate3DMulti_def)
next
  case key: (Inr k)
  show ?thesis
  proof (cases "imageUris e t imgs")
    case (Inl err)
    with key show ?thesis by (intro silent_call) (simp add: trellisGenerate3DMulti_def)
  next
    case (Inr uris)
    with key show ?thesis
      by (simp add: trellisGenerate3DMulti_def Let_def finish_request_events)
  qed
qed

lemma multi_view_call_events:
  "\<exists>evs. snd (multi_view_call l vn ms ep e p imgs out fmt t) = t @ evs \<and>
     list_all network_call evs"
proof (cases "getFalAIKey e")
  case (Inl err)
  then show ?thesis by (intro silent_call) (simp add: multi_view_call_def)
next
  case key: (Inr k)
  show ?thesis
  proof (cases "length imgs < 3")
    case True
    with key show ?thesis by (intro silent_call) (simp add: multi_view_call_def)
  next
    case enough: False
    show ?thesis
    proof (cases "imageUris e t imgs")
      case (Inl err)
      with key enough show ?thesis by (intro silent_call) (simp add: multi_view_call_def)
    next
      case (Inr uris)
      with key enough show ?thesis
        by (simp add: multi_view_call_def finish_request_events)
    qed
  qed
qed

lemma call_model_events:
  "\<exists>evs. snd (call_model e options actualVariant first paths t) = t @ evs \<and>
     list_all network_call evs"
proof (cases "model options")
  case TRELLIS
  then show ?thesis
    by (simp add: call_model_def Let_def trellisGenerate3DSingle_events
        trellisGenerate3DMulti_events)
next
  case HUNYUAN3D
  then show ?thesis
    by (cases actualVariant)
      (simp_all add: call_model_def Let_def hunyuan3DGenerateSingle_events
        hunyuan3DGenerateSingleTurbo_events hunyuan3DGenerateMulti_shape
        hunyuan3DGenerateMultiTurbo_shape multi_view_call_events)
next
  case HUNYUAN_WORLD
  then show ?thesis by (intro silent_call) (simp add: call_model_def Let_def)
qed

lemma dispatch_events:
  "\<exists>evs. snd (dispatch e options paths refs t) = t @ evs \<and> list_all network_call evs \<and>
     snd (fst (dispatch e options paths refs t)) = refs"
proof (cases paths)
  case Nil
  then show ?thesis by (intro exI [of _ "[]"]) (simp add: dispatch_def)
next
  case (Cons first rest)
  define v where "v = (case variant options of Some v \<Rightarrow> v
      | None \<Rightarrow> selectModelVariant (model options) (int (length paths)) False)"
  from call_model_events [of e options v first paths t] obtain evs where
    evs: "snd (call_model e options v first paths t) = t @ evs" "list_all network_call evs"
    by (elim exE conjE) (rule that)
  obtain r t' where r: "call_model e options v first paths t = (r, t')"
    by (cases "call_model e options v first paths t")
  with evs have t': "t' = t @ evs" by simp
  have d: "dispatch e options paths refs t =
      (case call_model e options v first paths t of
         (Inl err, t') \<Rightarrow> ((Inl err, refs), t')
       | (Inr result, t') \<Rightarrow>
           ((Inr (if length refs > 0 then
                    result\<lparr>auto_generated_references := Some refs,
                           reference_model_used :=
                             Some (case referenceModel options of Some m \<Rightarrow> m | None \<Rightarrow> GEMINI),
                           reference_views_generated :=
                             Some (case referenceViews options of
                                     Some vs \<Rightarrow> vs | None \<Rightarrow> [FRONT, BACK, TOP])\<rparr>
                  else result), refs), t'))"
    unfolding dispatch_def v_def Cons Let_def by simp
  show ?thesis
    unfolding d r using t' evs(2) by (cases r) (auto intro: exI [of _ evs])
qed

lemma cleanup_loop_events:
  "\<exists>evs. cleanup_loop e refs t = t @ evs \<and> unlinked evs = refs \<and> image_calls evs = [] \<and>
     http_bodies evs = [] \<and> list_all (\<lambda>ev. \<not> network_call ev) evs \<and> failures_warned evs"
proof (induction refs arbitrary: t)
  case Nil
  show ?case by (intro exI [of _ "[]"]) simp
next
  case (Cons p refs)
  define first where "first = (case ext_unlinkSync e t p of
      None \<Rightarrow> [Unlink p None]
    | Some msg \<Rightarrow> [Unlink p (Some msg),
        Console_warn (''Failed to cleanup reference image '' @ p @ '':'')])"
  have step: "cleanup_loop e (p # refs) t = cleanup_loop e refs (t @ first)"
    by (simp add: first_def split: option.splits)
  from Cons.IH [of "t @ first"] obtain evs where
    evs: "cleanup_loop e refs (t @ first) = (t @ first) @ evs" "unlinked evs = refs"
      "image_calls evs = []" "http_bodies evs = []"
      "list_all (\<lambda>ev. \<not> network_call ev) evs" "failures_warned evs"
    by (elim exE conjE) (rule that)
  have first: "unlinked first = [p]" "image_calls first = []" "http_bodies first = []"
    "list_all (\<lambda>ev. \<not> network_call ev) first"
    "failures_warned (first @ evs) = failures_warned evs"
    by (simp_all add: first_def split: option.splits)
  show ?case
    unfolding step evs(1) using evs(2-) first
    by (intro exI [of _ "first @ evs"]) simp
qed

lemma failures_warned_after:
  "unlinked a = [] \<Longrightarrow> failures_warned (a @ b) = failures_warned b"
proof (induction a)
  case Nil
  show ?case by simp
next
  case (Cons ev a)
  then show ?case by (cases ev) simp_all
qed

text \<open>
  The \<^verbatim>\<open>try\<close> block: it deletes nothing; \<open>generatedReferences\<close> is what the image
  calls saved; images are generated only when \<open>synthesis_wanted\<close> holds, and then for
  exactly the views chosen.
\<close>

lemma generate3DModel_try_events:
  "\<exists>evs. snd (generate3DModel_try e options t) = t @ evs \<and> unlinked evs = [] \<and>
     snd (fst (generate3DModel_try e options t)) = synthesized evs \<and>
     map fst (image_calls evs) =
       (if synthesis_wanted options then
          map (reference_request (case prompt options of Some p \<Rightarrow> p | None \<Rightarrow> [])
                 (replace_extension (outputPath options) [])
                 (case referenceModel options of Some m \<Rightarrow> m | None \<Rightarrow> GEMINI))
              (synthesis_views options)
        else [])"
proof (cases "synthesis_wanted options")
  case False
  define paths where "paths = (case inputImagePaths options of Some ps \<Rightarrow> ps | None \<Rightarrow> [])"
  have "generate3DModel_try e options t = dispatch e options paths [] t"
    using False
    by (auto simp: generate3DModel_try_def synthesis_wanted_def truthy_def paths_def Let_def
        split: option.splits)
  moreover from dispatch_events [of e options paths "[]" t] obtain evs where
    "snd (dispatch e options paths [] t) = t @ evs" "list_all network_call evs"
    "snd (fst (dispatch e options paths [] t)) = []"
    by (elim exE conjE) (rule that)
  ultimately show ?thesis
    using False by (intro exI [of _ evs]) (simp add: network_only)
next
  case True
  then obtain p where p: "prompt options = Some p" "p \<noteq> []"
    by (auto simp: synthesis_wanted_def truthy_def split: option.splits)
  define m where "m = (case referenceModel options of Some m \<Rightarrow> m | None \<Rightarrow> GEMINI)"
  define base where "base = replace_extension (outputPath options) []"
  define t0 where "t0 = t @ [Console_log
      ''No input images provided, generating reference images automatically...'']"
  from reference_loop_events [of e p base m "synthesis_views options" "[]" t0]
  obtain evs1 where
    loop: "reference_loop e p base m (synthesis_views options) [] t0
             = ([] @ synthesized evs1, t0 @ evs1)" and
    calls: "map fst (image_calls evs1) = map (reference_request p base m) (synthesis_views options)"
    and quiet: "unlinked evs1 = []"
    by (elim exE conjE) (rule that)
  have refs: "generateReferenceImages e p base (Some (synthesis_views options)) (Some m) t0
      = (Inr (synthesized evs1), t0 @ evs1)"
    by (simp add: generateReferenceImages_def loop)
  have unfold: "generate3DModel_try e options t =
      (if length (synthesized evs1) = 0 then
         ((Inl (Error ''Failed to generate reference images automatically''), synthesized evs1),
          t0 @ evs1)
       else dispatch e options (synthesized evs1) (synthesized evs1) (t0 @ evs1))"
  proof -
    have "(case inputImagePaths options of Some ps \<Rightarrow> ps | None \<Rightarrow> []) = []"
      using True by (auto simp: synthesis_wanted_def)
    moreover have "(case autoGenerateReferences options of Some b \<Rightarrow> b | None \<Rightarrow> True)"
      using True by (cases "autoGenerateReferences options") (auto simp: synthesis_wanted_def)
    ultimately show ?thesis
      using p refs
      by (simp add: generate3DModel_try_def Let_def m_def [symmetric] base_def [symmetric]
          t0_def [symmetric])
  qed
  show ?thesis
  proof (cases "synthesized evs1 = []")
    case none: True
    show ?thesis
      unfolding unfold using none calls quiet True p
      by (intro exI [of _ "Console_log
           ''No input images provided, generating reference images automatically...'' # evs1"])
        (simp add: t0_def m_def base_def)
  next
    case some: False
    from dispatch_events [of e options "synthesized evs1" "synthesized evs1" "t0 @ evs1"]
    obtain evs2 where
      "snd (dispatch e options (synthesized evs1) (synthesized evs1) (t0 @ evs1))
         = (t0 @ evs1) @ evs2" "list_all network_call evs2"
      "snd (fst (dispatch e options (synthesized evs1) (synthesized evs1) (t0 @ evs1)))
         = synthesized evs1"
      by (elim exE conjE) (rule that)
    then show ?thesis
      unfolding unfold using some calls quiet True p
      by (intro exI [of _ "Console_log
           ''No input images provided, generating reference images automatically...''
             # evs1 @ evs2"])
        (simp add: t0_def m_def base_def network_only)
  qed
qed

section \<open>generate3DModel\<close>

lemma synthesis_views_multi:
  "synthesis_views options =
     (if (\<exists>v. variant options = Some v \<and> multi_image v)
      then (case referenceViews options of Some vs \<Rightarrow> vs | None \<Rightarrow> [FRONT, BACK, TOP])
      else [FRONT])"
  by (cases "variant options") (simp_all add: synthesis_views_def multi_image_def)

text \<open>The whole call: the events of the \<^verbatim>\<open>try\<close> block, then those of the cleanup.\<close>

lemma generate3DModel_events:
  "\<exists>evs1 evs2. snd (generate3DModel_try e options t) = t @ evs1 \<and>
     snd (generate3DModel e options t) = t @ evs1 @ evs2 \<and>
     unlinked evs1 = [] \<and> image_calls evs2 = [] \<and> failures_warned evs2 \<and>
     snd (fst (generate3DModel_try e options t)) = synthesized evs1 \<and>
     unlinked evs2 = (if cleanupReferences options \<noteq> Some False then synthesized evs1 else []) \<and>
     map fst (image_calls evs1) =
       (if synthesis_wanted options then
          map (reference_request (case prompt options of Some p \<Rightarrow> p | None \<Rightarrow> [])
                 (replace_extension (outputPath options) [])
                 (case referenceModel options of Some m \<Rightarrow> m | None \<Rightarrow> GEMINI))
              (synthesis_views options)
        else [])"
proof -
  from generate3DModel_try_events [of e options t] obtain evs1 where
    block: "snd (generate3DModel_try e options t) = t @ evs1" and
    quiet: "unlinked evs1 = []" and
    refs: "snd (fst (generate3DModel_try e options t)) = synthesized evs1" and
    calls: "map fst (image_calls evs1) =
       (if synthesis_wanted options then
          map (reference_request (case prompt options of Some p \<Rightarrow> p | None \<Rightarrow> [])
                 (replace_extension (outputPath options) [])
                 (case referenceModel options of Some m \<Rightarrow> m | None \<Rightarrow> GEMINI))
              (synthesis_views options)
        else [])"
    by (elim exE conjE) (rule that)
  obtain outcome where run: "generate3DModel_try e options t = ((outcome, synthesized evs1), t @ evs1)"
    using block refs by (cases "generate3DModel_try e options t") auto
  define wanted where "wanted \<longleftrightarrow> cleanupReferences options \<noteq> Some False"
  have flag: "(case cleanupReferences options of Some b \<Rightarrow> b | None \<Rightarrow> True) = wanted"
    unfolding wanted_def by (cases "cleanupReferences options") auto
  from cleanup_loop_events [of e "synthesized evs1" "t @ evs1"] obtain evs2 where
    clean: "cleanup_loop e (synthesized evs1) (t @ evs1) = (t @ evs1) @ evs2"
      "unlinked evs2 = synthesized evs1" "image_calls evs2 = []" "failures_warned evs2"
    by (elim exE conjE) (rule that)
  show ?thesis
  proof (cases "wanted \<and> synthesized evs1 \<noteq> []")
    case True
    then have "snd (generate3DModel e options t) = t @ evs1 @ evs2"
      by (simp add: generate3DModel_def run flag clean)
    with block quiet calls clean refs True show ?thesis
      unfolding wanted_def by (intro exI [of _ evs1] exI [of _ evs2]) simp
  next
    case False
    then have "snd (generate3DModel e options t) = t @ evs1 @ []"
      by (auto simp: generate3DModel_def run flag)
    moreover have "[] = (if wanted then synthesized evs1 else [])"
      using False by auto
    ultimately show ?thesis
      using block quiet calls refs unfolding wanted_def
      by (intro exI [of _ evs1] exI [of _ "[]"]) simp
  qed
qed

text \<open>
  Claim C5. When \<^verbatim>\<open>generate3DModel\<close> is given no input image, a prompt that is not
  empty, and automatic generation is not switched off, the calls of \<^verbatim>\<open>generateImage\<close>
  it makes are those of reference synthesis for all the requested views (the option
  \<open>referenceViews\<close>, by default front, back, top) when the variant of the options is
  a multi-image variant, and that for the front view alone otherwise (also when the
  options name no variant).
\<close>

theorem generate3DModel_reference_views:
  assumes "inputImagePaths options = None \<or> inputImagePaths options = Some []"
    and "prompt options = Some p" and "p \<noteq> []"
    and "autoGenerateReferences options \<noteq> Some False"
  shows "\<exists>evs. snd (generate3DModel e options t) = t @ evs \<and>
     map fst (image_calls evs) =
       map (reference_request p (replace_extension (outputPath options) [])
              (case referenceModel options of Some m \<Rightarrow> m | None \<Rightarrow> GEMINI))
           (if (\<exists>v. variant options = Some v \<and> multi_image v)
            then (case referenceViews options of Some vs \<Rightarrow> vs | None \<Rightarrow> [FRONT, BACK, TOP])
            else [FRONT])"
proof -
  have wanted: "synthesis_wanted options"
    using assms by (simp add: synthesis_wanted_def truthy_def)
  from generate3DModel_events [of e options t] obtain evs1 evs2 where
    "snd (generate3DModel e options t) = t @ evs1 @ evs2" "image_calls evs2 = []"
    "map fst (image_calls evs1) =
       (if synthesis_wanted options then
          map (reference_request (case prompt options of Some p \<Rightarrow> p | None \<Rightarrow> [])
                 (replace_extension (outputPath options) [])
                 (case referenceModel options of Some m \<Rightarrow> m | None \<Rightarrow> GEMINI))
              (synthesis_views options)
        else [])"
    by (elim exE conjE) (rule that)
  then show ?thesis
    using wanted assms(2)
    by (intro exI [of _ "evs1 @ evs2"]) (simp add: synthesis_views_multi)
qed

theorem generate3DModel_reference_views_witness:
  "(\<exists>evs. snd (generate3DModel studio sword_options []) = evs \<and>
      map fst (image_calls evs)
        = map (reference_request ''fantasy sword'' ''sword'' GEMINI) [FRONT, BACK, TOP]) \<and>
   (\<exists>evs. snd (generate3DModel studio (sword_options\<lparr>variant := Some SINGLE\<rparr>) []) = evs \<and>
      map fst (image_calls evs) = [reference_request ''fantasy sword'' ''sword'' GEMINI FRONT])"
proof -
  have base: "replace_extension ''sword.glb'' [] = ''sword''"
    by (simp add: replace_extension_def Let_def)
  have a: "inputImagePaths sword_options = None \<or> inputImagePaths sword_options = Some []"
    "prompt sword_options = Some ''fantasy sword''" "''fantasy sword'' \<noteq> []"
    "autoGenerateReferences sword_options \<noteq> Some False"
    by (simp_all add: sword_options_def)
  let ?single = "sword_options\<lparr>variant := Some SINGLE\<rparr>"
  have b: "inputImagePaths ?single = None \<or> inputImagePaths ?single = Some []"
    "prompt ?single = Some ''fantasy sword''" "''fantasy sword'' \<noteq> []"
    "autoGenerateReferences ?single \<noteq> Some False"
    by (simp_all add: sword_options_def)
  have multi: "\<exists>evs. snd (generate3DModel studio sword_options []) = evs \<and>
      map fst (image_calls evs)
        = map (reference_request ''fantasy sword'' ''sword'' GEMINI) [FRONT, BACK, TOP]"
    using generate3DModel_reference_views [OF a, of studio "[]"]
    by (simp add: sword_options_def base multi_image_simps)
  have single: "\<exists>evs. snd (generate3DModel studio ?single []) = evs \<and>
      map fst (image_calls evs) = [reference_request ''fantasy sword'' ''sword'' GEMINI FRONT]"
    using generate3DModel_reference_views [OF b, of studio "[]"]
    by (simp add: sword_options_def base multi_image_simps)
  from multi single show ?thesis by (rule conjI)
qed

section \<open>Cleanup of the synthesized references\<close>

text \<open>
  Nothing in the \<^verbatim>\<open>try\<close> block asks the environment about \<^verbatim>\<open>unlinkSync\<close>: replacing
  that part of the environment leaves every function of the block as it is.
\<close>

lemma unlink_irrelevant_files [simp]:
  "getFalAIKey (e\<lparr>ext_unlinkSync := u\<rparr>) = getFalAIKey e"
  "encodeImageToBase64 (e\<lparr>ext_unlinkSync := u\<rparr>) t path = encodeImageToBase64 e t path"
  "getModel3DInfo (e\<lparr>ext_unlinkSync := u\<rparr>) t path = getModel3DInfo e t path"
  "generateImage (e\<lparr>ext_unlinkSync := u\<rparr>) request t = generateImage e request t"
  "makeHTTPRequest (e\<lparr>ext_unlinkSync := u\<rparr>) url method headers b t
     = makeHTTPRequest e url method headers b t"
  "downloadAndSave3DModel (e\<lparr>ext_unlinkSync := u\<rparr>) url out t = downloadAndSave3DModel e url out t"
  by (simp_all add: getFalAIKey_def encodeImageToBase64_def getModel3DInfo_def
      generateImage_def makeHTTPRequest_def downloadAndSave3DModel_def
      cong: sum.case_cong option.case_cong prod.case_cong if_cong)

lemma unlink_irrelevant_uris [simp]:
  "imageUri (e\<lparr>ext_unlinkSync := u\<rparr>) t path = imageUri e t path"
  "imageUris (e\<lparr>ext_unlinkSync := u\<rparr>) t paths = imageUris e t paths"
proof -
  show one: "imageUri (e\<lparr>ext_unlinkSync := u\<rparr>) t path = imageUri e t path" for path
    by (simp add: imageUri_def cong: sum.case_cong option.case_cong prod.case_cong if_cong)
  show "imageUris (e\<lparr>ext_unlinkSync := u\<rparr>) t paths = imageUris e t paths"
    by (induction paths) (simp_all add: one cong: sum.case_cong option.case_cong prod.case_cong if_cong)
qed

lemma unlink_irrelevant_request [simp]:
  "request_model (e\<lparr>ext_unlinkSync := u\<rparr>) l url_of ms ep k b out t
     = request_model e l url_of ms ep k b out t"
  by (simp add: request_model_def cong: sum.case_cong option.case_cong prod.case_cong if_cong)

lemma unlink_irrelevant_functions [simp]:
  "trellisGenerate3DSingle (e\<lparr>ext_unlinkSync := u\<rparr>) p img out fmt ts t
     = trellisGenerate3DSingle e p img out fmt ts t"
  "trellisGenerate3DMulti (e\<lparr>ext_unlinkSync := u\<rparr>) p imgs out fmt ts algo t
     = trellisGenerate3DMulti e p imgs out fmt ts algo t"
  "hunyuan3DGenerateSingle (e\<lparr>ext_unlinkSync := u\<rparr>) p img out fmt tm t
     = hunyuan3DGenerateSingle e p img out fmt tm t"
  "hunyuan3DGenerateMulti (e\<lparr>ext_unlinkSync := u\<rparr>) p imgs out fmt t
     = hunyuan3DGenerateMulti e p imgs out fmt t"
  "hunyuan3DGenerateSingleTurbo (e\<lparr>ext_unlinkSync := u\<rparr>) p img out fmt t
     = hunyuan3DGenerateSingleTurbo e p img out fmt t"
  "hunyuan3DGenerateMultiTurbo (e\<lparr>ext_unlinkSync := u\<rparr>) p imgs out fmt t
     = hunyuan3DGenerateMultiTurbo e p imgs out fmt t"
  by (simp_all add: trellisGenerate3DSingle_def trellisGenerate3DMulti_def
      hunyuan3DGenerateSingle_def hunyuan3DGenerateMulti_def hunyuan3DGenerateSingleTurbo_def
      hunyuan3DGenerateMultiTurbo_def cong: sum.case_cong option.case_cong prod.case_cong if_cong)

lemma unlink_irrelevant_loop [simp]:
  "reference_loop (e\<lparr>ext_unlinkSync := u\<rparr>) p base m views acc t
     = reference_loop e p base m views acc t"
  by (induction views arbitrary: acc t)
    (simp_all add: reference_loop.simps(2) view_attempt_def cong: sum.case_cong option.case_cong prod.case_cong if_cong)

lemma unlink_irrelevant_try:
  "generate3DModel_try (e\<lparr>ext_unlinkSync := u\<rparr>) options t = generate3DModel_try e options t"
  by (simp add: generate3DModel_try_def dispatch_def call_model_def
      generateReferenceImages_def cong: sum.case_cong option.case_cong prod.case_cong if_cong
      list.case_cong Model3DModel.case_cong Model3DVariant.case_cong)

text \<open>
  Claim C8. In every call of \<^verbatim>\<open>generate3DModel\<close>, whether the generation returns or
  throws: the references the call synthesized (\<open>generatedReferences\<close>) are the paths
  its image calls saved; when cleanup is requested (\<open>cleanupReferences\<close> is not false)
  the call hands exactly those paths to \<^verbatim>\<open>unlinkSync\<close>, each once and in order; a
  deletion that fails is followed by a warning and the next deletion; the outcome of
  the call is the outcome of its \<^verbatim>\<open>try\<close> block, and it is the same whatever the
  deletions do. When cleanup is switched off nothing is deleted.
\<close>

theorem generate3DModel_cleanup:
  "\<exists>evs. snd (generate3DModel e options t) = t @ evs \<and>
     synthesized evs = snd (fst (generate3DModel_try e options t)) \<and>
     (cleanupReferences options \<noteq> Some False \<longrightarrow> unlinked evs = synthesized evs) \<and>
     (cleanupReferences options = Some False \<longrightarrow> unlinked evs = []) \<and>
     failures_warned evs \<and>
     fst (generate3DModel e options t) = fst (fst (generate3DModel_try e options t)) \<and>
     (\<forall>u. fst (generate3DModel (e\<lparr>ext_unlinkSync := u\<rparr>) options t)
            = fst (generate3DModel e options t))"
proof -
  from generate3DModel_events [of e options t] obtain evs1 evs2 where
    run: "snd (generate3DModel e options t) = t @ evs1 @ evs2" and
    quiet: "unlinked evs1 = []" "image_calls evs2 = []" and
    warned: "failures_warned evs2" and
    refs: "snd (fst (generate3DModel_try e options t)) = synthesized evs1" and
    deleted: "unlinked evs2
      = (if cleanupReferences options \<noteq> Some False then synthesized evs1 else [])"
    by (elim exE conjE) (rule that)
  have no_images: "synthesized evs2 = []"
    using quiet(2) by (simp add: synthesized_def)
  have outcome: "fst (generate3DModel e' options t) = fst (fst (generate3DModel_try e' options t))"
    for e'
    by (cases "generate3DModel_try e' options t") (auto simp: generate3DModel_def)
  have same: "fst (generate3DModel (e\<lparr>ext_unlinkSync := u\<rparr>) options t)
            = fst (generate3DModel e options t)" for u
    unfolding outcome unlink_irrelevant_try ..
  show ?thesis
    using run quiet warned deleted no_images refs outcome [of e] same
    by (intro exI [of _ "evs1 @ evs2"]) (simp add: failures_warned_after)
qed

theorem generate3DModel_cleanup_witness:
  "unlinked (snd (generate3DModel studio sword_options [])) = [''sword'', ''sword'', ''sword''] \<and>
   (\<exists>result. fst (generate3DModel studio sword_options []) = Inr result) \<and>
   unlinked (snd (generate3DModel studio
       (sword_options\<lparr>model := HUNYUAN3D, referenceViews := Some [FRONT, BACK]\<rparr>) []))
     = [''sword'', ''sword''] \<and>
   fst (generate3DModel studio
       (sword_options\<lparr>model := HUNYUAN3D, referenceViews := Some [FRONT, BACK]\<rparr>) [])
     = Inl (Error ''Hunyuan3D Multi requires at least 3 images (front, back, left views). Only 2 images provided.'') \<and>
   unlinked (snd (generate3DModel studio
       (sword_options\<lparr>outputPath := ''locked.png.glb'', variant := Some SINGLE\<rparr>) []))
     = [''locked_ref_front.png''] \<and>
   filter warning (snd (generate3DModel studio
       (sword_options\<lparr>outputPath := ''locked.png.glb'', variant := Some SINGLE\<rparr>) []))
     = [Console_warn ''Failed to cleanup reference image locked_ref_front.png:''] \<and>
   (\<exists>result. fst (generate3DModel studio
       (sword_options\<lparr>outputPath := ''locked.png.glb'', variant := Some SINGLE\<rparr>) [])
     = Inr result)"
proof -
  let ?locked = "sword_options\<lparr>outputPath := ''locked.png.glb'', variant := Some SINGLE\<rparr>"
  let ?few = "sword_options\<lparr>model := HUNYUAN3D, referenceViews := Some [FRONT, BACK]\<rparr>"
  have key: "getFalAIKey studio = Inr ''secret''"
    by (simp add: getFalAIKey_def studio_def truthy_def)
  have uri: "imageUri studio h ''sword'' = Inr ''data:image/png;base64,PNG''"
    "imageUri studio h ''locked_ref_front.png'' = Inr ''data:image/png;base64,PNG''" for h
    by (simp_all add: imageUri_def encodeImageToBase64_def studio_def)
  define answer where "answer = \<lparr>api_error = None, model_mesh_url = Some ''https://cdn/mesh.glb'',
      model_url = Some ''https://cdn/model.glb'', timings_inference = None\<rparr>"
  have request: "request_model studio l mesh_url ms ep k b out h =
      (Inr (answer, [out], \<lparr>file_size = 1024, info_format = ''GLB''\<rparr>),
       h @ [HTTPRequest ep ''POST'' (auth_headers k) b (Inr answer),
            Download ''https://cdn/mesh.glb'' out None])"
    for l ms ep k b out h
    by (simp add: request_model_def makeHTTPRequest_def downloadAndSave3DModel_def
        getModel3DInfo_def studio_def mesh_url_def truthy_def Let_def answer_def)
  have generated: "ext_generateImage studio h (reference_request ''fantasy sword'' ''sword'' GEMINI v)
      = Parsed (Some [''sword''])" for h v
    by (simp add: studio_def reference_request_def replace_extension_def Let_def)
  have base: "replace_extension ''sword.glb'' [] = ''sword''"
    by (simp add: replace_extension_def Let_def)
  have two: "show_nat (Suc (Suc 0)) = ''2''"
    by (simp add: show_nat.simps [of "Suc (Suc 0)"])
  have multi: "str_includes ''multi'' ''multi''" by simp
  have refs_a: "snd (fst (generate3DModel_try studio sword_options []))
      = [''sword'', ''sword'', ''sword'']"
    and ok_a: "\<exists>result. fst (fst (generate3DModel_try studio sword_options [])) = Inr result"
    by (simp_all add: generate3DModel_try_def sword_options_def generateReferenceImages_def
        reference_loop_step generated base synthesis_views_def multi dispatch_def call_model_def
        trellisGenerate3DMulti_def key uri request finish_def Let_def)
  have refs_b: "snd (fst (generate3DModel_try studio ?few [])) = [''sword'', ''sword'']"
    and err_b: "fst (fst (generate3DModel_try studio ?few []))
      = Inl (Error ''Hunyuan3D Multi requires at least 3 images (front, back, left views). Only 2 images provided.'')"
    by (simp_all add: generate3DModel_try_def sword_options_def generateReferenceImages_def
        reference_loop_step generated base synthesis_views_def multi dispatch_def call_model_def
        hunyuan3DGenerateMulti_def key two Let_def)
  have generated_c:
    "ext_generateImage studio h (reference_request ''fantasy sword'' ''locked.png'' GEMINI FRONT)
      = Parsed (Some [''locked_ref_front.png''])" for h
    by (simp add: studio_def reference_request_def replace_extension_def Let_def)
  have base_c: "replace_extension ''locked.png.glb'' [] = ''locked.png''"
    by (simp add: replace_extension_def Let_def)
  have single: "\<not> str_includes ''single'' ''multi''" by simp
  have locked: "ext_unlinkSync studio h ''locked_ref_front.png'' = Some ''EPERM''" for h
    by (simp add: studio_def)
  have refs_c: "snd (fst (generate3DModel_try studio ?locked [])) = [''locked_ref_front.png'']"
    and ok_c: "\<exists>result. fst (fst (generate3DModel_try studio ?locked [])) = Inr result"
    and warn_c: "filter warning (snd (generate3DModel studio ?locked []))
      = [Console_warn ''Failed to cleanup reference image locked_ref_front.png:'']"
    by (simp_all add: generate3DModel_def generate3DModel_try_def sword_options_def
        generateReferenceImages_def reference_loop_step generated_c base_c synthesis_views_def
        single dispatch_def call_model_def trellisGenerate3DSingle_def key uri request
        finish_def locked Let_def)
  have wanted: "cleanupReferences sword_options \<noteq> Some False"
    "cleanupReferences ?few \<noteq> Some False" "cleanupReferences ?locked \<noteq> Some False"
    by (simp_all add: sword_options_def)
  from generate3DModel_cleanup [of studio sword_options "[]"] obtain evs where
    "snd (generate3DModel studio sword_options []) = [] @ evs"
    "synthesized evs = snd (fst (generate3DModel_try studio sword_options []))"
    "cleanupReferences sword_options \<noteq> Some False \<longrightarrow> unlinked evs = synthesized evs"
    "fst (generate3DModel studio sword_options [])
       = fst (fst (generate3DModel_try studio sword_options []))"
    by (elim exE conjE) (rule that)
  with wanted(1) refs_a ok_a have a:
    "unlinked (snd (generate3DModel studio sword_options [])) = [''sword'', ''sword'', ''sword'']"
    "\<exists>result. fst (generate3DModel studio sword_options []) = Inr result"
    by simp_all
  from generate3DModel_cleanup [of studio ?few "[]"] obtain evs where
    "snd (generate3DModel studio ?few []) = [] @ evs"
    "synthesized evs = snd (fst (generate3DModel_try studio ?few []))"
    "cleanupReferences ?few \<noteq> Some False \<longrightarrow> unlinked evs = synthesized evs"
    "fst (generate3DModel studio ?few []) = fst (fst (generate3DModel_try studio ?few []))"
    by (elim exE conjE) (rule that)
  with wanted(2) refs_b err_b have b:
    "unlinked (snd (generate3DModel studio ?few [])) = [''sword'', ''sword'']"
    "fst (generate3DModel studio ?few [])
     = Inl (Error ''Hunyuan3D Multi requires at least 3 images (front, back, left views). Only 2 images provided.'')"
    by simp_all
  from generate3DModel_cleanup [of studio ?locked "[]"] obtain evs where
    "snd (generate3DModel studio ?locked []) = [] @ evs"
    "synthesized evs = snd (fst (generate3DModel_try studio ?locked []))"
    "cleanupReferences ?locked \<noteq> Some False \<longrightarrow> unlinked evs = synthesized evs"
    "fst (generate3DModel studio ?locked []) = fst (fst (generate3DModel_try studio ?locked []))"
    by (elim exE conjE) (rule that)
  with wanted(3) refs_c ok_c have c:
    "unlinked (snd (generate3DModel studio ?locked [])) = [''locked_ref_front.png'']"
    "\<exists>result. fst (generate3DModel studio ?locked []) = Inr result"
    by simp_all
  from a b c warn_c show ?thesis by (intro conjI)
qed

section \<open>generate3DModelSmart\<close>

text \<open>
  Options that pass \<^verbatim>\<open>validate3DModelOptions\<close> are read by \<open>read_options\<close> as they
  are: the path and the model are the strings of the object, and the variant and the
  format are those of the object unless they are falsy.
\<close>

lemma validated_read_options:
  assumes "validate3DModelOptions options = Inr ()"
  shows "slot_value (p_outputPath options) = Some (outputPath (read_options options))"
    and "slot_value (p_model options) = Some (model_string (model (read_options options)))"
    and "truthy (slot_value (p_variant options)) \<Longrightarrow>
         slot_value (p_variant options)
           = map_option variant_string (variant (read_options options))"
    and "\<not> truthy (slot_value (p_variant options)) \<Longrightarrow> variant (read_options options) = None"
    and "truthy (slot_value (p_format options)) \<Longrightarrow>
         slot_value (p_format options)
           = map_option format_string (format (read_options options))"
    and "\<not> truthy (slot_value (p_format options)) \<Longrightarrow> format (read_options options) = None"
proof -
  from assms have path: "slot_value (p_outputPath options) \<noteq> None"
    and m: "slot_value (p_model options) = Some ''trellis''
         \<or> slot_value (p_model options) = Some ''hunyuan3d''"
    and v: "\<not> truthy (slot_value (p_variant options)) \<or>
         slot_value (p_variant options) = Some ''single'' \<or>
         slot_value (p_variant options) = Some ''multi'' \<or>
         slot_value (p_variant options) = Some ''single-turbo'' \<or>
         slot_value (p_variant options) = Some ''multi-turbo''"
    and f: "\<not> truthy (slot_value (p_format options)) \<or>
         slot_value (p_format options) = Some ''glb'' \<or>
         slot_value (p_format options) = Some ''gltf''"
    by (auto simp: validate3DModelOptions_def truthy_def split: if_splits option.splits)
  from path show "slot_value (p_outputPath options) = Some (outputPath (read_options options))"
    by (auto simp: read_options_def)
  from m show "slot_value (p_model options) = Some (model_string (model (read_options options)))"
    by (auto simp: read_options_def model_of_string_def)
  from v show "truthy (slot_value (p_variant options)) \<Longrightarrow>
         slot_value (p_variant options)
           = map_option variant_string (variant (read_options options))"
    by (auto simp: read_options_def variant_of_string_def)
  from v show "\<not> truthy (slot_value (p_variant options)) \<Longrightarrow> variant (read_options options) = None"
    by (auto simp: read_options_def variant_of_string_def truthy_def)
  from f show "truthy (slot_value (p_format options)) \<Longrightarrow>
         slot_value (p_format options)
           = map_option format_string (format (read_options options))"
    by (auto simp: read_options_def format_of_string_def)
  from f show "\<not> truthy (slot_value (p_format options)) \<Longrightarrow> format (read_options options) = None"
    by (auto simp: read_options_def format_of_string_def truthy_def)
qed

text \<open>
  Claim C9, as amended. A call of \<^verbatim>\<open>generate3DModelSmart\<close> whose model is
  \<^verbatim>\<open>'trellis'\<close> (given by the options, or by the argument when the options have no
  model) and whose options ask for a variant with \<^verbatim>\<open>turbo\<close> in its name throws a
  validation error and adds no event: validation runs before \<^verbatim>\<open>generate3DModel\<close>, so
  no image is generated and no request is made. The error is the first that
  \<^verbatim>\<open>validate3DModelOptions\<close> finds: that of the output path when it is
  \<^verbatim>\<open>undefined\<close>, empty or white space; else that of the variant when it is none of
  the four names; else that of the format when the options give one that is neither
  \<^verbatim>\<open>'glb'\<close> nor \<^verbatim>\<open>'gltf'\<close>; and else \<^verbatim>\<open>Trellis model does not support turbo
  variants\<close>.
\<close>

theorem generate3DModelSmart_trellis_turbo:
  assumes "slot_value (spread (Present (Some (case a_model of Some m \<Rightarrow> m | None \<Rightarrow> ''hunyuan3d'')))
                         (p_model options)) = Some ''trellis''"
    and "p_variant options = Present (Some v)" and "str_includes v ''turbo''"
    and "out = slot_value (spread (Present (Some a_outputPath)) (p_outputPath options))"
    and "fmt = slot_value (spread (Present (Some ''glb'')) (p_format options))"
  shows "generate3DModelSmart e a_prompt a_outputPath a_model options t =
     (Inl (Error
        (if (case out of None \<Rightarrow> True | Some path \<Rightarrow> path = [] \<or> length (trim path) = 0)
         then ''Output path is required and cannot be empty''
         else if v \<notin> set [''single'', ''multi'', ''single-turbo'', ''multi-turbo'']
         then ''Variant must be one of: single, multi, single-turbo, multi-turbo''
         else if (case fmt of None \<Rightarrow> False | Some f \<Rightarrow> f \<noteq> [] \<and> f \<notin> set [''glb'', ''gltf''])
         then ''Format must be one of: glb, gltf''
         else ''Trellis model does not support turbo variants'')), t)"
proof -
  define full where "full = smart_options a_prompt a_outputPath a_model options"
  have fields: "slot_value (p_model full) = Some ''trellis''" "p_variant full = Present (Some v)"
    "slot_value (p_outputPath full) = out" "p_format full = p_format options"
    using assms(1,2,4)
    by (simp_all add: full_def smart_options_def spread_options_def spread_simps no_options_def)
  define merged where
    "merged = spread_options (baseDefaults\<lparr>p_model := Present (Some ''trellis''),
        p_variant := Present (Some ''multi'')\<rparr>) full"
  have merge: "merge3DWithDefaults full = Inr merged"
    by (simp add: merge3DWithDefaults_def getDefault3DOptions_def fields merged_def)
  have model_full: "p_model full = Present (Some ''trellis'')"
    using fields(1) by (cases "p_model full") (simp_all add: full_def smart_options_def
        spread_options_def spread_def no_options_def split: slot.splits)
  have merged: "slot_value (p_model merged) = Some ''trellis''"
    "slot_value (p_variant merged) = Some v"
    "slot_value (p_outputPath merged) = out" "slot_value (p_format merged) = fmt"
    by (simp_all add: merged_def spread_options_def spread_simps fields model_full
        baseDefaults_def no_options_def assms(5))
  have v: "v \<noteq> []" "v \<noteq> ''single''" "v \<noteq> ''multi''" using assms(3) by auto
  have "validate3DModelOptions merged =
     Inl (Error
        (if (case out of None \<Rightarrow> True | Some path \<Rightarrow> path = [] \<or> length (trim path) = 0)
         then ''Output path is required and cannot be empty''
         else if v \<notin> set [''single'', ''multi'', ''single-turbo'', ''multi-turbo'']
         then ''Variant must be one of: single, multi, single-turbo, multi-turbo''
         else if (case fmt of None \<Rightarrow> False | Some f \<Rightarrow> f \<noteq> [] \<and> f \<notin> set [''glb'', ''gltf''])
         then ''Format must be one of: glb, gltf''
         else ''Trellis model does not support turbo variants''))"
    using assms(3) v unfolding validate3DModelOptions_def merged by simp
  then show ?thesis
    by (simp add: generate3DModelSmart_def full_def [symmetric] merge)
qed

theorem generate3DModelSmart_trellis_turbo_witness:
  "generate3DModelSmart studio ''fantasy sword'' ''sword.glb'' (Some ''trellis'')
      (no_options\<lparr>p_variant := Present (Some ''single-turbo'')\<rparr>) []
     = (Inl (Error ''Trellis model does not support turbo variants''), []) \<and>
   generate3DModelSmart studio ''fantasy sword'' ''sword.glb'' None
      (no_options\<lparr>p_model := Present (Some ''trellis''),
         p_variant := Present (Some ''multi-turbo''), p_format := Present (Some ''gltf'')\<rparr>) []
     = (Inl (Error ''Trellis model does not support turbo variants''), [])"
proof -
  let ?a = "no_options\<lparr>p_variant := Present (Some ''single-turbo'')\<rparr>"
  let ?b = "no_options\<lparr>p_model := Present (Some ''trellis''),
         p_variant := Present (Some ''multi-turbo''), p_format := Present (Some ''gltf'')\<rparr>"
  have a: "slot_value (spread (Present (Some (case Some ''trellis'' of Some m \<Rightarrow> m | None \<Rightarrow> ''hunyuan3d'')))
                         (p_model ?a)) = Some ''trellis''"
    "p_variant ?a = Present (Some ''single-turbo'')" "str_includes ''single-turbo'' ''turbo''"
    "Some ''sword.glb'' = slot_value (spread (Present (Some ''sword.glb'')) (p_outputPath ?a))"
    "Some ''glb'' = slot_value (spread (Present (Some ''glb'')) (p_format ?a))"
    by (simp_all add: no_options_def spread_def)
  have b: "slot_value (spread (Present (Some (case None of Some m \<Rightarrow> m | None \<Rightarrow> ''hunyuan3d'')))
                         (p_model ?b)) = Some ''trellis''"
    "p_variant ?b = Present (Some ''multi-turbo'')" "str_includes ''multi-turbo'' ''turbo''"
    "Some ''sword.glb'' = slot_value (spread (Present (Some ''sword.glb'')) (p_outputPath ?b))"
    "Some ''gltf'' = slot_value (spread (Present (Some ''glb'')) (p_format ?b))"
    by (simp_all add: no_options_def spread_def)
  have path: "length (trim ''sword.glb'') \<noteq> 0"
    by (simp add: trim_def white_space_def)
  have "generate3DModelSmart studio ''fantasy sword'' ''sword.glb'' (Some ''trellis'') ?a []
     = (Inl (Error ''Trellis model does not support turbo variants''), [])"
    unfolding generate3DModelSmart_trellis_turbo [OF a] using path by simp
  moreover have "generate3DModelSmart studio ''fantasy sword'' ''sword.glb'' None ?b []
     = (Inl (Error ''Trellis model does not support turbo variants''), [])"
    unfolding generate3DModelSmart_trellis_turbo [OF b] using path by simp
  ultimately show ?thesis by (rule conjI)
qed

text \<open>
  Claim C9 as stated fails where an earlier check of \<^verbatim>\<open>validate3DModelOptions\<close>
  fails: with an empty output path, or one that is a no-break space, the error is
  the one about the output path, and with the format \<^verbatim>\<open>'obj'\<close> it is the one about
  the format.
\<close>

theorem generate3DModelSmart_earlier_checks:
  "generate3DModelSmart studio ''fantasy sword'' [] (Some ''trellis'')
      (no_options\<lparr>p_variant := Present (Some ''single-turbo'')\<rparr>) []
     = (Inl (Error ''Output path is required and cannot be empty''), []) \<and>
   generate3DModelSmart studio ''fantasy sword'' [CHR 0xA0] (Some ''trellis'')
      (no_options\<lparr>p_variant := Present (Some ''single-turbo'')\<rparr>) []
     = (Inl (Error ''Output path is required and cannot be empty''), []) \<and>
   generate3DModelSmart studio ''fantasy sword'' ''sword.obj'' (Some ''trellis'')
      (no_options\<lparr>p_variant := Present (Some ''single-turbo''),
         p_format := Present (Some ''obj'')\<rparr>) []
     = (Inl (Error ''Format must be one of: glb, gltf''), [])"
  by (simp add: generate3DModelSmart_def merge3DWithDefaults_def getDefault3DOptions_def
      smart_options_def spread_options_def spread_def no_options_def baseDefaults_def
      validate3DModelOptions_def trim_def white_space_def)

end
